(* ===== verification/Prelude.thy ===== *)
theory Prelude
  imports Main "HOL-Library.Word" "HOL-Library.Sublist"
begin

text \<open>
  Shared vocabulary of the development: Go errors as values, the fault outcomes of fallible
  operations, 64-bit durations, and the generic lemmas the component theories use.

  A Go \<open>error\<close> is a value of \<open>goerr\<close>: a sentinel (a package variable compared with
  \<open>errors.Is\<close>), a plain message, or a wrapping \<open>fmt.Errorf("prefix%w suffix", err)\<close>.
  A Go function returning \<open>error\<close> returns \<open>goerr option\<close> here (\<open>None\<close> is \<open>nil\<close>),
  and one returning \<open>(T, error)\<close> returns \<open>goerr + 'a\<close>.
\<close>

named_theorems agent_simps \<open>characteristic equations of the model's small helpers\<close>

type_synonym path = string

section \<open>Errors\<close>

datatype sentinel =
    ErrNotExist
  | ErrCanceled
  | ErrDeadlineExceeded
  | ErrEOF
  | ErrAlreadyRunning
  | ErrPausedMidConnection
  | ErrNoBearerSecret
  | ErrServer
  | ErrCreateFailed
  | ErrExcludeFailed
  | CertEUntrustedRoot

datatype goerr =
    Sentinel sentinel
  | Msg string
  | Wrap string goerr string

type_synonym 'a res = "goerr + 'a"

primrec sentinel_text :: "sentinel \<Rightarrow> string" where
  "sentinel_text ErrNotExist = ''file does not exist''"
| "sentinel_text ErrCanceled = ''context canceled''"
| "sentinel_text ErrDeadlineExceeded = ''context deadline exceeded''"
| "sentinel_text ErrEOF = ''EOF''"
| "sentinel_text ErrAlreadyRunning = ''transport: client already running''"
| "sentinel_text ErrPausedMidConnection = ''transport: paused''"
| "sentinel_text ErrNoBearerSecret = ''agent/enroll: no enrollment secret in config''"
| "sentinel_text ErrServer = ''agent/enroll: server rejected the request''"
| "sentinel_text ErrCreateFailed = ''hiddenbrowser: failed to create webview''"
| "sentinel_text ErrExcludeFailed = ''hiddenbrowser: failed to exclude window from capture''"
| "sentinel_text CertEUntrustedRoot =
     ''A certificate chain processed, but terminated in a root certificate which is not trusted by the trust provider.''"

primrec err_text :: "goerr \<Rightarrow> string" where
  "err_text (Sentinel s) = sentinel_text s"
| "err_text (Msg m) = m"
| "err_text (Wrap p e s) = p @ err_text e @ s"

text \<open>\<open>errors.Is\<close> walks the chain of wrapped errors.\<close>

primrec errors_is :: "goerr \<Rightarrow> sentinel \<Rightarrow> bool" where
  "errors_is (Sentinel s) t \<longleftrightarrow> s = t"
| "errors_is (Msg m) t \<longleftrightarrow> False"
| "errors_is (Wrap p e s) t \<longleftrightarrow> errors_is e t"

definition wrapf :: "string \<Rightarrow> goerr \<Rightarrow> goerr" where
  "wrapf p e = Wrap p e []"

lemma errors_is_wrapf [simp, agent_simps]: "errors_is (wrapf p e) t = errors_is e t"
  by (simp add: wrapf_def)

lemma err_text_wrapf [simp, agent_simps]: "err_text (wrapf p e) = p @ err_text e"
  by (simp add: wrapf_def)

lemma wrapf_eq_iff [simp]: "wrapf p e = wrapf q f \<longleftrightarrow> p = q \<and> e = f"
  by (simp add: wrapf_def)

lemma wrapf_not_sentinel [simp]: "wrapf p e \<noteq> Sentinel s" "Sentinel s \<noteq> wrapf p e"
  by (simp_all add: wrapf_def)

text \<open>Only one sentinel is at the end of a chain.\<close>

lemma errors_is_unique: "errors_is e s \<Longrightarrow> errors_is e t \<Longrightarrow> s = t"
  by (induction e) auto

section \<open>Results\<close>

definition map_err :: "(goerr \<Rightarrow> goerr) \<Rightarrow> goerr option \<Rightarrow> goerr option" where
  "map_err f r = map_option f r"

lemma map_err_simps [simp, agent_simps]:
  "map_err f None = None"
  "map_err f (Some e) = Some (f e)"
  by (simp_all add: map_err_def)

lemma map_err_None_iff [simp]: "map_err f r = None \<longleftrightarrow> r = None"
  by (simp add: map_err_def)

lemma map_err_Some_iff: "map_err f r = Some e \<longleftrightarrow> (\<exists>e'. r = Some e' \<and> e = f e')"
  by (cases r) auto

section \<open>64-bit signed integers\<close>

text \<open>
  Go's \<open>time.Duration\<close> and \<open>int\<close> are 64-bit two's complement. They are \<open>int\<close>
  here with the wrap-around written out by \<open>wrap64\<close> wherever the code's arithmetic can leave
  the range.
\<close>

definition wrap64 :: "int \<Rightarrow> int" where
  "wrap64 x = (x + 2 ^ 63) mod 2 ^ 64 - 2 ^ 63"

definition in_int64 :: "int \<Rightarrow> bool" where
  "in_int64 x \<longleftrightarrow> - (2 ^ 63) \<le> x \<and> x < 2 ^ 63"

lemma wrap64_id: "in_int64 x \<Longrightarrow> wrap64 x = x"
  by (simp add: wrap64_def in_int64_def)

lemma wrap64_in_range: "in_int64 (wrap64 x)"
  by (simp add: wrap64_def in_int64_def)

lemma wrap64_sint: "wrap64 x = sint (word_of_int x :: 64 word)"
  unfolding wrap64_def
  by transfer (simp add: signed_take_bit_eq_take_bit_shift take_bit_eq_mod)

definition nanosecond :: int where "nanosecond = 1"
definition millisecond :: int where "millisecond = 1000000"
definition second :: int where "second = 1000000000"

lemmas time_units = nanosecond_def millisecond_def second_def

end
