(* ===== verification/GoText.thy ===== *)
theory GoText
  imports Prelude
begin

text \<open>
  The functions of Go's \<open>strings\<close>, \<open>bytes\<close>, \<open>fmt\<close> and \<open>encoding/hex\<close> packages the agent
  calls. A Go string is a byte sequence, here an Isabelle \<open>string\<close>, whose characters are bytes;
  \<open>[]byte\<close> has the same type. \<open>strings.ToLower\<close> is modelled on ASCII letters, the only ones the
  callers compare: bytes from 128 on are kept.
\<close>

section \<open>Bytes\<close>

abbreviation ord :: "char \<Rightarrow> nat" where
  "ord c \<equiv> of_char c"

definition chr :: "nat \<Rightarrow> char" where
  "chr n = char_of n"

lemma ord_chr [simp]: "n < 256 \<Longrightarrow> ord (chr n) = n"
  by (simp add: chr_def)

lemma chr_ord [simp]: "chr (ord c) = c"
  by (simp add: chr_def)

lemma ord_less_256 [simp]: "ord c < 256"
  by (cases c) (simp add: of_char_def)

lemma ord_eq_iff [simp]: "ord c = ord d \<longleftrightarrow> c = d"
  by (metis chr_ord)

text \<open>The bytes of the horizontal ellipsis U+2026 in UTF-8.\<close>

definition ellipsis :: string where
  "ellipsis = map chr [226, 128, 166]"

section \<open>Search\<close>

definition has_prefix :: "string \<Rightarrow> string \<Rightarrow> bool" where
  "has_prefix s p \<longleftrightarrow> take (length p) s = p"

lemma has_prefix_iff: "has_prefix s p \<longleftrightarrow> (\<exists>t. s = p @ t)"
  by (auto simp: has_prefix_def) (metis append_take_drop_id)

lemma has_prefix_append [simp]: "has_prefix (p @ t) p"
  by (simp add: has_prefix_def)

fun index_byte :: "string \<Rightarrow> char \<Rightarrow> nat option" where
  "index_byte [] c = None"
| "index_byte (x # xs) c = (if x = c then Some 0 else map_option Suc (index_byte xs c))"

lemma index_byte_None_iff: "index_byte s c = None \<longleftrightarrow> c \<notin> set s"
  by (induction s) auto

lemma index_byte_Some:
  "index_byte s c = Some i \<Longrightarrow> i < length s \<and> s ! i = c \<and> take i s = takeWhile (\<lambda>x. x \<noteq> c) s"
  by (induction s arbitrary: i) (auto split: if_splits)

text \<open>The prefix before the first occurrence of a byte, and the whole string without one.\<close>

definition cut_at :: "string \<Rightarrow> char \<Rightarrow> string" where
  "cut_at s c = (case index_byte s c of Some i \<Rightarrow> take i s | None \<Rightarrow> s)"

lemma cut_at_takeWhile [agent_simps]: "cut_at s c = takeWhile (\<lambda>x. x \<noteq> c) s"
proof (cases "index_byte s c")
  case None
  then have "takeWhile (\<lambda>x. x \<noteq> c) s = s"
    by (auto simp: index_byte_None_iff takeWhile_eq_all_conv)
  from this [symmetric] None show ?thesis by (simp only: cut_at_def option.case)
next
  case (Some i)
  then show ?thesis by (auto simp: cut_at_def dest: index_byte_Some)
qed

lemma cut_at_no_byte: "c \<notin> set (cut_at s c)"
  by (auto simp: cut_at_takeWhile dest: set_takeWhileD)

lemma cut_at_id: "c \<notin> set s \<Longrightarrow> cut_at s c = s"
  by (auto simp: cut_at_takeWhile takeWhile_eq_all_conv)

lemma cut_at_append: "c \<notin> set s \<Longrightarrow> cut_at (s @ c # t) c = s"
  by (auto simp: cut_at_takeWhile takeWhile_tail)

definition contains_bytes :: "string \<Rightarrow> string \<Rightarrow> bool" where
  "contains_bytes s t \<longleftrightarrow> (\<exists>i \<in> set [0..<Suc (length s)]. has_prefix (drop i s) t)"

lemma contains_bytes_iff: "contains_bytes s t \<longleftrightarrow> (\<exists>u v. s = u @ t @ v)"
proof
  assume "contains_bytes s t"
  then obtain i v where "drop i s = t @ v"
    by (auto simp: contains_bytes_def has_prefix_iff)
  then have "s = take i s @ t @ v" by (metis append_take_drop_id)
  then show "\<exists>u v. s = u @ t @ v" by blast
next
  assume "\<exists>u v. s = u @ t @ v"
  then obtain u v where s: "s = u @ t @ v" by blast
  then have "has_prefix (drop (length u) s) t" and "length u < Suc (length s)" by auto
  then show "contains_bytes s t" unfolding contains_bytes_def by fastforce
qed

section \<open>Case\<close>

definition is_upper :: "char \<Rightarrow> bool" where
  "is_upper c \<longleftrightarrow> 65 \<le> ord c \<and> ord c \<le> 90"

definition lower_byte :: "char \<Rightarrow> char" where
  "lower_byte c = (if is_upper c then chr (ord c + 32) else c)"

definition to_lower :: "string \<Rightarrow> string" where
  "to_lower s = map lower_byte s"

lemma lower_byte_id_iff: "lower_byte c = c \<longleftrightarrow> \<not> is_upper c"
proof
  assume "lower_byte c = c"
  then have eq: "is_upper c \<Longrightarrow> ord (chr (ord c + 32)) = ord c"
    by (simp add: lower_byte_def)
  show "\<not> is_upper c"
  proof
    assume u: "is_upper c"
    then have "ord c + 32 < 256" by (simp add: is_upper_def)
    with eq[OF u] show False by simp
  qed
qed (simp add: lower_byte_def)

lemma to_lower_id_iff: "to_lower s = s \<longleftrightarrow> (\<forall>c \<in> set s. \<not> is_upper c)"
  by (induction s) (auto simp: to_lower_def lower_byte_id_iff)

lemma not_upper_lower_byte: "\<not> is_upper (lower_byte c)"
  by (auto simp: lower_byte_def is_upper_def)

lemma to_lower_idem [simp]: "to_lower (to_lower s) = to_lower s"
  by (auto simp: to_lower_id_iff) (auto simp: to_lower_def not_upper_lower_byte)

section \<open>Decimal numbers\<close>

definition is_digit :: "char \<Rightarrow> bool" where
  "is_digit c \<longleftrightarrow> 48 \<le> ord c \<and> ord c \<le> 57"

fun show_nat :: "nat \<Rightarrow> string" where
  "show_nat n = (if n < 10 then [chr (48 + n)] else show_nat (n div 10) @ [chr (48 + n mod 10)])"

declare show_nat.simps [simp del]

definition show_int :: "int \<Rightarrow> string" where
  "show_int i = (if i < 0 then CHR ''-'' # show_nat (nat (- i)) else show_nat (nat i))"

lemma show_nat_nonempty [simp]: "show_nat n \<noteq> []"
  by (subst show_nat.simps) simp

lemma show_nat_digits: "c \<in> set (show_nat n) \<Longrightarrow> 48 \<le> ord c \<and> ord c \<le> 57"
proof (induction n rule: show_nat.induct)
  case (1 n)
  show ?case
  proof (cases "n < 10")
    case True
    with 1 show ?thesis by (subst (asm) show_nat.simps) auto
  next
    case False
    with 1 have "c \<in> set (show_nat (n div 10)) \<or> c = chr (48 + n mod 10)"
      by (subst (asm) (2) show_nat.simps) auto
    moreover have "n mod 10 < 10" by simp
    ultimately show ?thesis using 1 False by auto
  qed
qed

lemma show_nat_head: "hd (show_nat n) = CHR ''0'' \<Longrightarrow> n = 0"
proof (induction n rule: show_nat.induct)
  case (1 n)
  show ?case
  proof (cases "n < 10")
    case True
    with 1 have "chr (48 + n) = CHR ''0''" by (subst (asm) (2) show_nat.simps) auto
    then have "ord (chr (48 + n)) = 48" by simp
    with True show ?thesis by simp
  next
    case False
    with 1 have "hd (show_nat (n div 10)) = CHR ''0''"
      by (subst (asm) (2) show_nat.simps) (auto simp: hd_append)
    with 1 False show ?thesis by auto
  qed
qed

section \<open>Quoting\<close>

text \<open>
  The \<open>%q\<close> verb: a double-quoted Go literal. Bytes from 128 on are kept, as \<open>strconv.Quote\<close> keeps
  printable UTF-8.
\<close>

definition quote_char :: "char \<Rightarrow> string" where
  "quote_char c =
     (if c = CHR 0x22 then [CHR 0x5C, CHR 0x22]
      else if c = CHR 0x5C then [CHR 0x5C, CHR 0x5C]
      else if c = CHR 0x07 then CHR 0x5C # ''a'' else if c = CHR 0x08 then CHR 0x5C # ''b''
      else if c = CHR 0x09 then CHR 0x5C # ''t'' else if c = CHR 0x0A then CHR 0x5C # ''n''
      else if c = CHR 0x0B then CHR 0x5C # ''v'' else if c = CHR 0x0C then CHR 0x5C # ''f''
      else if c = CHR 0x0D then CHR 0x5C # ''r''
      else if ord c < 32 \<or> ord c = 127
      then CHR 0x5C # ''x'' @ [''0123456789abcdef'' ! (ord c div 16), ''0123456789abcdef'' ! (ord c mod 16)]
      else [c])"

definition go_quote :: "string \<Rightarrow> string" where
  "go_quote s = [CHR 0x22] @ concat (map quote_char s) @ [CHR 0x22]"

section \<open>Hexadecimal\<close>

definition hex_digit :: "nat \<Rightarrow> char" where
  "hex_digit n = chr (if n < 10 then 48 + n else 87 + n)"

definition from_hex_char :: "char \<Rightarrow> nat option" where
  "from_hex_char c =
     (let n = ord c in
      if 48 \<le> n \<and> n \<le> 57 then Some (n - 48)
      else if 97 \<le> n \<and> n \<le> 102 then Some (n - 87)
      else if 65 \<le> n \<and> n \<le> 70 then Some (n - 55)
      else None)"

fun hex_encode :: "string \<Rightarrow> string" where
  "hex_encode [] = []"
| "hex_encode (b # bs) = hex_digit (ord b div 16) # hex_digit (ord b mod 16) # hex_encode bs"

text \<open>\<open>hex.DecodeString\<close>: an odd length or a byte outside the digits is an error.\<close>

fun hex_decode :: "string \<Rightarrow> string option" where
  "hex_decode [] = Some []"
| "hex_decode [x] = None"
| "hex_decode (x # y # s) =
     (case (from_hex_char x, from_hex_char y) of
        (Some a, Some b) \<Rightarrow> map_option (\<lambda>bs. chr (16 * a + b) # bs) (hex_decode s)
      | _ \<Rightarrow> None)"

definition is_lower_hex :: "char \<Rightarrow> bool" where
  "is_lower_hex c \<longleftrightarrow> (48 \<le> ord c \<and> ord c \<le> 57) \<or> (97 \<le> ord c \<and> ord c \<le> 102)"

lemma from_hex_char_bound: "from_hex_char c = Some n \<Longrightarrow> n < 16"
  by (auto simp: from_hex_char_def Let_def split: if_splits)

lemma from_hex_hex_digit [simp]: "n < 16 \<Longrightarrow> from_hex_char (hex_digit n) = Some n"
  by (auto simp: from_hex_char_def hex_digit_def Let_def)

lemma hex_digit_lower: "n < 16 \<Longrightarrow> is_lower_hex (hex_digit n)"
  by (auto simp: is_lower_hex_def hex_digit_def)

lemma hex_digit_from_hex: "is_lower_hex c \<Longrightarrow> from_hex_char c = Some n \<Longrightarrow> hex_digit n = c"
  by (auto simp: is_lower_hex_def from_hex_char_def hex_digit_def Let_def split: if_splits)

lemma is_lower_hex_iff: "is_lower_hex c \<longleftrightarrow> from_hex_char c \<noteq> None \<and> \<not> is_upper c"
  by (auto simp: is_lower_hex_def from_hex_char_def is_upper_def Let_def)

lemma length_hex_encode [simp]: "length (hex_encode bs) = 2 * length bs"
  by (induction bs) auto

lemma hex_decode_encode [simp]: "hex_decode (hex_encode bs) = Some bs"
proof (induction bs)
  case (Cons b bs)
  have "ord b div 16 < 16" using ord_less_256[of b] by linarith
  moreover have "chr (16 * (ord b div 16) + ord b mod 16) = b" by simp
  ultimately show ?case using Cons by simp
qed simp

lemma hex_encode_lower: "c \<in> set (hex_encode bs) \<Longrightarrow> is_lower_hex c"
proof (induction bs)
  case (Cons b bs)
  have "ord b div 16 < 16" using ord_less_256[of b] by linarith
  with Cons show ?case by (auto intro: hex_digit_lower)
qed simp

text \<open>Decoding is inverse to encoding on lower-case input: the digest text is canonical.\<close>

lemma hex_encode_decode:
  "hex_decode s = Some bs \<Longrightarrow> \<forall>c \<in> set s. is_lower_hex c \<Longrightarrow> hex_encode bs = s"
proof (induction s arbitrary: bs rule: hex_decode.induct)
  case (3 x y s)
  then obtain a b bs' where ab: "from_hex_char x = Some a" "from_hex_char y = Some b"
    and dec: "hex_decode s = Some bs'" and bs: "bs = chr (16 * a + b) # bs'"
    by (auto split: option.splits)
  from ab have lt: "a < 16" "b < 16" by (auto dest: from_hex_char_bound)
  then have "ord (chr (16 * a + b)) = 16 * a + b" by simp
  moreover from "3.IH"[OF refl ab dec] "3.prems"(2) have "hex_encode bs' = s" by simp
  ultimately show ?case using bs lt ab "3.prems"(2) by (auto intro: hex_digit_from_hex)
qed auto

lemma hex_decode_length: "hex_decode s = Some bs \<Longrightarrow> length s = 2 * length bs"
  by (induction s arbitrary: bs rule: hex_decode.induct) (auto split: option.splits)

lemma hex_decode_total:
  "even (length s) \<Longrightarrow> \<forall>c \<in> set s. from_hex_char c \<noteq> None \<Longrightarrow> hex_decode s \<noteq> None"
  by (induction s rule: hex_decode.induct) (auto split: option.splits)

lemma hex_decode_digits: "hex_decode s = Some bs \<Longrightarrow> c \<in> set s \<Longrightarrow> from_hex_char c \<noteq> None"
  by (induction s arbitrary: bs rule: hex_decode.induct) (auto split: option.splits)

end
