(* ===== verification/Host.thy ===== *)
theory Host
  imports GoText
begin

text \<open>
  The machine the agent runs on, as far as the modelled code sees it: a file system, a clock of
  fallible calls, and a log of the effects outside the file system. A model function takes the
  environment \<open>env\<close> and a world and returns its result with the new world.

  Every fallible system call asks \<open>he_fault\<close> for its fate at its own tick. A fault carries the error
  and how far the call got, so a failing write leaves any prefix of its data, or nothing. The
  theorems hold for every \<open>he_fault\<close>; therefore conditions under which the real call fails and the
  model's would not (a missing parent directory, a sharing violation, a full disk) are faults. No
  other process changes the files a function works on while it runs.
\<close>

section \<open>World\<close>

datatype node = File string | Dir

text \<open>
  Effects outside the file system: \<open>Spawn\<close> is a child process with its directory and the variables
  added to its environment.
\<close>

datatype effect =
    ExitScheduled
  | Spawn path path "string list"
  | KillName string
  | KillPid nat
  | ServiceCreate path
  | ServiceStart
  | ServiceStop

record world =
  w_fs :: "path \<Rightarrow> node option"
  w_tick :: nat
  w_log :: "effect list"

text \<open>
  What the environment answers: \<open>he_http\<close> is an HTTP exchange at a tick, its status and body, the
  body ending early with an error or not; \<open>he_temp_name\<close> is the name \<open>os.CreateTemp\<close> tries.
\<close>

record http_response =
  http_status :: int
  http_body :: string
  http_body_error :: "goerr option"

record hostenv =
  he_fault :: "nat \<Rightarrow> (goerr \<times> nat) option"
  he_partial :: "nat \<Rightarrow> path \<Rightarrow> bool"
  he_temp_dir :: path
  he_temp_name :: "nat \<Rightarrow> path \<Rightarrow> string \<Rightarrow> path"
  he_getenv :: "string \<Rightarrow> string"
  he_http :: "nat \<Rightarrow> string \<Rightarrow> http_response res"
  he_sha256 :: "string \<Rightarrow> string"

definition quiet_env :: hostenv where
  "quiet_env = \<lparr>he_fault = (\<lambda>n. None), he_partial = (\<lambda>n p. False), he_temp_dir = ''T'',
     he_temp_name = (\<lambda>n d p. d @ [CHR 0x5C] @ p), he_getenv = (\<lambda>k. []),
     he_http = (\<lambda>n u. Inl (Msg ''no network'')), he_sha256 = (\<lambda>s. take 32 (s @ replicate 32 (CHR 0x00)))\<rparr>"

section \<open>Calls\<close>

definition tick :: "'a world_scheme \<Rightarrow> 'a world_scheme" where
  "tick w = w\<lparr>w_tick := Suc (w_tick w)\<rparr>"

definition log_effect :: "effect \<Rightarrow> 'a world_scheme \<Rightarrow> 'a world_scheme" where
  "log_effect e w = w\<lparr>w_log := w_log w @ [e]\<rparr>"

definition put :: "path \<Rightarrow> string \<Rightarrow> 'a world_scheme \<Rightarrow> 'a world_scheme" where
  "put p c w = w\<lparr>w_fs := (w_fs w)(p \<mapsto> File c)\<rparr>"

definition drop_path :: "path \<Rightarrow> 'a world_scheme \<Rightarrow> 'a world_scheme" where
  "drop_path p w = w\<lparr>w_fs := (w_fs w)(p := None)\<rparr>"

lemma world_simps [simp, agent_simps]:
  "w_fs (tick w) = w_fs w" "w_log (tick w) = w_log w" "w_tick (tick w) = Suc (w_tick w)"
  "w_fs (log_effect e w) = w_fs w" "w_log (log_effect e w) = w_log w @ [e]"
  "w_tick (log_effect e w) = w_tick w"
  "w_fs (put p c w) = (w_fs w)(p \<mapsto> File c)" "w_log (put p c w) = w_log w" "w_tick (put p c w) = w_tick w"
  "w_fs (drop_path p w) = (w_fs w)(p := None)" "w_log (drop_path p w) = w_log w"
  "w_tick (drop_path p w) = w_tick w"
  by (simp_all add: tick_def log_effect_def put_def drop_path_def)

lemma world_more [simp, agent_simps]:
  "world.more (tick w) = world.more w" "world.more (log_effect e w) = world.more w"
  "world.more (put p c w) = world.more w" "world.more (drop_path p w) = world.more w"
  by (simp_all add: tick_def log_effect_def put_def drop_path_def)

definition os_read_file :: "hostenv \<Rightarrow> path \<Rightarrow> 'a world_scheme \<Rightarrow> string res \<times> 'a world_scheme" where
  "os_read_file env p w =
     (case he_fault env (w_tick w) of
        Some (e, k) \<Rightarrow> (Inl e, tick w)
      | None \<Rightarrow>
          (case w_fs w p of
             None \<Rightarrow> (Inl (Sentinel ErrNotExist), tick w)
           | Some Dir \<Rightarrow> (Inl (Msg ''is a directory''), tick w)
           | Some (File c) \<Rightarrow> (Inr c, tick w)))"

text \<open>\<open>os.WriteFile\<close>: opens and truncates, then writes. A fault at 0 comes before the open.\<close>

definition os_write_file ::
  "hostenv \<Rightarrow> path \<Rightarrow> string \<Rightarrow> 'a world_scheme \<Rightarrow> goerr option \<times> 'a world_scheme" where
  "os_write_file env p c w =
     (if w_fs w p = Some Dir then (Some (Msg ''is a directory''), tick w)
      else (case he_fault env (w_tick w) of
          Some (e, 0) \<Rightarrow> (Some e, tick w)
        | Some (e, Suc k) \<Rightarrow> (Some e, put p (take k c) (tick w))
        | None \<Rightarrow> (None, put p c (tick w))))"

definition os_remove :: "hostenv \<Rightarrow> path \<Rightarrow> 'a world_scheme \<Rightarrow> goerr option \<times> 'a world_scheme" where
  "os_remove env p w =
     (case he_fault env (w_tick w) of
        Some (e, k) \<Rightarrow> (Some e, tick w)
      | None \<Rightarrow>
          if w_fs w p = None then (Some (Sentinel ErrNotExist), tick w)
          else (None, drop_path p (tick w)))"

definition os_rename ::
  "hostenv \<Rightarrow> path \<Rightarrow> path \<Rightarrow> 'a world_scheme \<Rightarrow> goerr option \<times> 'a world_scheme" where
  "os_rename env a b w =
     (case he_fault env (w_tick w) of
        Some (e, k) \<Rightarrow> (Some e, tick w)
      | None \<Rightarrow>
          (case (w_fs w a, w_fs w b) of
             (None, _) \<Rightarrow> (Some (Sentinel ErrNotExist), tick w)
           | (Some Dir, _) \<Rightarrow> (Some (Msg ''rename of a directory''), tick w)
           | (Some (File c), Some Dir) \<Rightarrow> (Some (Msg ''file exists''), tick w)
           | (Some (File c), _) \<Rightarrow> (None, put b c (drop_path a (tick w)))))"

definition os_mkdir_all :: "hostenv \<Rightarrow> path \<Rightarrow> 'a world_scheme \<Rightarrow> goerr option \<times> 'a world_scheme" where
  "os_mkdir_all env p w =
     (case he_fault env (w_tick w) of
        Some (e, k) \<Rightarrow> (Some e, tick w)
      | None \<Rightarrow>
          (case w_fs w p of
             Some (File c) \<Rightarrow> (Some (Msg ''not a directory''), tick w)
           | _ \<Rightarrow> (None, (tick w)\<lparr>w_fs := (w_fs w)(p \<mapsto> Dir)\<rparr>)))"

definition is_under :: "path \<Rightarrow> path \<Rightarrow> bool" where
  "is_under root p \<longleftrightarrow> p = root \<or> has_prefix p (root @ [CHR 0x5C])"

definition os_remove_all :: "hostenv \<Rightarrow> path \<Rightarrow> 'a world_scheme \<Rightarrow> goerr option \<times> 'a world_scheme" where
  "os_remove_all env root w =
     (case he_fault env (w_tick w) of
        Some (e, k) \<Rightarrow>
          (Some e, (tick w)\<lparr>w_fs := (\<lambda>p. if is_under root p \<and> he_partial env (w_tick w) p then None
                                          else w_fs w p)\<rparr>)
      | None \<Rightarrow> (None, (tick w)\<lparr>w_fs := (\<lambda>p. if is_under root p then None else w_fs w p)\<rparr>))"

text \<open>\<open>os.Stat\<close>, of which the callers only use whether it fails.\<close>

definition os_stat :: "hostenv \<Rightarrow> path \<Rightarrow> 'a world_scheme \<Rightarrow> goerr option \<times> 'a world_scheme" where
  "os_stat env p w =
     (case he_fault env (w_tick w) of
        Some (e, k) \<Rightarrow> (Some e, tick w)
      | None \<Rightarrow> (if w_fs w p = None then Some (Sentinel ErrNotExist) else None, tick w))"

text \<open>\<open>os.CreateTemp\<close> never opens an existing file.\<close>

definition os_create_temp ::
  "hostenv \<Rightarrow> path \<Rightarrow> string \<Rightarrow> 'a world_scheme \<Rightarrow> path res \<times> 'a world_scheme" where
  "os_create_temp env dir pattern w =
     (case he_fault env (w_tick w) of
        Some (e, k) \<Rightarrow> (Inl e, tick w)
      | None \<Rightarrow>
          (let p = he_temp_name env (w_tick w) (if dir = [] then he_temp_dir env else dir) pattern
           in if w_fs w p \<noteq> None then (Inl (Msg ''file exists''), tick w)
              else (Inr p, put p [] (tick w))))"

text \<open>
  \<open>io.Copy\<close> into a freshly created file, of \<open>c\<close> followed by the end of the source, which may be an
  error of its own: the bytes written and the error. A fault stops it after some bytes.
\<close>

definition io_copy_to ::
  "hostenv \<Rightarrow> path \<Rightarrow> string \<Rightarrow> goerr option \<Rightarrow> 'a world_scheme \<Rightarrow> (nat \<times> goerr option) \<times> 'a world_scheme" where
  "io_copy_to env p c src_err w =
     (case he_fault env (w_tick w) of
        Some (e, k) \<Rightarrow> ((length (take k c), Some e), put p (take k c) (tick w))
      | None \<Rightarrow> ((length c, src_err), put p c (tick w)))"

definition os_close :: "hostenv \<Rightarrow> 'a world_scheme \<Rightarrow> goerr option \<times> 'a world_scheme" where
  "os_close env w = (map_option fst (he_fault env (w_tick w)), tick w)"

lemmas host_calls = os_read_file_def os_write_file_def os_remove_def os_rename_def os_mkdir_all_def
  os_remove_all_def os_stat_def os_create_temp_def io_copy_to_def os_close_def

section \<open>What the calls leave alone\<close>

text \<open>One call writes at most the paths named in it, and adds no effect.\<close>

lemma os_read_file_frame: "os_read_file env p w = (r, w') \<Longrightarrow> w' = tick w"
  by (auto simp: os_read_file_def split: option.splits node.splits)

lemma os_read_file_Inr: "os_read_file env p w = (Inr c, w') \<Longrightarrow> w_fs w p = Some (File c)"
  by (auto simp: os_read_file_def split: option.splits node.splits)

lemma os_write_file_frame:
  "os_write_file env p c w = (r, w') \<Longrightarrow> q \<noteq> p \<Longrightarrow> w_fs w' q = w_fs w q"
  by (auto simp: os_write_file_def split: if_splits option.splits nat.splits)

lemma os_write_file_None: "os_write_file env p c w = (None, w') \<Longrightarrow> w_fs w' = (w_fs w)(p \<mapsto> File c)"
  by (auto simp: os_write_file_def split: if_splits option.splits nat.splits)

lemma os_mkdir_all_frame: "os_mkdir_all env p w = (r, w') \<Longrightarrow> q \<noteq> p \<Longrightarrow> w_fs w' q = w_fs w q"
  by (auto simp: os_mkdir_all_def split: option.splits node.splits)

lemma os_remove_frame: "os_remove env p w = (r, w') \<Longrightarrow> q \<noteq> p \<Longrightarrow> w_fs w' q = w_fs w q"
  by (auto simp: os_remove_def split: if_splits option.splits)

lemma os_remove_cases:
  "os_remove env p w = (r, w') \<Longrightarrow>
     w_fs w' = (w_fs w)(p := None) \<or> (w_fs w' = w_fs w \<and> he_fault env (w_tick w) \<noteq> None)"
  by (auto simp: os_remove_def fun_upd_idem_iff split: if_splits option.splits)

lemma os_rename_None:
  "os_rename env a b w = (None, w') \<Longrightarrow>
     \<exists>c. w_fs w a = Some (File c) \<and> w_fs w b \<noteq> Some Dir \<and> w_fs w' = (w_fs w)(a := None, b \<mapsto> File c)"
  by (auto simp: os_rename_def split: option.splits node.splits)

lemma os_rename_Some: "os_rename env a b w = (Some e, w') \<Longrightarrow> w_fs w' = w_fs w"
  by (auto simp: os_rename_def split: option.splits node.splits)

lemma os_read_file_log: "os_read_file env p w = (r, w') \<Longrightarrow> w_log w' = w_log w"
  by (auto simp: os_read_file_def Let_def split: option.splits node.splits if_splits nat.splits)

lemma os_write_file_log: "os_write_file env p c w = (r, w') \<Longrightarrow> w_log w' = w_log w"
  by (auto simp: os_write_file_def Let_def split: option.splits node.splits if_splits nat.splits)

lemma os_remove_log: "os_remove env p w = (r, w') \<Longrightarrow> w_log w' = w_log w"
  by (auto simp: os_remove_def Let_def split: option.splits node.splits if_splits nat.splits)

lemma os_rename_log: "os_rename env a b w = (r, w') \<Longrightarrow> w_log w' = w_log w"
  by (auto simp: os_rename_def split: option.splits node.splits)

lemma os_mkdir_all_log: "os_mkdir_all env p w = (r, w') \<Longrightarrow> w_log w' = w_log w"
  by (auto simp: os_mkdir_all_def Let_def split: option.splits node.splits if_splits nat.splits)

lemma os_remove_all_log: "os_remove_all env p w = (r, w') \<Longrightarrow> w_log w' = w_log w"
  by (auto simp: os_remove_all_def split: option.splits)

lemma os_stat_log: "os_stat env p w = (r, w') \<Longrightarrow> w_log w' = w_log w"
  by (auto simp: os_stat_def Let_def split: option.splits node.splits if_splits nat.splits)

lemma os_create_temp_log: "os_create_temp env d t w = (r, w') \<Longrightarrow> w_log w' = w_log w"
  by (auto simp: os_create_temp_def Let_def split: option.splits node.splits if_splits nat.splits)

lemma io_copy_to_log: "io_copy_to env p c se w = (r, w') \<Longrightarrow> w_log w' = w_log w"
  by (auto simp: io_copy_to_def Let_def split: option.splits node.splits if_splits nat.splits)

lemma os_close_log: "os_close env w = (r, w') \<Longrightarrow> w_log w' = w_log w"
  by (auto simp: os_close_def Let_def split: option.splits node.splits if_splits nat.splits)

lemmas calls_log = os_read_file_log os_write_file_log os_remove_log os_rename_log os_mkdir_all_log os_remove_all_log os_stat_log os_create_temp_log io_copy_to_log os_close_log

lemma os_remove_tick: "os_remove env p w = (r, w') \<Longrightarrow> w_tick w' = Suc (w_tick w)"
  by (auto simp: os_remove_def split: if_splits option.splits)

text \<open>Without faults.\<close>

lemma quiet_faults [simp]: "he_fault quiet_env n = None"
  by (simp add: quiet_env_def)

section \<open>Writing a file in one piece\<close>

text \<open>
  The way the agent replaces a file it must not lose: write a sibling, then rename it over the
  target. A client only relies on this contract: the target is the old or the new content, never a
  part, and on success it is the new.
\<close>

locale atomic_writer =
  fixes write_atomic :: "path \<Rightarrow> string \<Rightarrow> 'w \<Rightarrow> goerr option \<times> 'w"
    and content :: "'w \<Rightarrow> path \<Rightarrow> node option"
    and scratch :: "path \<Rightarrow> path"
  assumes success: "write_atomic p c w = (None, w') \<Longrightarrow> content w' p = Some (File c)"
    and failure: "write_atomic p c w = (Some e, w') \<Longrightarrow> content w' p = content w p"
    and others: "write_atomic p c w = (r, w') \<Longrightarrow> q \<noteq> p \<Longrightarrow> q \<noteq> scratch p \<Longrightarrow> content w' q = content w q"
begin

lemma never_torn:
  assumes "write_atomic p c w = (r, w')"
  shows "content w' p = content w p \<or> content w' p = Some (File c)"
  using assms success failure by (cases r) auto

lemma readers_never_see_part:
  assumes "write_atomic p c w = (r, w')" "q \<noteq> scratch p"
  shows "content w' q \<in> {content w q, Some (File c)}"
  using assms never_torn[OF assms(1)] others[OF assms(1)] by (cases "q = p") auto

text \<open>Writing several files in turn, stopping at the first error.\<close>

primrec write_all :: "(path \<times> string) list \<Rightarrow> 'w \<Rightarrow> goerr option \<times> 'w" where
  "write_all [] w = (None, w)"
| "write_all (pc # pcs) w =
     (case write_atomic (fst pc) (snd pc) w of
        (Some e, w1) \<Rightarrow> (Some e, w1)
      | (None, w1) \<Rightarrow> write_all pcs w1)"

lemma write_all_others:
  "write_all pcs w = (r, w') \<Longrightarrow> \<forall>pc \<in> set pcs. q \<noteq> fst pc \<and> q \<noteq> scratch (fst pc) \<Longrightarrow>
     content w' q = content w q"
proof (induction pcs arbitrary: w)
  case (Cons pc pcs)
  obtain r1 w1 where w1: "write_atomic (fst pc) (snd pc) w = (r1, w1)" by force
  have "content w1 q = content w q" using others[OF w1] Cons.prems(2) by simp
  then show ?case using w1 Cons.IH[of w1] Cons.prems by (cases r1) simp_all
qed simp

lemma write_all_success:
  "write_all pcs w = (None, w') \<Longrightarrow> distinct (map fst pcs) \<Longrightarrow>
     \<forall>pc \<in> set pcs. \<forall>qc \<in> set pcs. fst pc \<noteq> scratch (fst qc) \<Longrightarrow>
     \<forall>pc \<in> set pcs. content w' (fst pc) = Some (File (snd pc))"
proof (induction pcs arbitrary: w)
  case (Cons pc pcs)
  obtain r1 w1 where r1: "write_atomic (fst pc) (snd pc) w = (r1, w1)" by force
  then have w1: "write_atomic (fst pc) (snd pc) w = (None, w1)" "write_all pcs w1 = (None, w')"
    using Cons.prems(1) by (cases r1; simp)+
  have notin: "fst pc \<notin> fst ` set pcs" using Cons.prems(2) by simp
  have "\<forall>qc \<in> set pcs. fst pc \<noteq> scratch (fst qc)" using Cons.prems(3) by simp
  with notin have "\<forall>qc \<in> set pcs. fst pc \<noteq> fst qc \<and> fst pc \<noteq> scratch (fst qc)" by (metis image_eqI)
  then have "content w' (fst pc) = content w1 (fst pc)" using write_all_others[OF w1(2)] by blast
  moreover have "content w1 (fst pc) = Some (File (snd pc))" using success[OF w1(1)] .
  moreover have "\<forall>qc \<in> set pcs. content w' (fst qc) = Some (File (snd qc))"
    using Cons.IH[OF w1(2)] Cons.prems(2,3) by simp
  ultimately show ?case by simp
qed simp

end

end
