(* ===== verification/GoUrl.thy ===== *)
theory GoUrl
  imports GoText
begin

text \<open>
  \<open>net/url\<close>: \<open>url.Parse\<close> with the validity checks that make it fail, and \<open>URL.Hostname\<close>. The agent
  reads a parsed URL's scheme and host name only, so the record keeps scheme, host and the opaque
  part. The zone identifier of an IPv6 literal (RFC 6874) is not split off: a host with a percent
  sign inside brackets goes through the same escape check as any other host.
\<close>

record parsed_url =
  pu_scheme :: string
  pu_opaque :: string
  pu_host :: string

definition is_alpha :: "char \<Rightarrow> bool" where
  "is_alpha c \<longleftrightarrow> (97 \<le> ord c \<and> ord c \<le> 122) \<or> is_upper c"

text \<open>\<open>getScheme\<close>: the text before a colon when it is a scheme; the flag is "first byte".\<close>

fun get_scheme_from :: "bool \<Rightarrow> string \<Rightarrow> string \<Rightarrow> string \<Rightarrow> (string \<times> string) res" where
  "get_scheme_from first acc [] raw = Inr ([], raw)"
| "get_scheme_from first acc (c # s) raw =
     (if is_alpha c then get_scheme_from False (acc @ [c]) s raw
      else if is_digit c \<or> c = CHR ''+'' \<or> c = CHR ''-'' \<or> c = CHR ''.''
        then (if first then Inr ([], raw) else get_scheme_from False (acc @ [c]) s raw)
      else if c = CHR '':''
        then (if first then Inl (Msg ''missing protocol scheme'') else Inr (acc, s))
      else Inr ([], raw))"

definition get_scheme :: "string \<Rightarrow> (string \<times> string) res" where
  "get_scheme raw = get_scheme_from True [] raw raw"

definition has_ctl_byte :: "string \<Rightarrow> bool" where
  "has_ctl_byte s \<longleftrightarrow> (\<exists>c \<in> set s. ord c < 32 \<or> ord c = 127)"

text \<open>The last occurrence of a byte.\<close>

definition last_index_byte :: "string \<Rightarrow> char \<Rightarrow> nat option" where
  "last_index_byte s c = map_option (\<lambda>i. length s - Suc i) (index_byte (rev s) c)"

definition valid_optional_port :: "string \<Rightarrow> bool" where
  "valid_optional_port p \<longleftrightarrow>
     p = [] \<or> (hd p = CHR '':'' \<and> list_all is_digit (tl p))"

definition valid_userinfo :: "string \<Rightarrow> bool" where
  "valid_userinfo s \<longleftrightarrow> list_all (\<lambda>c. is_alpha c \<or> is_digit c \<or> c \<in> set ''-._:~!$&()*+,;=%@'' \<or> ord c = 39) s"

text \<open>Bytes a host may hold unescaped, besides letters, digits and bytes from 128 on.\<close>

definition host_byte_ok :: "char \<Rightarrow> bool" where
  "host_byte_ok c \<longleftrightarrow>
     is_alpha c \<or> is_digit c \<or> 128 \<le> ord c \<or> c \<in> set ''-_.~!$&()*+,;=:[]<>'' \<or> ord c = 39 \<or> ord c = 34"

text \<open>\<open>unescape\<close> of a host: a percent escape must stand for a non-ASCII byte.\<close>

fun unescape_host :: "string \<Rightarrow> string option" where
  "unescape_host [] = Some []"
| "unescape_host (c # s) =
     (if c = CHR ''%'' then
        (case s of
           a # b # t \<Rightarrow>
             (case (from_hex_char a, from_hex_char b) of
                (Some x, Some y) \<Rightarrow>
                  if x < 8 \<and> \<not> (x = 2 \<and> y = 5) then None
                  else map_option (\<lambda>r. chr (16 * x + y) # r) (unescape_host t)
              | _ \<Rightarrow> None)
         | _ \<Rightarrow> None)
      else if host_byte_ok c then map_option (\<lambda>r. c # r) (unescape_host s)
      else None)"

text \<open>Every percent sign of a path, user info or fragment starts a two-digit escape.\<close>

fun escapes_ok :: "string \<Rightarrow> bool" where
  "escapes_ok [] = True"
| "escapes_ok (c # s) =
     (if c = CHR ''%'' then
        (case s of
           a # b # t \<Rightarrow> from_hex_char a \<noteq> None \<and> from_hex_char b \<noteq> None \<and> escapes_ok t
         | _ \<Rightarrow> False)
      else escapes_ok s)"

definition parse_host :: "string \<Rightarrow> string res" where
  "parse_host host =
     (let port_ok =
        (if has_prefix host ''['' then
           (case last_index_byte host (CHR '']'') of
              None \<Rightarrow> False
            | Some i \<Rightarrow> valid_optional_port (drop (Suc i) host))
         else (case last_index_byte host (CHR '':'') of
                 None \<Rightarrow> True
               | Some i \<Rightarrow> valid_optional_port (drop i host)))
      in if \<not> port_ok then Inl (Msg ''invalid port after host'')
         else (case unescape_host host of
                 None \<Rightarrow> Inl (Msg ''invalid character in host name'')
               | Some h \<Rightarrow> Inr h))"

definition parse_authority :: "string \<Rightarrow> string res" where
  "parse_authority a =
     (case last_index_byte a (CHR ''@'') of
        None \<Rightarrow> parse_host a
      | Some i \<Rightarrow>
          (case parse_host (drop (Suc i) a) of
             Inl e \<Rightarrow> Inl e
           | Inr h \<Rightarrow>
               if valid_userinfo (take i a) \<and> escapes_ok (take i a) then Inr h
               else Inl (Msg ''net/url: invalid userinfo'')))"

text \<open>The text from a byte on, empty without it (\<open>strings.Cut\<close>'s second half keeps the byte off).\<close>

definition from_byte :: "string \<Rightarrow> char \<Rightarrow> string" where
  "from_byte s c = dropWhile (\<lambda>x. x \<noteq> c) s"

definition url_parse_main :: "string \<Rightarrow> parsed_url res" where
  "url_parse_main raw =
     (if has_ctl_byte raw then Inl (Msg ''net/url: invalid control character in URL'')
      else if raw = ''*'' then Inr \<lparr>pu_scheme = [], pu_opaque = [], pu_host = []\<rparr>
      else (case get_scheme raw of
         Inl e \<Rightarrow> Inl e
       | Inr (scheme0, rest0) \<Rightarrow>
           (let scheme = to_lower scheme0; rest = cut_at rest0 (CHR ''?'') in
            if \<not> has_prefix rest ''/'' \<and> scheme \<noteq> [] then
              Inr \<lparr>pu_scheme = scheme, pu_opaque = rest, pu_host = []\<rparr>
            else if \<not> has_prefix rest ''/'' \<and> CHR '':'' \<in> set (cut_at rest (CHR ''/'')) then
              Inl (Msg ''first path segment in URL cannot contain colon'')
            else if (scheme \<noteq> [] \<or> \<not> has_prefix rest ''///'') \<and> has_prefix rest ''//'' then
              (case parse_authority (cut_at (drop 2 rest) (CHR ''/'')) of
                 Inl e \<Rightarrow> Inl e
               | Inr h \<Rightarrow>
                   if escapes_ok (from_byte (drop 2 rest) (CHR ''/''))
                   then Inr \<lparr>pu_scheme = scheme, pu_opaque = [], pu_host = h\<rparr>
                   else Inl (Msg ''invalid URL escape''))
            else if escapes_ok rest then Inr \<lparr>pu_scheme = scheme, pu_opaque = [], pu_host = []\<rparr>
            else Inl (Msg ''invalid URL escape''))))"

definition url_parse :: "string \<Rightarrow> parsed_url res" where
  "url_parse raw =
     (case url_parse_main (cut_at raw (CHR ''#'')) of
        Inl e \<Rightarrow> Inl (wrapf ''parse: '' e)
      | Inr u \<Rightarrow>
          if escapes_ok (from_byte raw (CHR ''#'')) then Inr u
          else Inl (wrapf ''parse: '' (Msg ''invalid URL escape'')))"

text \<open>\<open>Hostname\<close>: the host without a port and without the brackets of an IPv6 literal.\<close>

definition hostname :: "parsed_url \<Rightarrow> string" where
  "hostname u =
     (let h = pu_host u;
          h1 = (case last_index_byte h (CHR '':'') of
                  None \<Rightarrow> h
                | Some i \<Rightarrow> if valid_optional_port (drop i h) then take i h else h)
      in if has_prefix h1 ''['' \<and> h1 \<noteq> [] \<and> last h1 = CHR '']''
         then butlast (drop 1 h1) else h1)"

section \<open>URLs with a plain host\<close>

text \<open>A host name or IPv4 address: letters, digits, hyphen and dot.\<close>

definition plain_host :: "string \<Rightarrow> bool" where
  "plain_host h \<longleftrightarrow> h \<noteq> [] \<and> list_all (\<lambda>c. is_alpha c \<or> is_digit c \<or> c = CHR ''-'' \<or> c = CHR ''.'') h"

lemma plain_host_bytes:
  "plain_host h \<Longrightarrow> c \<in> set h \<Longrightarrow> host_byte_ok c \<and> 32 \<le> ord c \<and> ord c \<noteq> 127"
  by (auto simp: plain_host_def list_all_iff host_byte_ok_def is_alpha_def is_digit_def is_upper_def)

lemma plain_host_notin:
  assumes "plain_host h"
  shows "CHR ''%'' \<notin> set h" "CHR '':'' \<notin> set h" "CHR ''@'' \<notin> set h" "CHR ''/'' \<notin> set h"
    "CHR ''?'' \<notin> set h" "CHR ''#'' \<notin> set h" "CHR ''['' \<notin> set h" "CHR '']'' \<notin> set h"
  using assms by (auto simp: plain_host_def list_all_iff is_alpha_def is_digit_def is_upper_def)

lemma unescape_plain: "\<forall>c \<in> set h. host_byte_ok c \<and> c \<noteq> CHR ''%'' \<Longrightarrow> unescape_host h = Some h"
  by (induction h) auto

lemma last_index_byte_None: "c \<notin> set s \<Longrightarrow> last_index_byte s c = None"
  by (simp add: last_index_byte_def index_byte_None_iff)

lemma index_byte_append: "c \<notin> set s \<Longrightarrow> index_byte (s @ c # t) c = Some (length s)"
  by (induction s) auto

lemma last_index_byte_append: "c \<notin> set t \<Longrightarrow> last_index_byte (s @ c # t) c = Some (length s)"
  by (simp add: last_index_byte_def index_byte_append)

lemma has_prefix_hd: "has_prefix s [c] \<longleftrightarrow> s \<noteq> [] \<and> hd s = c"
  by (cases s) (auto simp: has_prefix_def)

lemma parse_host_plain:
  assumes "plain_host h"
  shows "parse_host h = Inr h"
proof -
  note n = plain_host_notin[OF assms]
  have "\<not> has_prefix h ''[''" using n(7) by (auto simp: has_prefix_hd dest: hd_in_set)
  moreover have "unescape_host h = Some h"
    using n(1) plain_host_bytes[OF assms] by (intro unescape_plain) auto
  ultimately show ?thesis by (simp add: parse_host_def last_index_byte_None[OF n(2)])
qed

lemma hostname_plain:
  assumes "plain_host (pu_host u)"
  shows "hostname u = pu_host u"
proof -
  note n = plain_host_notin[OF assms]
  have "\<not> has_prefix (pu_host u) ''[''" using n(7) by (auto simp: has_prefix_hd dest: hd_in_set)
  then show ?thesis by (simp add: hostname_def last_index_byte_None[OF n(2)])
qed

text \<open>An \<open>https\<close> URL with a plain host parses, and its host name is that host.\<close>

lemma url_parse_https:
  assumes h: "plain_host h"
    and p: "\<forall>c \<in> set p. is_alpha c \<or> is_digit c \<or> c = CHR ''/'' \<or> c = CHR ''-'' \<or> c = CHR ''.''"
  shows "url_parse (''https://'' @ h @ CHR ''/'' # p) = Inr \<lparr>pu_scheme = ''https'', pu_opaque = [], pu_host = h\<rparr>"
proof -
  have pn: "CHR ''%'' \<notin> set p" "CHR ''?'' \<notin> set p" "CHR ''#'' \<notin> set p"
    using p by (auto simp: is_alpha_def is_digit_def is_upper_def)
  have pc: "c \<in> set p \<Longrightarrow> 32 \<le> ord c \<and> ord c \<noteq> 127" for c
    using p by (auto simp: is_alpha_def is_digit_def is_upper_def)
  note hc = plain_host_bytes[OF h] and hn = plain_host_notin[OF h]
  let ?raw = "''https://'' @ h @ CHR ''/'' # p"
  have hash: "CHR ''#'' \<notin> set ?raw" using hn pn by simp
  then have nofrag: "cut_at ?raw (CHR ''#'') = ?raw" by (rule cut_at_id)
  have nofrag2: "from_byte ?raw (CHR ''#'') = []"
    unfolding from_byte_def dropWhile_eq_Nil_conv using hash by blast
  have noctl: "\<not> has_ctl_byte ?raw" using hc pc by (fastforce simp: has_ctl_byte_def)
  have scheme: "get_scheme ?raw = Inr (''https'', ''//'' @ h @ CHR ''/'' # p)"
    by (simp add: get_scheme_def is_alpha_def is_digit_def is_upper_def)
  have "CHR ''?'' \<notin> set (''//'' @ h @ CHR ''/'' # p)" using hn pn by simp
  then have noq: "cut_at (''//'' @ h @ CHR ''/'' # p) (CHR ''?'') = ''//'' @ h @ CHR ''/'' # p"
    by (rule cut_at_id)
  have auth: "cut_at (h @ CHR ''/'' # p) (CHR ''/'') = h" using hn by (intro cut_at_append)
  have rest: "from_byte (h @ CHR ''/'' # p) (CHR ''/'') = CHR ''/'' # p"
    unfolding from_byte_def using hn(4) by (subst dropWhile_append2) auto
  have "escapes_ok s" if "CHR ''%'' \<notin> set s" for s using that by (induction s) auto
  then have esc: "escapes_ok (CHR ''/'' # p)" using pn by simp
  have lower: "to_lower ''https'' = ''https''" by (simp add: to_lower_id_iff is_upper_def)
  have "parse_authority h = Inr h"
    using parse_host_plain[OF h] by (simp add: parse_authority_def last_index_byte_None[OF hn(3)])
  then have "url_parse_main ?raw = Inr \<lparr>pu_scheme = ''https'', pu_opaque = [], pu_host = h\<rparr>"
    using noctl scheme noq auth rest esc lower
    by (simp add: url_parse_main_def Let_def has_prefix_def)
  with nofrag nofrag2 show ?thesis by (simp add: url_parse_def)
qed

end
