(* ===== verification/Verify.thy ===== *)
theory Verify
  imports Host GoUrl
begin

text \<open>
  \<open>agent/internal/verify\<close>: the single-flight guard, digest and fingerprint checks, the verified
  download and the Authenticode check. SHA-256 and the Windows trust calls are not under \<open>src/\<close>;
  they are arguments.
\<close>

section \<open>Single flight\<close>

text \<open>\<open>SingleFlight\<close>: its state is \<open>inFlight\<close>; each operation holds the mutex throughout.\<close>

definition try_begin :: "bool \<Rightarrow> bool \<times> bool" where
  "try_begin in_flight = (if in_flight then (False, in_flight) else (True, True))"

definition end_flight :: "bool \<Rightarrow> bool" where
  "end_flight in_flight = False"

text \<open>
  The contract of a guard, and what it gives an operation bracketed by \<open>try_begin\<close> and a deferred
  \<open>end_flight\<close>: a guard held by one operation refuses every other and is free again after it.
\<close>

locale single_flight =
  fixes acquire :: "'g \<Rightarrow> bool \<times> 'g"
    and release :: "'g \<Rightarrow> 'g"
    and held :: "'g \<Rightarrow> bool"
  assumes acquire_free: "\<not> held g \<Longrightarrow> fst (acquire g) \<and> held (snd (acquire g))"
    and acquire_held: "held g \<Longrightarrow> \<not> fst (acquire g) \<and> snd (acquire g) = g"
    and release_frees: "\<not> held (release g)"
begin

definition bracket :: "('w \<Rightarrow> goerr option \<times> 'w) \<Rightarrow> goerr \<Rightarrow> 'g \<times> 'w \<Rightarrow> goerr option \<times> 'g \<times> 'w" where
  "bracket body busy gw =
     (case acquire (fst gw) of
        (False, g1) \<Rightarrow> (Some busy, g1, snd gw)
      | (True, g1) \<Rightarrow> (case body (snd gw) of (r, w1) \<Rightarrow> (r, release g1, w1)))"

lemma bracket_held: "held g \<Longrightarrow> bracket body busy (g, w) = (Some busy, g, w)"
  using acquire_held[of g] by (cases "acquire g") (simp add: bracket_def)

lemma bracket_free:
  "\<not> held g \<Longrightarrow> \<exists>g'. bracket body busy (g, w) = (fst (body w), g', snd (body w)) \<and> \<not> held g'"
  using acquire_free[of g] release_frees
  by (cases "acquire g"; cases "body w") (auto simp: bracket_def)

text \<open>At most one holder: after any interleaving of acquires and releases, in two goroutines.\<close>

primrec holders :: "bool list \<Rightarrow> 'g \<Rightarrow> nat \<Rightarrow> nat list" where
  "holders [] g n = [n]"
| "holders (a # as) g n =
     n # (if a then (case acquire g of (got, g1) \<Rightarrow> holders as g1 (if got then Suc n else n))
          else if n = 0 then holders as g n
          else holders as (release g) (n - 1))"

lemma at_most_one_holder:
  "n \<le> 1 \<Longrightarrow> held g = (n = 1) \<Longrightarrow> m \<in> set (holders ops g n) \<Longrightarrow> m \<le> 1"
proof (induction ops arbitrary: g n)
  case (Cons a as)
  obtain got g1 where acq: "acquire g = (got, g1)" by force
  show ?case
  proof (cases "m = n")
    case False
    then have "m \<in> set (if a then holders as g1 (if got then Suc n else n)
        else if n = 0 then holders as g n else holders as (release g) (n - 1))"
      using Cons.prems(3) acq False by (simp cong: if_cong)
    then show ?thesis
      using Cons.IH[of "if got then Suc n else n" g1] Cons.IH[of n g] Cons.IH[of "n - 1" "release g"]
        Cons.prems(1,2) acquire_free[of g] acquire_held[of g] release_frees[of g] acq
      by (cases "n = 0") (auto split: if_splits)
  qed (use Cons.prems in simp)
qed simp

end

interpretation sf: single_flight try_begin end_flight "\<lambda>g. g"
  by unfold_locales (simp_all add: try_begin_def end_flight_def)

section \<open>Digests\<close>

definition valid_lower_hex256 :: "string \<Rightarrow> bool" where
  "valid_lower_hex256 v \<longleftrightarrow>
     (if length v \<noteq> 64 \<or> to_lower v \<noteq> v then False else hex_decode v \<noteq> None)"

text \<open>
  \<open>ValidLowerHex256\<close> accepts exactly the strings of 64 characters from \<open>0-9a-f\<close>, although the
  code tests it by lower-casing and decoding.
\<close>

theorem valid_lower_hex256_iff:
  "valid_lower_hex256 v \<longleftrightarrow> length v = 64 \<and> list_all is_lower_hex v"
  unfolding valid_lower_hex256_def list_all_iff
  using hex_decode_total[of v] hex_decode_digits[of v] is_lower_hex_iff to_lower_id_iff[of v]
  by (auto simp: list_all_iff)

definition verify_signer_certificate_der ::
  "(string \<Rightarrow> string) \<Rightarrow> string \<Rightarrow> string \<Rightarrow> goerr option" where
  "verify_signer_certificate_der sha256 der fp =
     (if der = [] then Some (Msg ''signer certificate is missing'')
      else (case hex_decode fp of
          None \<Rightarrow> Some (Msg ''expected signer fingerprint must be 64 lowercase hexadecimal characters'')
        | Some expected \<Rightarrow>
            if length expected \<noteq> 32 \<or> to_lower fp \<noteq> fp
            then Some (Msg ''expected signer fingerprint must be 64 lowercase hexadecimal characters'')
            else if sha256 der = expected then None
            else Some (Msg (''signer fingerprint mismatch: got '' @ hex_encode (sha256 der)))))"

lemma hex_decode_canonical: "hex_decode s = Some bs \<Longrightarrow> to_lower s = s \<Longrightarrow> hex_encode bs = s"
  using hex_encode_decode[of s bs] hex_decode_digits[of s bs] by (auto simp: is_lower_hex_iff to_lower_id_iff)

lemma to_lower_hex_encode: "to_lower (hex_encode bs) = hex_encode bs"
  using hex_encode_lower by (auto simp: is_lower_hex_iff to_lower_id_iff)

lemma signer_pin:
  "\<forall>s. length (sha256 s) = 32 \<Longrightarrow>
     verify_signer_certificate_der sha256 der fp = None \<longleftrightarrow> der \<noteq> [] \<and> fp = hex_encode (sha256 der)"
  by (auto simp: verify_signer_certificate_der_def to_lower_hex_encode hex_decode_canonical
      split: option.splits)

text \<open>
  The signer pin: \<open>VerifySignerCertificateDER\<close> passes exactly when there is a certificate and
  the expected fingerprint is the lowercase hex of its SHA-256. Upper-case, truncated or padded
  fingerprints never match. (Assumed of SHA-256: digests have 32 bytes.)
\<close>

theorem signer_pin_iff:
  assumes "\<forall>s. length (sha256 s) = 32"
  shows "verify_signer_certificate_der sha256 der fp = None \<longleftrightarrow> der \<noteq> [] \<and> fp = hex_encode (sha256 der)"
  using assms
  by (auto simp: verify_signer_certificate_der_def to_lower_hex_encode hex_decode_canonical
      split: option.splits)


definition toy_sha :: "string \<Rightarrow> string" where
  "toy_sha s = take 32 (s @ replicate 32 (CHR 0x00))"

lemma length_toy_sha [simp]: "length (toy_sha s) = 32"
  by (simp add: toy_sha_def)

theorem signer_pin_iff_witness:
  "verify_signer_certificate_der toy_sha ''der'' (hex_encode (toy_sha ''der'')) = None"
  using signer_pin_iff[of toy_sha "''der''" "hex_encode (toy_sha ''der'')"] by simp

section \<open>Authenticode\<close>

text \<open>
  The Windows calls behind \<open>verifyAuthenticode\<close>, as the code sees them: the UTF-16 conversion of
  the path fails exactly on a NUL byte; \<open>WinVerifyTrustEx\<close> with the VERIFY action; and the four
  calls that lead to the signer's certificate. \<open>CryptMsgGetParam\<close> is called twice, for a size and
  for that many bytes; Go panics when the code takes the address of element 0 of an empty buffer.
\<close>

record trust_calls =
  tc_verify :: "path \<Rightarrow> goerr option"
  tc_query_object :: "path \<Rightarrow> goerr option"
  tc_param_size :: "path \<Rightarrow> nat res"
  tc_param :: "path \<Rightarrow> string res"
  tc_find_cert :: "path \<Rightarrow> string \<Rightarrow> string res"

datatype trust_op =
    WinVerify
  | WinClose
  | QueryObject
  | CloseMsg
  | CloseStore
  | FindCert
  | FreeCert

datatype 'a outcome = Returns 'a | Panics string

text \<open>\<open>verifyTrust\<close>: the provider state the VERIFY call allocated is closed whatever it answered.\<close>

definition verify_trust :: "trust_calls \<Rightarrow> path \<Rightarrow> goerr option \<times> trust_op list" where
  "verify_trust tc p = (tc_verify tc p, [WinVerify, WinClose])"

definition crypt_msg_signer_cert_info :: "trust_calls \<Rightarrow> path \<Rightarrow> string res outcome" where
  "crypt_msg_signer_cert_info tc p =
     (case tc_param_size tc p of
        Inl e \<Rightarrow> Returns (Inl (wrapf ''cryptmsggetparam(size): '' e))
      | Inr n \<Rightarrow>
          if n = 0 then Panics ''index out of range [0] with length 0''
          else (case tc_param tc p of
              Inl e \<Rightarrow> Returns (Inl (wrapf ''cryptmsggetparam: '' e))
            | Inr buf \<Rightarrow> Returns (Inr (take n (buf @ replicate n (CHR 0x00))))))"

text \<open>\<open>signerCertificateDER\<close> with its deferred releases, run on return and on a panic alike.\<close>

definition signer_certificate_der :: "trust_calls \<Rightarrow> path \<Rightarrow> string res outcome \<times> trust_op list" where
  "signer_certificate_der tc p =
     (case tc_query_object tc p of
        Some e \<Rightarrow> (Returns (Inl (wrapf ''cryptqueryobject: '' e)), [])
      | None \<Rightarrow>
          (case crypt_msg_signer_cert_info tc p of
             Panics m \<Rightarrow> (Panics m, [QueryObject, CloseMsg, CloseStore])
           | Returns (Inl e) \<Rightarrow> (Returns (Inl e), [QueryObject, CloseMsg, CloseStore])
           | Returns (Inr info) \<Rightarrow>
               (case tc_find_cert tc p info of
                  Inl e \<Rightarrow> (Returns (Inl (wrapf ''certfindcertificateinstore: '' e)),
                            [QueryObject, CloseMsg, CloseStore])
                | Inr der \<Rightarrow> (Returns (Inr der),
                              [QueryObject, FindCert, FreeCert, CloseMsg, CloseStore]))))"

definition verify_authenticode_ops ::
  "(string \<Rightarrow> string) \<Rightarrow> trust_calls \<Rightarrow> path \<Rightarrow> string \<Rightarrow> bool \<Rightarrow> goerr option outcome \<times> trust_op list" where
  "verify_authenticode_ops sha256 tc p fp allow_untrusted_root =
     (if CHR 0x00 \<in> set p
      then (Returns (Some (wrapf ''authenticode: encode path: '' (Msg ''invalid argument''))), [])
      else (case verify_trust tc p of
          (trust_err, ops) \<Rightarrow>
            (case trust_err of
               Some e \<Rightarrow>
                 if \<not> (allow_untrusted_root \<and> errors_is e CertEUntrustedRoot)
                 then (Returns (Some (wrapf ''authenticode: signature status invalid: '' e)), ops)
                 else (case signer_certificate_der tc p of
                     (Panics m, ops2) \<Rightarrow> (Panics m, ops @ ops2)
                   | (Returns (Inl e2), ops2) \<Rightarrow>
                       (Returns (Some (wrapf ''authenticode: extract signer certificate: '' e2)), ops @ ops2)
                   | (Returns (Inr der), ops2) \<Rightarrow>
                       (Returns (verify_signer_certificate_der sha256 der fp), ops @ ops2))
             | None \<Rightarrow>
                 (case signer_certificate_der tc p of
                     (Panics m, ops2) \<Rightarrow> (Panics m, ops @ ops2)
                   | (Returns (Inl e2), ops2) \<Rightarrow>
                       (Returns (Some (wrapf ''authenticode: extract signer certificate: '' e2)), ops @ ops2)
                   | (Returns (Inr der), ops2) \<Rightarrow>
                       (Returns (verify_signer_certificate_der sha256 der fp), ops @ ops2)))))"

text \<open>\<open>VerifyAuthenticode\<close> and \<open>VerifyAuthenticodeAllowUntrustedRoot\<close>.\<close>

definition verify_authenticode ::
  "(string \<Rightarrow> string) \<Rightarrow> trust_calls \<Rightarrow> path \<Rightarrow> string \<Rightarrow> goerr option outcome" where
  "verify_authenticode sha256 tc p fp = fst (verify_authenticode_ops sha256 tc p fp False)"

definition verify_authenticode_allow_untrusted_root ::
  "(string \<Rightarrow> string) \<Rightarrow> trust_calls \<Rightarrow> path \<Rightarrow> string \<Rightarrow> goerr option outcome" where
  "verify_authenticode_allow_untrusted_root sha256 tc p fp = fst (verify_authenticode_ops sha256 tc p fp True)"

lemma signer_certificate_der_found:
  "signer_certificate_der tc p = (Returns (Inr der), ops) \<Longrightarrow>
     \<exists>info. tc_query_object tc p = None \<and> tc_find_cert tc p info = Inr der"
  by (auto simp: signer_certificate_der_def split: option.splits outcome.splits sum.splits)

text \<open>
  C19. The Authenticode gate: whichever of the two entry points is used, a file passes only if the
  trust provider accepts its signature, or, in the bootstrap variant alone, rejects it for the one
  reason of an untrusted root, and in either case only if the certificate that signed it hashes to
  the pinned fingerprint. The two variants differ on no other file.
\<close>

theorem authenticode_gate:
  assumes "\<forall>s. length (sha256 s) = 32"
    and "verify_authenticode_ops sha256 tc p fp allow = (Returns None, ops)"
  shows "(tc_verify tc p = None \<or>
      (allow \<and> (\<exists>e. tc_verify tc p = Some e \<and> errors_is e CertEUntrustedRoot))) \<and>
    (\<exists>info der. tc_find_cert tc p info = Inr der \<and> der \<noteq> [] \<and> fp = hex_encode (sha256 der)) \<and>
    (tc_verify tc p = None \<longrightarrow>
       verify_authenticode sha256 tc p fp = Returns None \<and>
       verify_authenticode_allow_untrusted_root sha256 tc p fp = Returns None)"
proof -
  obtain der ops2 where der: "signer_certificate_der tc p = (Returns (Inr der), ops2)"
      and ok: "verify_signer_certificate_der sha256 der fp = None" and nul: "CHR 0x00 \<notin> set p"
      and trust: "tc_verify tc p = None \<or>
        (allow \<and> (\<exists>e. tc_verify tc p = Some e \<and> errors_is e CertEUntrustedRoot))"
    using assms(2)
    by (auto simp: verify_authenticode_ops_def verify_trust_def
        split: if_splits option.splits prod.splits outcome.splits sum.splits)
  obtain info where "tc_find_cert tc p info = Inr der" using signer_certificate_der_found[OF der] by blast
  moreover have "der \<noteq> [] \<and> fp = hex_encode (sha256 der)" using ok signer_pin[OF assms(1)] by blast
  ultimately show ?thesis
    using trust der ok nul
    by (auto simp: verify_authenticode_def verify_authenticode_allow_untrusted_root_def
        verify_authenticode_ops_def verify_trust_def)
qed

lemma verify_authenticode_pin:
  assumes "\<forall>s. length (sha256 s) = 32" "verify_authenticode sha256 tc p fp = Returns None"
  shows "\<exists>info der. tc_find_cert tc p info = Inr der \<and> fp = hex_encode (sha256 der)"
proof -
  obtain der ops2 where "signer_certificate_der tc p = (Returns (Inr der), ops2)"
      "verify_signer_certificate_der sha256 der fp = None"
    using assms(2)
    by (auto simp: verify_authenticode_def verify_authenticode_ops_def verify_trust_def
        split: if_splits option.splits prod.splits outcome.splits sum.splits)
  then show ?thesis using signer_certificate_der_found signer_pin[OF assms(1)] by blast
qed

definition sample_trust :: "goerr option \<Rightarrow> trust_calls" where
  "sample_trust v =
     \<lparr>tc_verify = (\<lambda>p. v), tc_query_object = (\<lambda>p. None), tc_param_size = (\<lambda>p. Inr 3),
      tc_param = (\<lambda>p. Inr ''abc''), tc_find_cert = (\<lambda>p info. Inr ''der'')\<rparr>"

theorem authenticode_gate_witness:
  "verify_authenticode_ops toy_sha (sample_trust (Some (Sentinel CertEUntrustedRoot))) ''f.exe''
       (hex_encode (toy_sha ''der'')) True =
     (Returns None, [WinVerify, WinClose, QueryObject, FindCert, FreeCert, CloseMsg, CloseStore]) \<and>
   (\<exists>info der. tc_find_cert (sample_trust (Some (Sentinel CertEUntrustedRoot))) ''f.exe'' info = Inr der \<and> der \<noteq> [])"
proof -
  have run: "verify_authenticode_ops toy_sha (sample_trust (Some (Sentinel CertEUntrustedRoot))) ''f.exe''
       (hex_encode (toy_sha ''der'')) True =
     (Returns None, [WinVerify, WinClose, QueryObject, FindCert, FreeCert, CloseMsg, CloseStore])"
    by (simp add: verify_authenticode_ops_def verify_trust_def sample_trust_def signer_certificate_der_def
        crypt_msg_signer_cert_info_def signer_pin)
  with authenticode_gate[OF _ run] show ?thesis by auto
qed

text \<open>
  No trust state or handle leaks: in every run of the check, panicking ones included, the
  provider state opened by VERIFY is closed, every certificate store and message handle that was
  opened is closed, and every certificate context found is freed.
\<close>

theorem authenticode_releases:
  "let ops = snd (verify_authenticode_ops sha256 tc p fp allow) in
     count_list ops WinVerify = count_list ops WinClose \<and>
     count_list ops QueryObject = count_list ops CloseMsg \<and>
     count_list ops QueryObject = count_list ops CloseStore \<and>
     count_list ops FindCert = count_list ops FreeCert"
  by (auto simp: verify_authenticode_ops_def verify_trust_def signer_certificate_der_def Let_def
      split: option.splits outcome.splits sum.splits prod.splits if_splits)

section \<open>Verified download\<close>

record download_params =
  dp_url :: string
  dp_sha256 :: string
  dp_dir :: path
  dp_pattern :: string
  dp_max_bytes :: nat

definition verify_sha256 :: "hostenv \<Rightarrow> path \<Rightarrow> string \<Rightarrow> 'a world_scheme \<Rightarrow> goerr option \<times> 'a world_scheme" where
  "verify_sha256 env p want w =
     (case os_read_file env p w of
        (Inl e, w1) \<Rightarrow> (Some e, w1)
      | (Inr c, w1) \<Rightarrow>
          (if hex_encode (he_sha256 env c) \<noteq> want
           then Some (Msg (''sha256 mismatch: got '' @ hex_encode (he_sha256 env c) @ '' want '' @ want))
           else None, w1))"

text \<open>The exchange: \<open>NewRequestWithContext\<close> parses the URL, then \<open>Client.Do\<close>.\<close>

definition http_get :: "hostenv \<Rightarrow> string \<Rightarrow> 'a world_scheme \<Rightarrow> http_response res \<times> 'a world_scheme" where
  "http_get env u w =
     (case url_parse u of
        Inl e \<Rightarrow> (Inl e, w)
      | Inr _ \<Rightarrow> (he_http env (w_tick w) u, tick w))"

text \<open>The failure path shared by every later check: remove the staged file, return the error.\<close>

definition discard :: "hostenv \<Rightarrow> path \<Rightarrow> goerr \<Rightarrow> 'a world_scheme \<Rightarrow> 'b res \<times> 'a world_scheme" where
  "discard env p e w = (Inl e, snd (os_remove env p w))"

definition download_verified ::
  "hostenv \<Rightarrow> download_params \<Rightarrow> 'a world_scheme \<Rightarrow> path res \<times> 'a world_scheme" where
  "download_verified env dp w =
     (case http_get env (dp_url dp) w of
        (Inl e, w1) \<Rightarrow> (Inl (wrapf ''download: '' e), w1)
      | (Inr resp, w1) \<Rightarrow>
          if http_status resp \<noteq> 200
          then (Inl (Msg (''download: status '' @ show_int (http_status resp))), w1)
          else (case os_create_temp env (dp_dir dp) (dp_pattern dp) w1 of
              (Inl e, w2) \<Rightarrow> (Inl (wrapf ''download: '' e), w2)
            | (Inr p, w2) \<Rightarrow>
                (let limited = take (Suc (dp_max_bytes dp)) (http_body resp);
                     src_err = (if Suc (dp_max_bytes dp) \<le> length (http_body resp) then None
                                else http_body_error resp)
                 in (case io_copy_to env p limited src_err w2 of
                    ((n, copy_err), w3) \<Rightarrow>
                      (case os_close env w3 of
                         (close_err, w4) \<Rightarrow>
                           (case copy_err of
                              Some e \<Rightarrow> discard env p (wrapf ''download: '' e) w4
                            | None \<Rightarrow>
                                (case close_err of
                                   Some e \<Rightarrow> discard env p (wrapf ''download: '' e) w4
                                 | None \<Rightarrow>
                                     if dp_max_bytes dp < n
                                     then discard env p
                                       (Msg (''download exceeded '' @ show_nat (dp_max_bytes dp) @ '' bytes'')) w4
                                     else (case verify_sha256 env p (dp_sha256 dp) w4 of
                                         (Some e, w5) \<Rightarrow> discard env p e w5
                                       | (None, w5) \<Rightarrow> (Inr p, w5)))))))))"

text \<open>
  After the staged file \<open>p\<close> exists, a failing run leaves at most that file behind, and only when
  removing it failed too.
\<close>

definition cleaned_up :: "hostenv \<Rightarrow> path \<Rightarrow> 'a world_scheme \<Rightarrow> 'a world_scheme \<Rightarrow> bool" where
  "cleaned_up env p w w' \<longleftrightarrow>
     (\<forall>q. q \<noteq> p \<longrightarrow> w_fs w' q = w_fs w q) \<and>
     (w_fs w' p = None \<or> he_fault env (w_tick w' - 1) \<noteq> None)"

lemma discard_cleaned:
  assumes "discard env p e w1 = (r, w')" "\<And>q. q \<noteq> p \<Longrightarrow> w_fs w1 q = w_fs w q"
  shows "r = Inl e \<and> cleaned_up env p w w'"
proof -
  obtain r' where rm: "os_remove env p w1 = (r', w')" and r: "r = Inl e"
    using assms(1) by (cases "os_remove env p w1") (auto simp: discard_def)
  show ?thesis
    using os_remove_frame[OF rm] os_remove_cases[OF rm] os_remove_tick[OF rm] assms(2) r
    by (auto simp: cleaned_up_def)
qed

definition download_ok :: "hostenv \<Rightarrow> download_params \<Rightarrow> string \<Rightarrow> bool" where
  "download_ok env dp c \<longleftrightarrow>
     hex_encode (he_sha256 env c) = dp_sha256 dp \<and> length c \<le> dp_max_bytes dp \<and>
     (\<exists>n resp. he_http env n (dp_url dp) = Inr resp \<and> http_status resp = 200 \<and>
        http_body_error resp = None \<and> http_body resp = c)"

lemma http_get_frame:
  "http_get env u w = (r, w') \<Longrightarrow> w_fs w' = w_fs w \<and> w_log w' = w_log w"
  by (auto simp: http_get_def split: sum.splits)

lemma http_get_Inr: "http_get env u w = (Inr resp, w') \<Longrightarrow> \<exists>n. he_http env n u = Inr resp"
  by (auto simp: http_get_def split: sum.splits)

lemma os_create_temp_Inl: "os_create_temp env d t w = (Inl e, w') \<Longrightarrow> w_fs w' = w_fs w"
  by (auto simp: os_create_temp_def Let_def split: option.splits if_splits)

lemma os_create_temp_Inr:
  "os_create_temp env d t w = (Inr p, w') \<Longrightarrow> w_fs w p = None \<and> w_fs w' = (w_fs w)(p \<mapsto> File [])"
  by (auto simp: os_create_temp_def Let_def split: option.splits if_splits)

lemma io_copy_to_frame:
  "io_copy_to env p c se w = (x, w') \<Longrightarrow> q \<noteq> p \<Longrightarrow> w_fs w' q = w_fs w q"
  by (auto simp: io_copy_to_def split: option.splits)

lemma io_copy_to_None:
  "io_copy_to env p c se w = ((n, None), w') \<Longrightarrow>
     n = length c \<and> se = None \<and> w_fs w' = (w_fs w)(p \<mapsto> File c)"
  by (auto simp: io_copy_to_def split: option.splits)

lemma os_close_frame: "os_close env w = (r, w') \<Longrightarrow> w' = tick w"
  by (auto simp: os_close_def)

lemma verify_sha256_frame: "verify_sha256 env p want w = (r, w') \<Longrightarrow> w' = tick w"
  by (auto simp: verify_sha256_def split: prod.splits sum.splits dest: os_read_file_frame)

lemma verify_sha256_None:
  "verify_sha256 env p want w = (None, w') \<Longrightarrow>
     \<exists>c. w_fs w p = Some (File c) \<and> hex_encode (he_sha256 env c) = want"
  by (auto simp: verify_sha256_def split: prod.splits sum.splits if_splits dest: os_read_file_Inr)

lemma download_verified_cases:
  assumes "download_verified env dp w = (r, w')"
  obtains (early) e where "r = Inl e" "w_fs w' = w_fs w"
  | (late) p e where "r = Inl e" "w_fs w p = None" "cleaned_up env p w w'"
  | (staged) p c where "r = Inr p" "w_fs w p = None" "w_fs w' = (w_fs w)(p \<mapsto> File c)" "download_ok env dp c"
proof -
  obtain x w1 where get: "http_get env (dp_url dp) w = (x, w1)" by force
  note fs1 = http_get_frame[OF get]
  show thesis
  proof (cases x)
    case (Inl e)
    then show thesis using assms get fs1 by (intro early[of "wrapf ''download: '' e"]) (auto simp: download_verified_def)
  next
    case (Inr resp)
    show thesis
    proof (cases "http_status resp = 200")
      case False
      then show thesis using assms get fs1 Inr
        by (intro early[of "Msg (''download: status '' @ show_int (http_status resp))"])
           (auto simp: download_verified_def)
    next
      case True
      obtain y w2 where tmp: "os_create_temp env (dp_dir dp) (dp_pattern dp) w1 = (y, w2)" by force
      show thesis
      proof (cases y)
        case (Inl e)
        then show thesis using assms get fs1 Inr True tmp os_create_temp_Inl[of env _ _ w1 e w2]
          by (intro early[of "wrapf ''download: '' e"]) (auto simp: download_verified_def)
      next
        case y: (Inr p)
        have p: "w_fs w p = None" "w_fs w2 = (w_fs w)(p \<mapsto> File [])"
          using os_create_temp_Inr[of env _ _ w1 p w2] tmp y fs1 by auto
        let ?lim = "take (Suc (dp_max_bytes dp)) (http_body resp)"
        let ?se = "if Suc (dp_max_bytes dp) \<le> length (http_body resp) then None else http_body_error resp"
        obtain n ce w3 where cp: "io_copy_to env p ?lim ?se w2 = ((n, ce), w3)" by (metis prod.exhaust)
        obtain cl w4 where cl: "os_close env w3 = (cl, w4)" by force
        obtain v w5 where v: "verify_sha256 env p (dp_sha256 dp) w4 = (v, w5)" by force
        have fs4: "q \<noteq> p \<Longrightarrow> w_fs w4 q = w_fs w q" for q
          using io_copy_to_frame[OF cp] os_close_frame[OF cl] p by simp
        have fs5: "q \<noteq> p \<Longrightarrow> w_fs w5 q = w_fs w q" for q
          using fs4 verify_sha256_frame[OF v] by simp
        have run: "(r, w') =
          (case ce of Some e \<Rightarrow> discard env p (wrapf ''download: '' e) w4
           | None \<Rightarrow> (case cl of Some e \<Rightarrow> discard env p (wrapf ''download: '' e) w4
             | None \<Rightarrow> if dp_max_bytes dp < n
                 then discard env p (Msg (''download exceeded '' @ show_nat (dp_max_bytes dp) @ '' bytes'')) w4
                 else (case v of Some e \<Rightarrow> discard env p e w5 | None \<Rightarrow> (Inr p, w5))))"
          using assms get Inr True tmp y cp cl v
          by (simp add: download_verified_def Let_def cong: if_cong option.case_cong)
        show thesis
        proof (cases "ce = None \<and> cl = None \<and> \<not> dp_max_bytes dp < n \<and> v = None")
          case True
          then have n: "n = length ?lim" "?se = None" "w_fs w3 = (w_fs w2)(p \<mapsto> File ?lim)"
            using io_copy_to_None[of env p ?lim ?se w2 n w3] cp by auto
          have short: "?lim = http_body resp" "http_body_error resp = None"
            using n True by (auto simp: min_def split: if_splits)
          obtain c where c: "w_fs w4 p = Some (File c)" "hex_encode (he_sha256 env c) = dp_sha256 dp"
            using verify_sha256_None v True by blast
          have body: "c = http_body resp" using c(1) n(3) os_close_frame[OF cl] short by simp
          moreover have "w_fs w5 = (w_fs w)(p \<mapsto> File c)"
            using n(3) os_close_frame[OF cl] verify_sha256_frame[OF v] p short body by simp
          moreover have "download_ok env dp c"
            using c(2) body short n(1) True http_get_Inr[of env "dp_url dp" w resp w1] get Inr
              \<open>http_status resp = 200\<close>
            by (auto simp: download_ok_def)
          ultimately show thesis using run True p by (intro staged[of p c]) auto
        next
          case False
          then obtain e w0 where "(r, w') = discard env p e w0" "w0 = w4 \<or> w0 = w5"
            using run by (auto split: option.splits if_splits)
          with discard_cleaned[of env p e w0 r w' w] fs4 fs5 p show thesis by (intro late[of e p]) auto
        qed
      qed
    qed
  qed
qed

text \<open>A source of files of known content, and the use its clients make of it.\<close>

locale downloader =
  fixes fetch :: "'w \<Rightarrow> path res \<times> 'w"
    and content :: "'w \<Rightarrow> path \<Rightarrow> node option"
    and good :: "string \<Rightarrow> bool"
  assumes fetched: "fetch w = (Inr p, w') \<Longrightarrow>
      content w p = None \<and> (\<exists>c. content w' p = Some (File c) \<and> good c)"
    and kept: "fetch w = (r, w') \<Longrightarrow> content w q \<noteq> None \<Longrightarrow> content w' q = content w q"
begin

definition fetch_then :: "(path \<Rightarrow> 'w \<Rightarrow> goerr option \<times> 'w) \<Rightarrow> 'w \<Rightarrow> goerr option \<times> 'w" where
  "fetch_then use w = (case fetch w of (Inl e, w1) \<Rightarrow> (Some e, w1) | (Inr p, w1) \<Rightarrow> use p w1)"

lemma fetch_then_sound:
  assumes "fetch_then use w = (None, w')"
  shows "\<exists>p c w1. fetch w = (Inr p, w1) \<and> content w p = None \<and> content w1 p = Some (File c) \<and> good c \<and>
    (\<forall>q. content w q \<noteq> None \<longrightarrow> content w1 q = content w q) \<and> use p w1 = (None, w')"
proof -
  obtain r w1 where f: "fetch w = (r, w1)" by force
  with assms obtain p where "r = Inr p" "use p w1 = (None, w')"
    by (cases r) (auto simp: fetch_then_def)
  with f fetched[of w p w1] kept[OF f] show ?thesis by blast
qed

end

interpretation dl: downloader "download_verified env dp" w_fs "download_ok env dp" for env dp
proof unfold_locales
  fix w p w'
  assume "download_verified env dp w = (Inr p, w')"
  then show "w_fs w p = None \<and> (\<exists>c. w_fs w' p = Some (File c) \<and> download_ok env dp c)"
    by (cases rule: download_verified_cases) auto
next
  fix w r w' q
  assume "download_verified env dp w = (r, w')" "w_fs w q \<noteq> None"
  then show "w_fs w' q = w_fs w q"
  proof (cases rule: download_verified_cases)
    case (late p e)
    then have "q \<noteq> p" using \<open>w_fs w q \<noteq> None\<close> by auto
    with late show ?thesis by (simp add: cleaned_up_def)
  qed auto
qed

text \<open>
  C13. \<open>DownloadVerified\<close> returns a fully verified file or nothing. On success the returned path did
  not exist before, its file is the complete body of a 200 response within the size cap, its SHA-256
  is the requested digest, and no other path changed. On an error no existing path changed, and
  whatever was staged has been removed unless the removal itself failed.
\<close>

theorem download_verified_contract:
  assumes "download_verified env dp w = (r, w')"
  shows "(\<forall>p. r = Inr p \<longrightarrow> w_fs w p = None \<and>
      (\<exists>c. w_fs w' = (w_fs w)(p \<mapsto> File c) \<and> hex_encode (he_sha256 env c) = dp_sha256 dp \<and>
           length c \<le> dp_max_bytes dp)) \<and>
    (\<forall>e. r = Inl e \<longrightarrow> w_fs w' = w_fs w \<or>
      (\<exists>p. w_fs w p = None \<and> (\<forall>q. q \<noteq> p \<longrightarrow> w_fs w' q = w_fs w q) \<and>
           he_fault env (w_tick w' - 1) \<noteq> None))"
  using assms
proof (cases rule: download_verified_cases)
  case (late p e)
  then have "w_fs w' = w_fs w \<or> he_fault env (w_tick w' - 1) \<noteq> None"
    by (metis (no_types, lifting) cleaned_up_def ext)
  with late show ?thesis by (auto simp: cleaned_up_def)
qed (auto simp: download_ok_def)

definition sample_net :: hostenv where
  "sample_net = quiet_env\<lparr>he_http := (\<lambda>n u. Inr \<lparr>http_status = 200, http_body = ''MZ'', http_body_error = None\<rparr>),
     he_sha256 := toy_sha\<rparr>"

definition sample_download :: download_params where
  "sample_download = \<lparr>dp_url = ''https://h/a'', dp_sha256 = hex_encode (toy_sha ''MZ''), dp_dir = ''D'',
     dp_pattern = ''u'', dp_max_bytes = 2\<rparr>"

definition empty_world :: world where
  "empty_world = \<lparr>w_fs = (\<lambda>p. None), w_tick = 0, w_log = []\<rparr>"

lemma sample_url: "url_parse ''https://h/a'' = Inr \<lparr>pu_scheme = ''https'', pu_opaque = [], pu_host = ''h''\<rparr>"
  by code_simp

lemma sample_download_runs:
  "download_verified sample_net sample_download empty_world =
     (Inr (''D'' @ [CHR 0x5C] @ ''u''),
      \<lparr>w_fs = (\<lambda>p. None)(''D'' @ [CHR 0x5C] @ ''u'' \<mapsto> File ''MZ''), w_tick = 5, w_log = []\<rparr>)"
  by (simp add: download_verified_def http_get_def sample_download_def sample_url sample_net_def quiet_env_def
      empty_world_def host_calls Let_def verify_sha256_def tick_def put_def toy_sha_def)

theorem download_verified_contract_witness:
  "\<exists>w'. download_verified sample_net sample_download empty_world = (Inr (''D'' @ [CHR 0x5C] @ ''u''), w') \<and>
     (\<exists>c. w_fs w' = (w_fs empty_world)(''D'' @ [CHR 0x5C] @ ''u'' \<mapsto> File c) \<and>
          hex_encode (toy_sha c) = hex_encode (toy_sha ''MZ'') \<and> length c \<le> 2)"
  using download_verified_contract[OF sample_download_runs] sample_download_runs
  by (auto simp: sample_download_def sample_net_def)

end
