(* ===== verification/GoJson.thy ===== *)
theory GoJson
  imports GoText
begin

text \<open>
  Go's \<open>encoding/json\<close> as far as the agent uses it: JSON values, the scanner that turns text
  into a value, the compact printer behind \<open>json.Marshal\<close>, and the rules by which an object
  is decoded into a struct (unknown keys ignored, keys compared without case, \<open>null\<close> keeps the
  field, a later duplicate overwrites an earlier one, a value of the wrong kind is an error).
  A number keeps its literal, as the decoder does until it knows the field's type. Text is taken to
  be valid UTF-8: bytes from 128 on pass through strings unchanged.
\<close>

datatype json =
    JNull
  | JBool bool
  | JNum string
  | JStr string
  | JArr "json list"
  | JObj "(string \<times> json) list"

section \<open>Scanning\<close>

definition is_ws :: "char \<Rightarrow> bool" where
  "is_ws c \<longleftrightarrow> ord c \<in> {32, 9, 10, 13}"

definition skip_ws :: "string \<Rightarrow> string" where
  "skip_ws s = dropWhile is_ws s"

abbreviation quote_byte :: char where "quote_byte \<equiv> CHR 0x22"
abbreviation backslash :: char where "backslash \<equiv> CHR 0x5C"

definition utf8 :: "nat \<Rightarrow> string" where
  "utf8 n =
     (if n < 128 then [chr n]
      else if n < 2048 then [chr (192 + n div 64), chr (128 + n mod 64)]
      else if n < 65536 then [chr (224 + n div 4096), chr (128 + n div 64 mod 64), chr (128 + n mod 64)]
      else [chr (240 + n div 262144), chr (128 + n div 4096 mod 64),
            chr (128 + n div 64 mod 64), chr (128 + n mod 64)])"

fun hex4 :: "string \<Rightarrow> (nat \<times> string) option" where
  "hex4 (a # b # c # d # s) =
     (case (from_hex_char a, from_hex_char b, from_hex_char c, from_hex_char d) of
        (Some w, Some x, Some y, Some z) \<Rightarrow> Some (4096 * w + 256 * x + 16 * y + z, s)
      | _ \<Rightarrow> None)"
| "hex4 _ = None"

definition is_high_surrogate :: "nat \<Rightarrow> bool" where
  "is_high_surrogate n \<longleftrightarrow> 55296 \<le> n \<and> n < 56320"

definition is_low_surrogate :: "nat \<Rightarrow> bool" where
  "is_low_surrogate n \<longleftrightarrow> 56320 \<le> n \<and> n < 57344"

text \<open>A second \<open>\u\<close> escape directly after the first, the low half of a surrogate pair.\<close>

definition low_half :: "string \<Rightarrow> (nat \<times> string) option" where
  "low_half s =
     (case s of
        x # y # t \<Rightarrow>
          if x = backslash \<and> y = CHR ''u''
          then (case hex4 t of
                  Some (n, u) \<Rightarrow> if is_low_surrogate n then Some (n, u) else None
                | None \<Rightarrow> None)
          else None
      | _ \<Rightarrow> None)"

text \<open>The text after \<open>\u\<close>: the bytes it stands for and what follows it.\<close>

definition unicode_escape :: "string \<Rightarrow> (string \<times> string) option" where
  "unicode_escape s =
     (case hex4 s of
        None \<Rightarrow> None
      | Some (n, t) \<Rightarrow>
          if is_high_surrogate n
          then (case low_half t of
                  Some (m, u) \<Rightarrow> Some (utf8 (65536 + (n - 55296) * 1024 + (m - 56320)), u)
                | None \<Rightarrow> Some (utf8 65533, t))
          else if is_low_surrogate n then Some (utf8 65533, t)
          else Some (utf8 n, t))"

definition simple_escape :: "char \<Rightarrow> char option" where
  "simple_escape c =
     (if c = quote_byte \<or> c = backslash \<or> c = CHR ''/'' then Some c
      else if c = CHR ''b'' then Some (CHR 0x08)
      else if c = CHR ''f'' then Some (CHR 0x0C)
      else if c = CHR ''n'' then Some (CHR 0x0A)
      else if c = CHR ''r'' then Some (CHR 0x0D)
      else if c = CHR ''t'' then Some (CHR 0x09)
      else None)"

lemma hex4_length: "hex4 s = Some (n, t) \<Longrightarrow> length t < length s"
  by (induction s rule: hex4.induct) (auto split: option.splits)

lemma low_half_length: "low_half s = Some (n, t) \<Longrightarrow> length t < length s"
  by (auto simp: low_half_def split: list.splits if_splits option.splits dest: hex4_length)

lemma unicode_escape_length: "unicode_escape s = Some (b, t) \<Longrightarrow> length t < length s"
  by (auto simp: unicode_escape_def split: if_splits option.splits
      dest!: hex4_length low_half_length)

text \<open>The text after an opening quote: the string's bytes and what follows the closing quote.\<close>

function (sequential) json_str :: "string \<Rightarrow> (string \<times> string) option" where
  "json_str [] = None"
| "json_str (c # s) =
     (if c = quote_byte then Some ([], s)
      else if c = backslash then
        (case s of
           [] \<Rightarrow> None
         | e # t \<Rightarrow>
             if e = CHR ''u''
             then (case unicode_escape t of
                     None \<Rightarrow> None
                   | Some (b, u) \<Rightarrow> map_option (\<lambda>(x, r). (b @ x, r)) (json_str u))
             else (case simple_escape e of
                     None \<Rightarrow> None
                   | Some b \<Rightarrow> map_option (\<lambda>(x, r). (b # x, r)) (json_str t)))
      else if ord c < 32 then None
      else map_option (\<lambda>(x, r). (c # x, r)) (json_str s))"
  by pat_completeness auto
termination
  by (relation "measure length") (auto dest: unicode_escape_length)

declare json_str.simps(2) [simp del]

definition digits1 :: "string \<Rightarrow> (string \<times> string) option" where
  "digits1 s = (if takeWhile is_digit s = [] then None
                else Some (takeWhile is_digit s, dropWhile is_digit s))"

definition int_part :: "string \<Rightarrow> (string \<times> string) option" where
  "int_part s =
     (case s of
        [] \<Rightarrow> None
      | c # t \<Rightarrow> if c = CHR ''0'' then Some ([c], t) else digits1 s)"

definition frac_part :: "string \<Rightarrow> (string \<times> string) option" where
  "frac_part s =
     (case s of
        [] \<Rightarrow> Some ([], [])
      | c # t \<Rightarrow> if c = CHR ''.'' then map_option (\<lambda>(d, r). (c # d, r)) (digits1 t)
                  else Some ([], s))"

definition exp_part :: "string \<Rightarrow> (string \<times> string) option" where
  "exp_part s =
     (case s of
        [] \<Rightarrow> Some ([], [])
      | c # t \<Rightarrow>
          if c = CHR ''e'' \<or> c = CHR ''E''
          then (case t of
                  d # u \<Rightarrow>
                    if d = CHR ''+'' \<or> d = CHR ''-''
                    then map_option (\<lambda>(ds, r). (c # d # ds, r)) (digits1 u)
                    else map_option (\<lambda>(ds, r). (c # ds, r)) (digits1 t)
                | [] \<Rightarrow> None)
          else Some ([], s))"

definition json_num :: "string \<Rightarrow> (string \<times> string) option" where
  "json_num s =
     (let (sign, s1) = (case s of c # t \<Rightarrow> if c = CHR ''-'' then ([c], t) else ([], s) | [] \<Rightarrow> ([], [])) in
      case int_part s1 of
        None \<Rightarrow> None
      | Some (i, s2) \<Rightarrow>
          (case frac_part s2 of
             None \<Rightarrow> None
           | Some (f, s3) \<Rightarrow>
               (case exp_part s3 of
                  None \<Rightarrow> None
                | Some (e, s4) \<Rightarrow> Some (sign @ i @ f @ e, s4))))"

definition literal :: "string \<Rightarrow> json \<Rightarrow> string \<Rightarrow> (json \<times> string) option" where
  "literal w v s = (if has_prefix s w then Some (v, drop (length w) s) else None)"

text \<open>
  The recursive scanner, with fuel for the nesting and the number of elements. Every element and
  every level of nesting uses at least one byte of the text, so \<open>json_parse\<close> gives it more fuel
  than the text has bytes.
\<close>

fun jval :: "nat \<Rightarrow> string \<Rightarrow> (json \<times> string) option"
  and jelems :: "nat \<Rightarrow> string \<Rightarrow> (json list \<times> string) option"
  and jmembers :: "nat \<Rightarrow> string \<Rightarrow> ((string \<times> json) list \<times> string) option" where
  "jval 0 s = None"
| "jval (Suc n) s =
     (case skip_ws s of
        [] \<Rightarrow> None
      | c # t \<Rightarrow>
          if c = CHR ''{'' then
            (case skip_ws t of
               [] \<Rightarrow> None
             | d # u \<Rightarrow> if d = CHR ''}'' then Some (JObj [], u)
                         else map_option (\<lambda>(ms, r). (JObj ms, r)) (jmembers n (d # u)))
          else if c = CHR ''['' then
            (case skip_ws t of
               [] \<Rightarrow> None
             | d # u \<Rightarrow> if d = CHR '']'' then Some (JArr [], u)
                         else map_option (\<lambda>(vs, r). (JArr vs, r)) (jelems n (d # u)))
          else if c = quote_byte then map_option (\<lambda>(x, r). (JStr x, r)) (json_str t)
          else if c = CHR ''t'' then literal ''true'' (JBool True) (c # t)
          else if c = CHR ''f'' then literal ''false'' (JBool False) (c # t)
          else if c = CHR ''n'' then literal ''null'' JNull (c # t)
          else map_option (\<lambda>(x, r). (JNum x, r)) (json_num (c # t)))"
| "jelems 0 s = None"
| "jelems (Suc n) s =
     (case jval n s of
        None \<Rightarrow> None
      | Some (v, r) \<Rightarrow>
          (case skip_ws r of
             [] \<Rightarrow> None
           | c # t \<Rightarrow>
               if c = CHR '','' then map_option (\<lambda>(vs, q). (v # vs, q)) (jelems n t)
               else if c = CHR '']'' then Some ([v], t)
               else None))"
| "jmembers 0 s = None"
| "jmembers (Suc n) s =
     (case skip_ws s of
        [] \<Rightarrow> None
      | c # t \<Rightarrow>
          if c \<noteq> quote_byte then None
          else (case json_str t of
             None \<Rightarrow> None
           | Some (k, r) \<Rightarrow>
               (case skip_ws r of
                  [] \<Rightarrow> None
                | d # u \<Rightarrow>
                    if d \<noteq> CHR '':'' then None
                    else (case jval n u of
                       None \<Rightarrow> None
                     | Some (v, q) \<Rightarrow>
                         (case skip_ws q of
                            [] \<Rightarrow> None
                          | e # p \<Rightarrow>
                              if e = CHR '','' then map_option (\<lambda>(ms, x). ((k, v) # ms, x)) (jmembers n p)
                              else if e = CHR ''}'' then Some ([(k, v)], p)
                              else None)))))"

definition json_parse :: "string \<Rightarrow> json option" where
  "json_parse s =
     (case jval (Suc (length s)) s of
        Some (v, r) \<Rightarrow> if skip_ws r = [] then Some v else None
      | None \<Rightarrow> None)"

section \<open>Printing\<close>

text \<open>
  \<open>json.Marshal\<close>: control bytes, quote, backslash and the three HTML bytes are escaped.
\<close>

definition hex_escape :: "char \<Rightarrow> string" where
  "hex_escape c = backslash # ''u00'' @ [hex_digit (ord c div 16), hex_digit (ord c mod 16)]"

definition escape_byte :: "char \<Rightarrow> string" where
  "escape_byte c =
     (if c = quote_byte \<or> c = backslash then [backslash, c]
      else if c = CHR 0x08 then [backslash, CHR ''b'']
      else if c = CHR 0x0C then [backslash, CHR ''f'']
      else if c = CHR 0x0A then [backslash, CHR ''n'']
      else if c = CHR 0x0D then [backslash, CHR ''r'']
      else if c = CHR 0x09 then [backslash, CHR ''t'']
      else if ord c < 32 \<or> c = CHR ''<'' \<or> c = CHR ''>'' \<or> c = CHR ''&'' then hex_escape c
      else [c])"

definition print_str :: "string \<Rightarrow> string" where
  "print_str s = quote_byte # concat (map escape_byte s) @ [quote_byte]"

fun json_print :: "json \<Rightarrow> string"
  and print_elems :: "json list \<Rightarrow> string"
  and print_members :: "(string \<times> json) list \<Rightarrow> string" where
  "json_print JNull = ''null''"
| "json_print (JBool b) = (if b then ''true'' else ''false'')"
| "json_print (JNum l) = l"
| "json_print (JStr s) = print_str s"
| "json_print (JArr vs) = CHR ''['' # print_elems vs"
| "json_print (JObj ms) = CHR ''{'' # print_members ms"
| "print_elems [] = '']''"
| "print_elems [v] = json_print v @ '']''"
| "print_elems (v # w # vs) = json_print v @ CHR '','' # print_elems (w # vs)"
| "print_members [] = ''}''"
| "print_members [(k, v)] = print_str k @ CHR '':'' # json_print v @ ''}''"
| "print_members ((k, v) # m # ms) =
     print_str k @ CHR '':'' # json_print v @ CHR '','' # print_members (m # ms)"

section \<open>The scanner reads back what the printer writes\<close>

definition valid_num :: "string \<Rightarrow> bool" where
  "valid_num l \<longleftrightarrow> json_num l = Some (l, [])"

text \<open>Values whose number literals are JSON numbers: those a Go program can marshal.\<close>

fun json_wf :: "json \<Rightarrow> bool" where
  "json_wf (JNum l) = valid_num l"
| "json_wf (JArr vs) = list_all json_wf vs"
| "json_wf (JObj ms) = list_all (\<lambda>(k, v). json_wf v) ms"
| "json_wf _ = True"

text \<open>What may follow a value in an array, an object or at the end of the text, blanks included.\<close>

definition delim_head :: "string \<Rightarrow> bool" where
  "delim_head r \<longleftrightarrow> r = [] \<or> is_ws (hd r) \<or> hd r \<in> {CHR '','', CHR '']'', CHR ''}''}"

lemma skip_ws_nonws: "\<not> is_ws c \<Longrightarrow> skip_ws (c # s) = c # s"
  by (simp add: skip_ws_def)

lemma json_str_unicode_small:
  "n < 128 \<Longrightarrow> hex4 s = Some (n, t) \<Longrightarrow> unicode_escape s = Some ([chr n], t)"
  by (simp add: unicode_escape_def is_high_surrogate_def is_low_surrogate_def utf8_def)

lemma hex4_hex_escape:
  assumes "ord c < 128"
  shows "hex4 (CHR ''0'' # CHR ''0'' # hex_digit (ord c div 16) # hex_digit (ord c mod 16) # r)
    = Some (ord c, r)"
proof -
  have "from_hex_char (CHR ''0'') = Some 0" by (simp add: from_hex_char_def)
  moreover have "ord c div 16 < 16" using assms by simp
  ultimately show ?thesis by simp
qed

lemma json_str_hex_escape:
  assumes "ord c < 128"
  shows "json_str (hex_escape c @ s) = map_option (\<lambda>(x, r). (c # x, r)) (json_str s)"
proof -
  have "unicode_escape (CHR ''0'' # CHR ''0'' # hex_digit (ord c div 16) # hex_digit (ord c mod 16) # s)
      = Some ([c], s)"
    using json_str_unicode_small[OF assms hex4_hex_escape[OF assms]] by simp
  then show ?thesis by (simp add: hex_escape_def json_str.simps(2)[of backslash])
qed

lemma json_str_escape_byte:
  "json_str (escape_byte c @ s) = map_option (\<lambda>(x, r). (c # x, r)) (json_str s)"
proof (cases "ord c < 32 \<or> c = CHR ''<'' \<or> c = CHR ''>'' \<or> c = CHR ''&''")
  case True
  then have "ord c < 128" by auto
  with True show ?thesis
    by (auto simp: escape_byte_def json_str_hex_escape json_str.simps(2)[of backslash] simple_escape_def)
next
  case False
  then show ?thesis
    by (auto simp: escape_byte_def json_str.simps(2)[of backslash] json_str.simps(2)[of c] simple_escape_def)
qed

lemma json_str_print_aux: "json_str (concat (map escape_byte s) @ quote_byte # r) = Some (s, r)"
proof (induction s)
  case Nil
  then show ?case by (simp add: json_str.simps(2))
next
  case (Cons c s)
  then show ?case by (simp add: json_str_escape_byte)
qed

lemma digits1_append:
  assumes "digits1 s = Some (d, r)" and "rest = [] \<or> \<not> is_digit (hd rest)"
  shows "digits1 (s @ rest) = Some (d, r @ rest)"
proof -
  have "takeWhile is_digit (s @ rest) = takeWhile is_digit s"
    "dropWhile is_digit (s @ rest) = dropWhile is_digit s @ rest"
    using assms(2) by (cases rest; induction s; simp)+
  with assms(1) show ?thesis by (auto simp: digits1_def split: if_splits)
qed

lemma int_part_append:
  "int_part s = Some (d, r) \<Longrightarrow> rest = [] \<or> \<not> is_digit (hd rest) \<Longrightarrow> int_part (s @ rest) = Some (d, r @ rest)"
  using digits1_append[of s d r rest] by (auto simp: int_part_def split: list.splits if_splits)

lemma frac_part_append:
  assumes "frac_part s = Some (d, r)" and "rest = [] \<or> \<not> is_digit (hd rest) \<and> hd rest \<noteq> CHR ''.''"
  shows "frac_part (s @ rest) = Some (d, r @ rest)"
  using assms digits1_append[of "tl s" _ r rest]
  by (cases s; cases rest) (auto simp: frac_part_def split: if_splits)

lemma exp_part_append:
  assumes "exp_part s = Some (d, r)"
    and "rest = [] \<or> \<not> is_digit (hd rest) \<and> hd rest \<noteq> CHR ''e'' \<and> hd rest \<noteq> CHR ''E''"
  shows "exp_part (s @ rest) = Some (d, r @ rest)"
proof (cases s)
  case Nil
  with assms show ?thesis by (cases rest) (auto simp: exp_part_def)
next
  case (Cons c t)
  have rest: "rest = [] \<or> \<not> is_digit (hd rest)" using assms(2) by blast
  show ?thesis
    using assms(1) Cons digits1_append[OF _ rest, of t] digits1_append[OF _ rest, of "tl t"]
    by (auto simp: exp_part_def split: if_splits list.splits)
qed

lemma delim_head_cases:
  "delim_head r \<Longrightarrow> r = [] \<or> (\<not> is_digit (hd r) \<and> hd r \<noteq> CHR ''.'' \<and> hd r \<noteq> CHR ''e'' \<and> hd r \<noteq> CHR ''E'')"
  by (auto simp: delim_head_def is_digit_def is_ws_def)

lemma digits1_rest: "digits1 s = Some (d, r) \<Longrightarrow> d \<noteq> [] \<and> s = d @ r \<and> (\<forall>c \<in> set d. is_digit c)"
  by (auto simp: digits1_def split: if_splits dest: set_takeWhileD)

lemma json_num_append:
  assumes num: "json_num s = Some (l, [])" and r: "delim_head r"
  shows "json_num (s @ r) = Some (l, r)"
proof -
  note d = delim_head_cases[OF r]
  from num obtain sg s1 i s2 f s3 e where
    sg: "(sg, s1) = (case s of c # t \<Rightarrow> if c = CHR ''-'' then ([c], t) else ([], s) | [] \<Rightarrow> ([], []))"
    and i: "int_part s1 = Some (i, s2)" and f: "frac_part s2 = Some (f, s3)"
    and e: "exp_part s3 = Some (e, [])" and l: "l = sg @ i @ f @ e"
    by (auto simp: json_num_def Let_def split: prod.splits option.splits)
  have "s \<noteq> []" using sg i by (auto simp: int_part_def)
  then have sg': "(sg, s1 @ r) = (case s @ r of c # t \<Rightarrow> if c = CHR ''-'' then ([c], t) else ([], s @ r) | [] \<Rightarrow> ([], []))"
    using sg by (cases s) (auto split: if_splits)
  have "int_part (s1 @ r) = Some (i, s2 @ r)" using int_part_append[OF i] d by blast
  moreover have "frac_part (s2 @ r) = Some (f, s3 @ r)" using frac_part_append[OF f] d by blast
  moreover have "exp_part (s3 @ r) = Some (e, r)" using exp_part_append[OF e] d by fastforce
  ultimately show ?thesis by (simp add: json_num_def sg'[symmetric] l)
qed

lemma valid_num_head: "valid_num l \<Longrightarrow> \<exists>c t. l = c # t \<and> (c = CHR ''-'' \<or> is_digit c)"
proof -
  assume "valid_num l"
  then have "json_num l = Some (l, [])" by (simp add: valid_num_def)
  moreover have "int_part s = Some (d, r) \<Longrightarrow> \<exists>c t. s = c # t \<and> is_digit c" for s d r
    by (auto simp: int_part_def is_digit_def[of "CHR ''0''"] split: list.splits if_splits dest!: digits1_rest)
       (metis Cons_eq_append_conv list.set_intros(1))
  ultimately show ?thesis
    by (fastforce simp: json_num_def Let_def split: prod.splits option.splits list.splits if_splits)
qed

lemma json_print_head:
  "json_wf v \<Longrightarrow> \<exists>c t. json_print v = c # t \<and> \<not> is_ws c \<and> c \<noteq> CHR '']'' \<and> c \<noteq> CHR ''}''"
proof (cases v)
  case (JNum l)
  assume "json_wf v"
  with JNum have "valid_num l" by simp
  from valid_num_head[OF this] obtain c t where "l = c # t" and c: "c = CHR ''-'' \<or> is_digit c"
    by blast
  moreover from c have "45 \<le> ord c \<and> ord c \<le> 57" by (auto simp: is_digit_def)
  then have "\<not> is_ws c \<and> c \<noteq> CHR '']'' \<and> c \<noteq> CHR ''}''" by (auto simp: is_ws_def)
  ultimately show ?thesis using JNum by simp
qed (simp_all add: print_str_def is_ws_def)

lemma jval_num:
  assumes "valid_num l" and "delim_head r"
  shows "jval (Suc n) (l @ r) = Some (JNum l, r)"
proof -
  from valid_num_head[OF assms(1)] obtain c t where l: "l = c # t" and c: "c = CHR ''-'' \<or> is_digit c"
    by blast
  from c have "45 \<le> ord c \<and> ord c \<le> 57" by (auto simp: is_digit_def)
  then have "\<not> is_ws c" "c \<noteq> CHR ''{''" "c \<noteq> CHR ''[''" "c \<noteq> quote_byte" "c \<noteq> CHR ''t''" "c \<noteq> CHR ''f''" "c \<noteq> CHR ''n''"
    by (auto simp: is_ws_def)
  then show ?thesis
    using json_num_append[of l l r] assms l by (simp add: skip_ws_nonws valid_num_def)
qed

lemma print_elems_head: "list_all json_wf vs \<Longrightarrow> vs \<noteq> [] \<Longrightarrow>
   \<exists>c t. print_elems vs = c # t \<and> \<not> is_ws c \<and> c \<noteq> CHR '']''"
  using json_print_head[of "hd vs"] by (cases vs; cases "tl vs") auto

lemma print_members_head: "ms \<noteq> [] \<Longrightarrow> \<exists>t. print_members ms = quote_byte # t"
  by (cases ms; cases "tl ms") (auto simp: print_str_def)

lemma json_roundtrip_aux:
  "json_wf v \<Longrightarrow> delim_head r \<Longrightarrow> length (json_print v) \<le> n \<Longrightarrow> jval n (json_print v @ r) = Some (v, r)"
  "list_all json_wf vs \<Longrightarrow> vs \<noteq> [] \<Longrightarrow> length (print_elems vs) \<le> n \<Longrightarrow>
    jelems n (print_elems vs @ r) = Some (vs, r)"
  "list_all (\<lambda>(k, v). json_wf v) ms \<Longrightarrow> ms \<noteq> [] \<Longrightarrow> length (print_members ms) \<le> n \<Longrightarrow>
    jmembers n (print_members ms @ r) = Some (ms, r)"
proof (induction v and vs and ms arbitrary: r n and r n and r n
    rule: json_print_print_elems_print_members.induct)
  case (2 b)
  then obtain m where "n = Suc m" by (cases n) (auto split: if_splits)
  with 2 show ?case by (simp add: literal_def has_prefix_def skip_ws_nonws is_ws_def)
next
  case (3 l)
  then obtain m where "n = Suc m" by (cases n) (auto dest: valid_num_head)
  with jval_num[of l r m] 3 show ?case by simp
next
  case (4 s)
  then obtain m where n: "n = Suc m" by (cases n) (auto simp: print_str_def)
  show ?case
    using json_str_print_aux[of s r] by (simp add: n print_str_def skip_ws_nonws is_ws_def)
next
  case (5 vs)
  then obtain m where n: "n = Suc m" by (cases n) auto
  show ?case
  proof (cases "vs = []")
    case True
    then show ?thesis by (simp add: n skip_ws_nonws is_ws_def)
  next
    case False
    from 5 have "list_all json_wf vs" by simp
    from print_elems_head[OF this False]
    obtain c t where "print_elems vs = c # t" "\<not> is_ws c" "c \<noteq> CHR '']''" by blast
    with 5 n False show ?thesis by (simp add: skip_ws_nonws is_ws_def[of "CHR ''[''"])
  qed
next
  case (6 ms)
  then obtain m where n: "n = Suc m" by (cases n) auto
  show ?case
  proof (cases "ms = []")
    case True
    then show ?thesis by (simp add: n skip_ws_nonws is_ws_def)
  next
    case False
    with print_members_head obtain t where "print_members ms = quote_byte # t" by blast
    with 6 n False show ?thesis by (simp add: skip_ws_nonws is_ws_def)
  qed
next
  case (8 v)
  then obtain m where n: "n = Suc m" by (cases n) auto
  with 8 show ?case by (simp add: skip_ws_nonws is_ws_def delim_head_def)
next
  case (9 v w vs)
  then obtain m where n: "n = Suc m" by (cases n) auto
  with 9 show ?case by (simp add: skip_ws_nonws is_ws_def delim_head_def)
next
  case (11 k v)
  then obtain m where n: "n = Suc m" by (cases n) auto
  with 11 json_str_print_aux[of k] show ?case
    by (simp add: print_str_def skip_ws_nonws is_ws_def delim_head_def)
next
  case (12 k v m' ms)
  then obtain m where n: "n = Suc m" by (cases n) auto
  with 12 json_str_print_aux[of k] show ?case
    by (simp add: print_str_def skip_ws_nonws is_ws_def delim_head_def)
qed (auto simp: literal_def has_prefix_def skip_ws_nonws is_ws_def Suc_le_eq gr0_conv_Suc elim: less_natE)

lemma json_parse_print: "json_wf v \<Longrightarrow> json_parse (json_print v) = Some v"
  using json_roundtrip_aux(1)[of v "[]" "Suc (length (json_print v))"]
  by (simp add: json_parse_def delim_head_def skip_ws_def)

section \<open>Structs and objects\<close>

type_synonym members = "(string \<times> json) list"

text \<open>
  Decoding into a field: a decoder takes the value and the field's current content. Field names of
  the program's structs are lower case and distinct, so a key selects the field it equals up to
  case.
\<close>

type_synonym 'a field_decoder = "json \<Rightarrow> 'a \<Rightarrow> 'a option"

definition key_matches :: "string \<Rightarrow> string \<Rightarrow> bool" where
  "key_matches k f \<longleftrightarrow> to_lower k = to_lower f"

fun get_field :: "'a field_decoder \<Rightarrow> string \<Rightarrow> members \<Rightarrow> 'a \<Rightarrow> 'a option" where
  "get_field d f [] cur = Some cur"
| "get_field d f ((k, v) # ms) cur =
     (if key_matches k f
      then (case d v cur of None \<Rightarrow> None | Some x \<Rightarrow> get_field d f ms x)
      else get_field d f ms cur)"

fun dec_str :: "string field_decoder" where
  "dec_str (JStr s) cur = Some s"
| "dec_str JNull cur = Some cur"
| "dec_str _ cur = None"

fun dec_bool :: "bool field_decoder" where
  "dec_bool (JBool b) cur = Some b"
| "dec_bool JNull cur = Some cur"
| "dec_bool _ cur = None"

text \<open>\<open>strconv.ParseInt\<close> on a number literal: digits with an optional sign, in range.\<close>

fun digits_val :: "string \<Rightarrow> nat \<Rightarrow> nat option" where
  "digits_val [] acc = Some acc"
| "digits_val (c # s) acc = (if is_digit c then digits_val s (10 * acc + (ord c - 48)) else None)"

definition parse_int :: "string \<Rightarrow> int option" where
  "parse_int l =
     (let (neg, ds) = (case l of c # t \<Rightarrow> if c = CHR ''-'' then (True, t) else (False, l) | [] \<Rightarrow> (False, [])) in
      if ds = [] then None
      else case digits_val ds 0 of
             None \<Rightarrow> None
           | Some n \<Rightarrow> let i = (if neg then - int n else int n) in
                        if in_int64 i then Some i else None)"

fun dec_int :: "int field_decoder" where
  "dec_int (JNum l) cur = parse_int l"
| "dec_int JNull cur = Some cur"
| "dec_int _ cur = None"

text \<open>A \<open>json.RawMessage\<close> field keeps the value itself, \<open>null\<close> included.\<close>

definition dec_raw :: "json option field_decoder" where
  "dec_raw v cur = Some (Some v)"

definition get_str :: "string \<Rightarrow> members \<Rightarrow> string option" where
  "get_str f ms = get_field dec_str f ms []"

text \<open>The top-level value handed to a struct: an object, or \<open>null\<close>, which changes nothing.\<close>

definition as_members :: "json \<Rightarrow> members option" where
  "as_members v = (case v of JObj ms \<Rightarrow> Some ms | JNull \<Rightarrow> Some [] | _ \<Rightarrow> None)"

lemma as_members_simps [simp]:
  "as_members (JObj ms) = Some ms" "as_members JNull = Some []"
  "as_members (JStr s) = None" "as_members (JNum l) = None"
  "as_members (JBool b) = None" "as_members (JArr vs) = None"
  by (simp_all add: as_members_def)

text \<open>Writing a struct: \<open>omitempty\<close> drops the empty string.\<close>

definition str_member :: "string \<Rightarrow> string \<Rightarrow> members" where
  "str_member f v = [(f, JStr v)]"

definition opt_member :: "string \<Rightarrow> string \<Rightarrow> members" where
  "opt_member f v = (if v = [] then [] else [(f, JStr v)])"

lemma get_field_append:
  "get_field d f (ms @ ns) cur = Option.bind (get_field d f ms cur) (get_field d f ns)"
  by (induction d f ms cur rule: get_field.induct) (auto split: option.splits)

lemma get_field_skip: "\<forall>(k, v) \<in> set ms. \<not> key_matches k f \<Longrightarrow> get_field d f ms cur = Some cur"
  by (induction ms arbitrary: cur) auto

lemma get_field_str_member [simp]:
  "get_field dec_str f (str_member g v @ ms) cur =
     get_field dec_str f ms (if key_matches g f then v else cur)"
  "get_field dec_str f (opt_member g v @ ms) cur =
     get_field dec_str f ms (if key_matches g f \<and> v \<noteq> [] then v else cur)"
  by (auto simp: str_member_def opt_member_def)

lemma json_wf_members [simp]:
  "list_all (\<lambda>(k, v). json_wf v) (str_member f v)"
  "list_all (\<lambda>(k, v). json_wf v) (opt_member f v)"
  by (auto simp: str_member_def opt_member_def)

end
