(* ===== verification/Proto.thy ===== *)
theory Proto
  imports GoJson
begin

text \<open>
  The wire protocol, \<open>proto/messages.go\<close>: the envelope around every message, the message and
  command kinds, and the payload structs with the JSON their tags give them.

  UUIDs and timestamps are kept as their text. Generating and parsing a UUID is
  \<open>github.com/google/uuid\<close>, not under \<open>src/\<close>: a fresh identifier and a UUID parser are arguments of
  the definitions that need them. \<open>json.Marshal\<close> of the payload structs cannot fail, so a payload is
  its JSON value and \<open>new_envelope\<close> has no error result.
\<close>

section \<open>Kinds\<close>

definition ProtocolVersion :: int where "ProtocolVersion = 1"

type_synonym message_type = string

definition MsgHello :: message_type where "MsgHello = ''hello''"
definition MsgPong :: message_type where "MsgPong = ''pong''"
definition MsgInventory :: message_type where "MsgInventory = ''inventory''"
definition MsgTelemetry :: message_type where "MsgTelemetry = ''telemetry''"
definition MsgResult :: message_type where "MsgResult = ''result''"
definition MsgHelloAck :: message_type where "MsgHelloAck = ''hello_ack''"
definition MsgPing :: message_type where "MsgPing = ''ping''"
definition MsgCommand :: message_type where "MsgCommand = ''command''"
definition MsgCancel :: message_type where "MsgCancel = ''cancel''"
definition MsgTerminalOpen :: message_type where "MsgTerminalOpen = ''terminal_open''"
definition MsgTerminalInput :: message_type where "MsgTerminalInput = ''terminal_input''"
definition MsgTerminalResize :: message_type where "MsgTerminalResize = ''terminal_resize''"
definition MsgTerminalClose :: message_type where "MsgTerminalClose = ''terminal_close''"
definition MsgScreenStart :: message_type where "MsgScreenStart = ''screen_start''"
definition MsgScreenStop :: message_type where "MsgScreenStop = ''screen_stop''"

lemmas message_types = MsgHello_def MsgPong_def MsgInventory_def MsgTelemetry_def MsgResult_def
  MsgHelloAck_def MsgPing_def MsgCommand_def MsgCancel_def MsgTerminalOpen_def MsgTerminalInput_def
  MsgTerminalResize_def MsgTerminalClose_def MsgScreenStart_def MsgScreenStop_def

type_synonym command_kind = string

definition CmdInventoryRefresh :: command_kind where "CmdInventoryRefresh = ''inventory_refresh''"
definition CmdStartSolarbeam :: command_kind where "CmdStartSolarbeam = ''start_solarbeam''"
definition CmdStopSolarbeam :: command_kind where "CmdStopSolarbeam = ''stop_solarbeam''"
definition CmdUpdate :: command_kind where "CmdUpdate = ''update''"
definition CmdSolarbeamEngineUpdate :: command_kind where
  "CmdSolarbeamEngineUpdate = ''solarbeam_engine_update''"
definition CmdShowNotification :: command_kind where "CmdShowNotification = ''show_notification''"

lemmas command_kinds = CmdInventoryRefresh_def CmdStartSolarbeam_def CmdStopSolarbeam_def
  CmdUpdate_def CmdSolarbeamEngineUpdate_def CmdShowNotification_def

section \<open>Envelopes\<close>

type_synonym uuid = string

definition uuid_nil :: uuid where
  "uuid_nil = ''00000000-0000-0000-0000-000000000000''"

record envelope =
  env_id :: uuid
  env_type :: message_type
  env_reply :: "uuid option"
  env_ts :: string
  env_data :: "json option"

text \<open>\<open>fresh\<close> is \<open>uuid.New()\<close>, \<open>ts\<close> is \<open>time.Now().UTC()\<close>; \<open>None\<close> data is Go's \<open>nil\<close>.\<close>

definition new_envelope ::
  "uuid \<Rightarrow> string \<Rightarrow> message_type \<Rightarrow> uuid \<Rightarrow> uuid option \<Rightarrow> json option \<Rightarrow> envelope" where
  "new_envelope fresh ts t i reply data =
     \<lparr>env_id = (if i = uuid_nil then fresh else i),
      env_type = t, env_reply = reply, env_ts = ts, env_data = data\<rparr>"

definition decode_data :: "(json \<Rightarrow> 'a option) \<Rightarrow> envelope \<Rightarrow> 'a res" where
  "decode_data d e =
     (case env_data e of
        None \<Rightarrow> Inl (Msg (''proto: envelope '' @ env_type e @ '' carries no data''))
      | Some v \<Rightarrow>
          (case d v of
             None \<Rightarrow> Inl (wrapf (''proto: decode '' @ env_type e @ '' data: '') (Msg ''json: cannot unmarshal''))
           | Some x \<Rightarrow> Inr x))"

lemma decode_data_Inr: "decode_data d e = Inr x \<longleftrightarrow> (\<exists>v. env_data e = Some v \<and> d v = Some x)"
  by (auto simp: decode_data_def split: option.splits)

text \<open>The envelope's own JSON.\<close>

definition envelope_json :: "envelope \<Rightarrow> json" where
  "envelope_json e = JObj
     (str_member ''id'' (env_id e) @ str_member ''type'' (env_type e) @
      (case env_reply e of None \<Rightarrow> [] | Some r \<Rightarrow> str_member ''in_reply_to'' r) @
      str_member ''ts'' (env_ts e) @
      (case env_data e of None \<Rightarrow> [] | Some v \<Rightarrow> [(''data'', v)]))"

text \<open>
  \<open>time.Time\<close> reads RFC 3339: a date and a time with \<open>T\<close> between, seconds with an optional
  fraction, and \<open>Z\<close> or a numeric zone, every part in range.
\<close>

definition num_at :: "nat \<Rightarrow> nat \<Rightarrow> string \<Rightarrow> nat option" where
  "num_at i n s = (if i + n \<le> length s then digits_val (take n (drop i s)) 0 else None)"

definition num_in :: "nat \<Rightarrow> nat \<Rightarrow> string \<Rightarrow> nat \<Rightarrow> nat \<Rightarrow> bool" where
  "num_in i n s lo hi = (case num_at i n s of None \<Rightarrow> False | Some k \<Rightarrow> lo \<le> k \<and> k \<le> hi)"

definition days_in :: "nat \<Rightarrow> nat \<Rightarrow> nat" where
  "days_in month year =
     (if month = 2 then (if year mod 4 = 0 \<and> (year mod 100 \<noteq> 0 \<or> year mod 400 = 0) then 29 else 28)
      else if month \<in> {4, 6, 9, 11} then 30 else 31)"

definition zone_ok :: "string \<Rightarrow> bool" where
  "zone_ok z \<longleftrightarrow>
     z = ''Z'' \<or>
     (length z = 6 \<and> (z ! 0 = CHR ''+'' \<or> z ! 0 = CHR ''-'') \<and> z ! 3 = CHR '':'' \<and>
      num_in 1 2 z 0 23 \<and> num_in 4 2 z 0 59)"

definition fraction_rest :: "string \<Rightarrow> string" where
  "fraction_rest s =
     (case s of
        c # t \<Rightarrow> if c = CHR ''.'' \<and> takeWhile is_digit t \<noteq> [] then dropWhile is_digit t else s
      | [] \<Rightarrow> [])"

definition rfc3339_ok :: "string \<Rightarrow> bool" where
  "rfc3339_ok s \<longleftrightarrow>
     19 < length s \<and> s ! 4 = CHR ''-'' \<and> s ! 7 = CHR ''-'' \<and> s ! 10 = CHR ''T'' \<and>
     s ! 13 = CHR '':'' \<and> s ! 16 = CHR '':'' \<and>
     num_in 0 4 s 0 9999 \<and> num_in 5 2 s 1 12 \<and>
     num_in 8 2 s 1 (days_in (the (num_at 5 2 s)) (the (num_at 0 4 s))) \<and>
     num_in 11 2 s 0 23 \<and> num_in 14 2 s 0 59 \<and> num_in 17 2 s 0 59 \<and>
     zone_ok (fraction_rest (drop 19 s))"

fun dec_time :: "string field_decoder" where
  "dec_time (JStr s) cur = (if rfc3339_ok s then Some s else None)"
| "dec_time JNull cur = Some cur"
| "dec_time _ cur = None"

definition zero_time :: string where
  "zero_time = ''0001-01-01T00:00:00Z''"

fun dec_uuid :: "(string \<Rightarrow> uuid option) \<Rightarrow> uuid field_decoder" where
  "dec_uuid parse (JStr s) cur = parse s"
| "dec_uuid parse JNull cur = Some cur"
| "dec_uuid parse _ cur = None"

text \<open>A pointer field: \<open>null\<close> makes it \<open>nil\<close>.\<close>

fun dec_uuid_ptr :: "(string \<Rightarrow> uuid option) \<Rightarrow> uuid option field_decoder" where
  "dec_uuid_ptr parse (JStr s) cur = map_option Some (parse s)"
| "dec_uuid_ptr parse JNull cur = Some None"
| "dec_uuid_ptr parse _ cur = None"

definition decode_envelope :: "(string \<Rightarrow> uuid option) \<Rightarrow> json \<Rightarrow> envelope option" where
  "decode_envelope parse v =
     (case as_members v of
        None \<Rightarrow> None
      | Some ms \<Rightarrow>
          (case (get_field (dec_uuid parse) ''id'' ms uuid_nil, get_str ''type'' ms,
                 get_field (dec_uuid_ptr parse) ''in_reply_to'' ms None,
                 get_field dec_time ''ts'' ms zero_time, get_field dec_raw ''data'' ms None) of
             (Some i, Some t, Some r, Some ts, Some d) \<Rightarrow>
               Some \<lparr>env_id = i, env_type = t, env_reply = r, env_ts = ts, env_data = d\<rparr>
           | _ \<Rightarrow> None))"

section \<open>Commands\<close>

record command_data =
  cmd_kind :: command_kind
  cmd_args :: "json option"

definition decode_command_data :: "json \<Rightarrow> command_data option" where
  "decode_command_data v =
     (case as_members v of
        None \<Rightarrow> None
      | Some ms \<Rightarrow>
          (case (get_str ''kind'' ms, get_field dec_raw ''args'' ms None) of
             (Some k, Some a) \<Rightarrow> Some \<lparr>cmd_kind = k, cmd_args = a\<rparr>
           | _ \<Rightarrow> None))"

definition command_json :: "command_data \<Rightarrow> json" where
  "command_json c = JObj (str_member ''kind'' (cmd_kind c) @
     [(''args'', case cmd_args c of None \<Rightarrow> JNull | Some a \<Rightarrow> a)])"

definition decode_args :: "(json \<Rightarrow> 'a option) \<Rightarrow> command_data \<Rightarrow> 'a res" where
  "decode_args d c =
     (case cmd_args c of
        None \<Rightarrow> Inl (Msg (''proto: command '' @ cmd_kind c @ '' has no args''))
      | Some v \<Rightarrow> (case d v of None \<Rightarrow> Inl (Msg ''json: cannot unmarshal'') | Some x \<Rightarrow> Inr x))"

lemma decode_args_Inr: "decode_args d c = Inr x \<longleftrightarrow> (\<exists>v. cmd_args c = Some v \<and> d v = Some x)"
  by (auto simp: decode_args_def split: option.splits)

section \<open>Payloads the agent receives\<close>

record start_args =
  sa_session_id :: string
  sa_machine_id :: string
  sa_readyapp_url :: string
  sa_bundle_token :: string

definition decode_start_args :: "json \<Rightarrow> start_args option" where
  "decode_start_args v =
     (case as_members v of
        None \<Rightarrow> None
      | Some ms \<Rightarrow>
          (case (get_str ''session_id'' ms, get_str ''machine_id'' ms,
                 get_str ''readyapp_url'' ms, get_str ''bundle_token'' ms) of
             (Some s, Some m, Some u, Some b) \<Rightarrow>
               Some \<lparr>sa_session_id = s, sa_machine_id = m, sa_readyapp_url = u, sa_bundle_token = b\<rparr>
           | _ \<Rightarrow> None))"

definition start_args_json :: "start_args \<Rightarrow> json" where
  "start_args_json a = JObj
     (str_member ''session_id'' (sa_session_id a) @ str_member ''machine_id'' (sa_machine_id a) @
      str_member ''readyapp_url'' (sa_readyapp_url a) @ str_member ''bundle_token'' (sa_bundle_token a))"

record stop_args =
  st_session_id :: string

definition decode_stop_args :: "json \<Rightarrow> stop_args option" where
  "decode_stop_args v =
     (case as_members v of
        None \<Rightarrow> None
      | Some ms \<Rightarrow> map_option (\<lambda>s. \<lparr>st_session_id = s\<rparr>) (get_str ''session_id'' ms))"

definition stop_args_json :: "stop_args \<Rightarrow> json" where
  "stop_args_json a = JObj (str_member ''session_id'' (st_session_id a))"

record update_args =
  ua_release_id :: string
  ua_version :: string
  ua_url :: string
  ua_sha256 :: string
  ua_agent_profile :: string
  ua_signer_fingerprint :: string
  ua_product_id :: string

definition decode_update_args :: "json \<Rightarrow> update_args option" where
  "decode_update_args v =
     (case as_members v of
        None \<Rightarrow> None
      | Some ms \<Rightarrow>
          (case (get_str ''release_id'' ms, get_str ''version'' ms, get_str ''url'' ms, get_str ''sha256'' ms,
                 get_str ''agent_profile'' ms, get_str ''signer_fingerprint'' ms, get_str ''product_id'' ms) of
             (Some r, Some ve, Some u, Some s, Some a, Some f, Some p) \<Rightarrow>
               Some \<lparr>ua_release_id = r, ua_version = ve, ua_url = u, ua_sha256 = s,
                     ua_agent_profile = a, ua_signer_fingerprint = f, ua_product_id = p\<rparr>
           | _ \<Rightarrow> None))"

definition update_args_json :: "update_args \<Rightarrow> json" where
  "update_args_json a = JObj
     (str_member ''release_id'' (ua_release_id a) @ str_member ''version'' (ua_version a) @
      str_member ''url'' (ua_url a) @ str_member ''sha256'' (ua_sha256 a) @
      str_member ''agent_profile'' (ua_agent_profile a) @
      str_member ''signer_fingerprint'' (ua_signer_fingerprint a) @
      str_member ''product_id'' (ua_product_id a))"

record engine_update_args =
  ea_release_id :: string
  ea_version :: string
  ea_url :: string
  ea_sha256 :: string
  ea_signer_fingerprint :: string
  ea_product_id :: string

definition decode_engine_update_args :: "json \<Rightarrow> engine_update_args option" where
  "decode_engine_update_args v =
     (case as_members v of
        None \<Rightarrow> None
      | Some ms \<Rightarrow>
          (case (get_str ''release_id'' ms, get_str ''version'' ms, get_str ''url'' ms, get_str ''sha256'' ms,
                 get_str ''signer_fingerprint'' ms, get_str ''product_id'' ms) of
             (Some r, Some ve, Some u, Some s, Some f, Some p) \<Rightarrow>
               Some \<lparr>ea_release_id = r, ea_version = ve, ea_url = u, ea_sha256 = s,
                     ea_signer_fingerprint = f, ea_product_id = p\<rparr>
           | _ \<Rightarrow> None))"

definition engine_update_args_json :: "engine_update_args \<Rightarrow> json" where
  "engine_update_args_json a = JObj
     (str_member ''release_id'' (ea_release_id a) @ str_member ''version'' (ea_version a) @
      str_member ''url'' (ea_url a) @ str_member ''sha256'' (ea_sha256 a) @
      str_member ''signer_fingerprint'' (ea_signer_fingerprint a) @
      str_member ''product_id'' (ea_product_id a))"

record notify_args =
  na_kind :: string
  na_title :: string
  na_body :: string
  na_severity :: string
  na_url :: string

definition decode_notify_args :: "json \<Rightarrow> notify_args option" where
  "decode_notify_args v =
     (case as_members v of
        None \<Rightarrow> None
      | Some ms \<Rightarrow>
          (case (get_str ''kind'' ms, get_str ''title'' ms, get_str ''body'' ms,
                 get_str ''severity'' ms, get_str ''url'' ms) of
             (Some k, Some t, Some b, Some s, Some u) \<Rightarrow>
               Some \<lparr>na_kind = k, na_title = t, na_body = b, na_severity = s, na_url = u\<rparr>
           | _ \<Rightarrow> None))"

definition notify_args_json :: "notify_args \<Rightarrow> json" where
  "notify_args_json a = JObj
     (str_member ''kind'' (na_kind a) @ str_member ''title'' (na_title a) @
      str_member ''body'' (na_body a) @ opt_member ''severity'' (na_severity a) @
      opt_member ''url'' (na_url a))"

record hello_ack_data =
  ha_protocol_version :: int
  ha_heartbeat_seconds :: int
  ha_output_chunk_bytes :: int
  ha_needs_inventory :: bool
  ha_server_time :: string

definition decode_hello_ack :: "json \<Rightarrow> hello_ack_data option" where
  "decode_hello_ack v =
     (case as_members v of
        None \<Rightarrow> None
      | Some ms \<Rightarrow>
          (case (get_field dec_int ''accepted_protocol_version'' ms 0,
                 get_field dec_int ''heartbeat_seconds'' ms 0,
                 get_field dec_int ''output_chunk_bytes'' ms 0,
                 get_field dec_bool ''needs_inventory'' ms False,
                 get_field dec_time ''server_time'' ms zero_time) of
             (Some p, Some h, Some c, Some n, Some t) \<Rightarrow>
               Some \<lparr>ha_protocol_version = p, ha_heartbeat_seconds = h,
                     ha_output_chunk_bytes = c, ha_needs_inventory = n, ha_server_time = t\<rparr>
           | _ \<Rightarrow> None))"

section \<open>Payloads the agent sends\<close>

record hello_data =
  he_protocol_version :: int
  he_agent_version :: string
  he_machine_id :: string
  he_os :: string
  he_os_version :: string
  he_inventory_checksum :: string

definition hello_json :: "hello_data \<Rightarrow> json" where
  "hello_json h = JObj
     ([(''protocol_version'', JNum (show_int (he_protocol_version h)))] @
      str_member ''agent_version'' (he_agent_version h) @ str_member ''machine_id'' (he_machine_id h) @
      str_member ''os'' (he_os h) @ str_member ''os_version'' (he_os_version h) @
      opt_member ''inventory_checksum'' (he_inventory_checksum h))"

text \<open>\<open>rd_duration\<close> is a \<open>time.Duration\<close>: its JSON, under \<open>duration_ms\<close>, is the count of nanoseconds.\<close>

record result_data =
  rd_exit_code :: int
  rd_duration :: int
  rd_output_hash :: string
  rd_error :: string

definition result_json :: "result_data \<Rightarrow> json" where
  "result_json r = JObj
     ([(''exit_code'', JNum (show_int (rd_exit_code r)))] @
      (if rd_duration r = 0 then [] else [(''duration_ms'', JNum (show_int (rd_duration r)))]) @
      opt_member ''output_hash'' (rd_output_hash r) @ opt_member ''error'' (rd_error r))"

record light_inventory =
  li_os_family :: string
  li_os_major_version :: string
  li_architecture :: string
  li_agent_version :: string
  li_solarbeam_version :: string
  li_solarbeam_status :: string

definition light_inventory_json :: "light_inventory \<Rightarrow> json" where
  "light_inventory_json i = JObj
     (str_member ''os_family'' (li_os_family i) @ str_member ''os_major_version'' (li_os_major_version i) @
      str_member ''architecture'' (li_architecture i) @ str_member ''agent_version'' (li_agent_version i) @
      opt_member ''solarbeam_version'' (li_solarbeam_version i) @
      opt_member ''solarbeam_status'' (li_solarbeam_status i))"

section \<open>The managed inventory shapes\<close>

text \<open>
  The agent only ever sends \<open>InventoryData\<close> in its zero value, from the hello-triggered hook. A nil
  slice is JSON \<open>null\<close>.
\<close>

record os_info =
  os_name :: string
  os_version_text :: string
  os_build :: string
  os_install_date :: string

record disk_info =
  di_model :: string
  di_size_bytes :: int
  di_free_bytes :: int
  di_mount :: string

record hardware_info =
  hw_cpu_model :: string
  hw_cpu_cores :: int
  hw_ram_bytes :: int
  hw_disks :: "disk_info list option"

record nic =
  nic_name :: string
  nic_mac :: string
  nic_ips :: "string list option"
  nic_gateway :: string

record network_info =
  nw_nics :: "nic list option"
  nw_primary_ip :: string

record software_item =
  sw_name :: string
  sw_version :: string
  sw_publisher :: string
  sw_install_date :: string

record boot_entry =
  be_guid :: string
  be_description :: string
  be_is_default :: bool

record inventory_data =
  iv_hostname :: string
  iv_fqdn :: string
  iv_os :: os_info
  iv_hardware :: hardware_info
  iv_network :: network_info
  iv_software :: "software_item list option"
  iv_boot_entries :: "boot_entry list"
  iv_fingerprint :: string
  iv_collected_at :: string
  iv_checksum :: string

definition slice_json :: "('a \<Rightarrow> json) \<Rightarrow> 'a list option \<Rightarrow> json" where
  "slice_json f xs = (case xs of None \<Rightarrow> JNull | Some ys \<Rightarrow> JArr (map f ys))"

definition opt_int :: "string \<Rightarrow> int \<Rightarrow> members" where
  "opt_int f n = (if n = 0 then [] else [(f, JNum (show_int n))])"

definition disk_json :: "disk_info \<Rightarrow> json" where
  "disk_json d = JObj (opt_member ''model'' (di_model d) @
     [(''size_bytes'', JNum (show_int (di_size_bytes d)))] @
     opt_int ''free_bytes'' (di_free_bytes d) @ opt_member ''mount'' (di_mount d))"

definition nic_json :: "nic \<Rightarrow> json" where
  "nic_json n = JObj (str_member ''name'' (nic_name n) @ str_member ''mac'' (nic_mac n) @
     [(''ips'', slice_json JStr (nic_ips n))] @ opt_member ''gateway'' (nic_gateway n))"

definition software_json :: "software_item \<Rightarrow> json" where
  "software_json w = JObj (str_member ''name'' (sw_name w) @ opt_member ''version'' (sw_version w) @
     opt_member ''publisher'' (sw_publisher w) @ str_member ''install_date'' (sw_install_date w))"

definition boot_json :: "boot_entry \<Rightarrow> json" where
  "boot_json b = JObj (str_member ''guid'' (be_guid b) @ str_member ''description'' (be_description b) @
     [(''is_default'', JBool (be_is_default b))])"

definition inventory_json :: "inventory_data \<Rightarrow> json" where
  "inventory_json i = JObj
     (str_member ''hostname'' (iv_hostname i) @ opt_member ''fqdn'' (iv_fqdn i) @
      [(''os'', JObj (str_member ''name'' (os_name (iv_os i)) @
          str_member ''version'' (os_version_text (iv_os i)) @ opt_member ''build'' (os_build (iv_os i)) @
          str_member ''install_date'' (os_install_date (iv_os i)))),
       (''hardware'', JObj (str_member ''cpu_model'' (hw_cpu_model (iv_hardware i)) @
          [(''cpu_cores'', JNum (show_int (hw_cpu_cores (iv_hardware i)))),
           (''ram_bytes'', JNum (show_int (hw_ram_bytes (iv_hardware i)))),
           (''disks'', slice_json disk_json (hw_disks (iv_hardware i)))])),
       (''network'', JObj ([(''nics'', slice_json nic_json (nw_nics (iv_network i)))] @
          opt_member ''primary_ip'' (nw_primary_ip (iv_network i)))),
       (''installed_software'', slice_json software_json (iv_software i))] @
      (if iv_boot_entries i = [] then [] else [(''boot_entries'', JArr (map boot_json (iv_boot_entries i)))]) @
      opt_member ''hardware_fingerprint'' (iv_fingerprint i) @
      str_member ''collected_at'' (iv_collected_at i) @ opt_member ''checksum'' (iv_checksum i))"

definition zero_inventory :: inventory_data where
  "zero_inventory =
     \<lparr>iv_hostname = [], iv_fqdn = [],
      iv_os = \<lparr>os_name = [], os_version_text = [], os_build = [], os_install_date = zero_time\<rparr>,
      iv_hardware = \<lparr>hw_cpu_model = [], hw_cpu_cores = 0, hw_ram_bytes = 0, hw_disks = None\<rparr>,
      iv_network = \<lparr>nw_nics = None, nw_primary_ip = []\<rparr>,
      iv_software = None, iv_boot_entries = [], iv_fingerprint = [],
      iv_collected_at = zero_time, iv_checksum = []\<rparr>"

section \<open>Decoding inverts encoding\<close>

lemma get_field_str_member_last [simp]:
  "get_field dec_str f (str_member g v) cur = Some (if key_matches g f then v else cur)"
  "get_field dec_str f (opt_member g v) cur = Some (if key_matches g f \<and> v \<noteq> [] then v else cur)"
  using get_field_str_member[of f g v "[]" cur] by simp_all

lemma key_matches_lower:
  "\<forall>c \<in> set k. \<not> is_upper c \<Longrightarrow> \<forall>c \<in> set f. \<not> is_upper c \<Longrightarrow> key_matches k f \<longleftrightarrow> k = f"
  by (simp add: key_matches_def to_lower_id_iff[THEN iffD2])

lemmas struct_decode = get_str_def key_matches_lower is_upper_def

lemma start_args_roundtrip [simp]: "decode_start_args (start_args_json a) = Some a"
  by (simp add: decode_start_args_def start_args_json_def struct_decode)

lemma stop_args_roundtrip [simp]: "decode_stop_args (stop_args_json a) = Some a"
  by (simp add: decode_stop_args_def stop_args_json_def struct_decode)

lemma update_args_roundtrip [simp]: "decode_update_args (update_args_json a) = Some a"
  by (simp add: decode_update_args_def update_args_json_def struct_decode)

lemma engine_update_args_roundtrip [simp]: "decode_engine_update_args (engine_update_args_json a) = Some a"
  by (simp add: decode_engine_update_args_def engine_update_args_json_def struct_decode)

lemma notify_args_roundtrip [simp]: "decode_notify_args (notify_args_json a) = Some a"
  by (simp add: decode_notify_args_def notify_args_json_def struct_decode)

lemma command_data_roundtrip [simp]:
  "decode_command_data (command_json \<lparr>cmd_kind = k, cmd_args = Some a\<rparr>) =
     Some \<lparr>cmd_kind = k, cmd_args = Some a\<rparr>"
  by (simp add: decode_command_data_def command_json_def struct_decode dec_raw_def str_member_def)

text \<open>Numbers: what \<open>show_int\<close> writes is a JSON number and reads back as the same integer.\<close>

lemma digits_val_append:
  "digits_val (s @ t) acc = Option.bind (digits_val s acc) (digits_val t)"
  by (induction s arbitrary: acc) auto

lemma digits_val_show_nat: "digits_val (show_nat n) 0 = Some n"
proof (induction n rule: show_nat.induct)
  case (1 n)
  have "is_digit (chr (48 + n mod 10))" by (simp add: is_digit_def)
  with 1 show ?case
    by (subst show_nat.simps) (auto simp: digits_val_append is_digit_def)
qed

lemma show_nat_cons: "\<exists>c t. show_nat n = c # t \<and> is_digit c"
  using show_nat_digits[of "hd (show_nat n)" n] show_nat_nonempty[of n]
  by (cases "show_nat n") (auto simp: is_digit_def)

lemma parse_int_show_int: "in_int64 i \<Longrightarrow> parse_int (show_int i) = Some i"
proof -
  assume i: "in_int64 i"
  obtain c t where ct: "show_nat (nat i) = c # t" "is_digit c" using show_nat_cons by blast
  then have "c \<noteq> CHR ''-''" by (auto simp: is_digit_def)
  with i ct digits_val_show_nat[of "nat i"] digits_val_show_nat[of "nat (- i)"] show ?thesis
    by (auto simp: parse_int_def show_int_def Let_def)
qed

lemma all_digits_digits1: "s \<noteq> [] \<Longrightarrow> \<forall>c \<in> set s. is_digit c \<Longrightarrow> digits1 s = Some (s, [])"
  by (auto simp: digits1_def takeWhile_eq_all_conv dropWhile_eq_Nil_conv)
     (metis takeWhile_eq_all_conv)

lemma int_part_show_nat: "int_part (show_nat n) = Some (show_nat n, [])"
proof -
  obtain c t where ct: "show_nat n = c # t" using show_nat_cons by blast
  have dg: "\<forall>c \<in> set (show_nat n). is_digit c" by (auto simp: is_digit_def dest: show_nat_digits)
  show ?thesis
  proof (cases "c = CHR ''0''")
    case True
    with ct have "n = 0" using show_nat_head[of n] by simp
    then have "show_nat n = [chr 48]" by (subst show_nat.simps) simp
    with True ct show ?thesis by (simp add: int_part_def)
  next
    case False
    then show ?thesis using all_digits_digits1[OF show_nat_nonempty dg] ct by (simp add: int_part_def)
  qed
qed

lemma valid_num_show_int [simp]: "valid_num (show_int i)"
proof -
  obtain c t where ct: "show_nat (nat i) = c # t" "is_digit c" using show_nat_cons by blast
  then have "c \<noteq> CHR ''-''" by (auto simp: is_digit_def)
  with ct int_part_show_nat[of "nat i"] int_part_show_nat[of "nat (- i)"] show ?thesis
    by (simp add: valid_num_def json_num_def show_int_def frac_part_def exp_part_def)
qed

lemma result_json_wf [simp]: "json_wf (result_json r)"
  by (simp add: result_json_def)

lemma hello_json_wf [simp]: "json_wf (hello_json h)"
  by (simp add: hello_json_def)

lemma light_inventory_json_wf [simp]: "json_wf (light_inventory_json i)"
  by (simp add: light_inventory_json_def)

lemma envelope_json_wf: "json_wf (envelope_json e) \<longleftrightarrow> (\<forall>v. env_data e = Some v \<longrightarrow> json_wf v)"
  by (auto simp: envelope_json_def split: option.splits)

text \<open>
  The envelope's JSON reads back as the envelope, whatever the UUID parser does elsewhere, as long
  as it reads back the identifiers the envelope carries.
\<close>

lemma get_field_uuid_members [simp]:
  "get_field (dec_uuid parse) f (str_member g v @ ms) cur =
     (if key_matches g f then Option.bind (parse v) (get_field (dec_uuid parse) f ms)
      else get_field (dec_uuid parse) f ms cur)"
  "get_field (dec_uuid_ptr parse) f (str_member g v @ ms) p =
     (if key_matches g f then Option.bind (parse v) (\<lambda>u. get_field (dec_uuid_ptr parse) f ms (Some u))
      else get_field (dec_uuid_ptr parse) f ms p)"
  "get_field dec_time f (str_member g v @ ms) cur =
     (if key_matches g f then (if rfc3339_ok v then get_field dec_time f ms v else None)
      else get_field dec_time f ms cur)"
  "get_field dec_raw f (str_member g v @ ms) d =
     get_field dec_raw f ms (if key_matches g f then Some (JStr v) else d)"
  by (auto simp: str_member_def dec_raw_def split: option.splits)

lemma envelope_roundtrip:
  assumes "parse (env_id e) = Some (env_id e)"
    and "\<forall>r. env_reply e = Some r \<longrightarrow> parse r = Some r"
    and "rfc3339_ok (env_ts e)"
  shows "decode_envelope parse (envelope_json e) = Some e"
  using assms
  by (cases e; cases "env_reply e"; cases "env_data e")
     (simp_all add: decode_envelope_def envelope_json_def struct_decode dec_raw_def str_member_def)

end
