(* ===== verification/Update.thy ===== *)
theory Update
  imports Verify Proto
begin

text \<open>
  Agent self-update: \<open>agent/internal/update\<close> (\<open>ProductPolicy\<close>, \<open>Manager.validate\<close>,
  \<open>Manager.Update\<close>) and the light agent's \<open>ApplyFn\<close>, \<open>applyLightUpdate\<close> in
  \<open>cmd/lightagent/update_apply_windows.go\<close>. The two callbacks of the manager are arguments, \<open>None\<close>
  when nil; \<open>SessionActiveFn\<close> is a predicate of the world at the moment it is called.
\<close>

section \<open>Policy and validation\<close>

record product_policy =
  pp_product_id :: string
  pp_profile :: string
  pp_signers :: "string list"

definition policy_validate :: "product_policy \<Rightarrow> update_args \<Rightarrow> goerr option" where
  "policy_validate p a =
     (if ua_product_id a \<noteq> pp_product_id p then
        Some (Msg (''update policy: product_id '' @ go_quote (ua_product_id a) @
                   '' not accepted for profile '' @ go_quote (pp_profile p)))
      else if ua_agent_profile a \<noteq> pp_profile p then
        Some (Msg (''update policy: agent_profile '' @ go_quote (ua_agent_profile a) @
                   '' does not match '' @ go_quote (pp_profile p)))
      else if ua_signer_fingerprint a \<notin> set (pp_signers p) then
        Some (Msg (''update policy: signer_fingerprint is not in the trusted set for '' @
                   go_quote (pp_profile p)))
      else None)"

record update_config =
  uc_allowed_host :: string
  uc_download_dir :: path
  uc_policy :: product_policy

definition max_download_bytes :: nat where "max_download_bytes = 200 * 1024 * 1024"

definition update_validate :: "update_config \<Rightarrow> update_args \<Rightarrow> goerr option" where
  "update_validate cfg a =
     (if ua_release_id a = [] \<or> ua_version a = [] \<or> ua_url a = [] \<or> ua_sha256 a = [] \<or>
         ua_agent_profile a = [] \<or> ua_signer_fingerprint a = [] \<or> ua_product_id a = [] then
        Some (Msg (''update args: release_id, version, url, sha256, agent_profile, '' @
                   ''signer_fingerprint and product_id are required''))
      else if \<not> valid_lower_hex256 (ua_sha256 a) then
        Some (Msg ''update args: sha256 must be 64 lowercase hexadecimal characters'')
      else if \<not> valid_lower_hex256 (ua_signer_fingerprint a) then
        Some (Msg ''update args: signer_fingerprint must be 64 lowercase hexadecimal characters'')
      else (case policy_validate (uc_policy cfg) a of
          Some e \<Rightarrow> Some e
        | None \<Rightarrow>
            (case url_parse (ua_url a) of
               Inl e \<Rightarrow> Some (wrapf ''update args: bad url: '' e)
             | Inr u \<Rightarrow>
                 if uc_allowed_host cfg \<noteq> [] \<and> hostname u \<noteq> uc_allowed_host cfg
                 then Some (Msg (''update args: url host '' @ go_quote (hostname u) @ '' not allowed''))
                 else None)))"

text \<open>What the update may be: the specification \<open>update_validate\<close> implements.\<close>

definition acceptable_update :: "update_config \<Rightarrow> update_args \<Rightarrow> bool" where
  "acceptable_update cfg a \<longleftrightarrow>
     ua_release_id a \<noteq> [] \<and> ua_version a \<noteq> [] \<and> ua_agent_profile a \<noteq> [] \<and> ua_product_id a \<noteq> [] \<and>
     length (ua_sha256 a) = 64 \<and> list_all is_lower_hex (ua_sha256 a) \<and>
     length (ua_signer_fingerprint a) = 64 \<and> list_all is_lower_hex (ua_signer_fingerprint a) \<and>
     ua_product_id a = pp_product_id (uc_policy cfg) \<and> ua_agent_profile a = pp_profile (uc_policy cfg) \<and>
     ua_signer_fingerprint a \<in> set (pp_signers (uc_policy cfg)) \<and>
     ua_url a \<noteq> [] \<and>
     (\<exists>u. url_parse (ua_url a) = Inr u \<and> (uc_allowed_host cfg = [] \<or> hostname u = uc_allowed_host cfg))"

lemma valid_hex_iff: "valid_lower_hex256 v \<longleftrightarrow> length v = 64 \<and> list_all is_lower_hex v"
  unfolding valid_lower_hex256_def list_all_iff
  using hex_decode_total[of v] hex_decode_digits[of v] is_lower_hex_iff to_lower_id_iff[of v]
  by (auto simp: list_all_iff)

lemma policy_validate_None:
  "policy_validate p a = None \<longleftrightarrow>
     ua_product_id a = pp_product_id p \<and> ua_agent_profile a = pp_profile p \<and>
     ua_signer_fingerprint a \<in> set (pp_signers p)"
  by (simp add: policy_validate_def)

lemma update_validate_iff: "update_validate cfg a = None \<longleftrightarrow> acceptable_update cfg a"
proof (cases "policy_validate (uc_policy cfg) a")
  case None
  have pol: "ua_product_id a = pp_product_id (uc_policy cfg)" "ua_agent_profile a = pp_profile (uc_policy cfg)"
      "ua_signer_fingerprint a \<in> set (pp_signers (uc_policy cfg))"
    using None by (simp_all add: policy_validate_None)
  show ?thesis
    by (cases "url_parse (ua_url a)")
       (auto simp: update_validate_def acceptable_update_def None pol valid_hex_iff)
next
  case (Some e)
  then have "\<not> (ua_product_id a = pp_product_id (uc_policy cfg) \<and>
      ua_agent_profile a = pp_profile (uc_policy cfg) \<and>
      ua_signer_fingerprint a \<in> set (pp_signers (uc_policy cfg)))"
    by (simp add: policy_validate_None[symmetric])
  with Some show ?thesis by (auto simp: update_validate_def acceptable_update_def)
qed

section \<open>Manager.Update\<close>

definition session_says :: "('w \<Rightarrow> bool) option \<Rightarrow> 'w \<Rightarrow> bool" where
  "session_says session w = (case session of None \<Rightarrow> False | Some active \<Rightarrow> active w)"

definition session_error :: goerr where
  "session_error = Msg (''update: a SolarBeam session is currently active on this machine '' @
     ''(refusing to restart mid-session)'')"

definition update_download :: "update_config \<Rightarrow> update_args \<Rightarrow> download_params" where
  "update_download cfg a =
     \<lparr>dp_url = ua_url a, dp_sha256 = ua_sha256 a, dp_dir = uc_download_dir cfg,
      dp_pattern = ''fleet-agent-update-*.exe'', dp_max_bytes = max_download_bytes\<rparr>"

type_synonym 'w apply_fn = "path \<Rightarrow> string \<Rightarrow> string \<Rightarrow> 'w \<Rightarrow> goerr option \<times> 'w"

definition apply_staged ::
  "hostenv \<Rightarrow> update_args \<Rightarrow> 'a world_scheme apply_fn option \<Rightarrow> ('a world_scheme \<Rightarrow> bool) option \<Rightarrow>
   path \<Rightarrow> 'a world_scheme \<Rightarrow> goerr option \<times> 'a world_scheme" where
  "apply_staged env a apply_fn session p w =
     (case apply_fn of
        None \<Rightarrow> (Some (Msg ''update: no ApplyFn configured''), snd (os_remove env p w))
      | Some f \<Rightarrow>
          if session_says session w then (Some session_error, snd (os_remove env p w))
          else (case f p (ua_version a) (ua_signer_fingerprint a) w of
              (Some e, w1) \<Rightarrow> (Some (wrapf ''apply: '' e), snd (os_remove env p w1))
            | (None, w1) \<Rightarrow> (None, w1)))"

definition update_body ::
  "hostenv \<Rightarrow> update_config \<Rightarrow> 'a world_scheme apply_fn option \<Rightarrow> ('a world_scheme \<Rightarrow> bool) option \<Rightarrow>
   update_args \<Rightarrow> 'a world_scheme \<Rightarrow> goerr option \<times> 'a world_scheme" where
  "update_body env cfg apply_fn session a w =
     (case update_validate cfg a of
        Some e \<Rightarrow> (Some e, w)
      | None \<Rightarrow>
          if session_says session w then (Some session_error, w)
          else (case download_verified env (update_download cfg a) w of
              (Inl e, w1) \<Rightarrow> (Some e, w1)
            | (Inr p, w1) \<Rightarrow> apply_staged env a apply_fn session p w1))"

definition update_busy :: goerr where "update_busy = Msg ''update already in progress''"

definition manager_update ::
  "hostenv \<Rightarrow> update_config \<Rightarrow> 'a world_scheme apply_fn option \<Rightarrow> ('a world_scheme \<Rightarrow> bool) option \<Rightarrow>
   update_args \<Rightarrow> bool \<times> 'a world_scheme \<Rightarrow> goerr option \<times> bool \<times> 'a world_scheme" where
  "manager_update env cfg apply_fn session a fw =
     (case try_begin (fst fw) of
        (False, fl) \<Rightarrow> (Some update_busy, fl, snd fw)
      | (True, fl) \<Rightarrow>
          (case update_body env cfg apply_fn session a (snd fw) of
             (r, w1) \<Rightarrow> (r, end_flight fl, w1)))"

text \<open>It is the single-flight bracket around its body, and the body a client of the download.\<close>

lemma manager_update_bracket:
  "manager_update env cfg f session a fw = sf.bracket (update_body env cfg f session a) update_busy fw"
  by (simp add: manager_update_def sf.bracket_def)

lemma update_body_fetch:
  "acceptable_update cfg a \<Longrightarrow> \<not> session_says session w \<Longrightarrow>
     update_body env cfg f session a w =
       dl.fetch_then env (update_download cfg a) (apply_staged env a f session) w"
  by (simp add: update_body_def dl.fetch_then_def update_validate_iff[THEN iffD2])

lemma apply_staged_None:
  "apply_staged env a f session p w = (None, w') \<Longrightarrow>
     \<exists>g. f = Some g \<and> \<not> session_says session w \<and>
       g p (ua_version a) (ua_signer_fingerprint a) w = (None, w')"
  by (auto simp: apply_staged_def split: option.splits if_splits prod.splits)

lemma manager_update_success:
  assumes "manager_update env cfg f session a (fl, w) = (None, fl', w')"
  shows "acceptable_update cfg a \<and> \<not> fl \<and> \<not> fl' \<and> \<not> session_says session w \<and>
    (\<exists>g p c w1. f = Some g \<and> download_verified env (update_download cfg a) w = (Inr p, w1) \<and>
       w_fs w p = None \<and> w_fs w1 p = Some (File c) \<and>
       hex_encode (he_sha256 env c) = ua_sha256 a \<and> length c \<le> max_download_bytes \<and>
       (\<forall>q. w_fs w q \<noteq> None \<longrightarrow> w_fs w1 q = w_fs w q) \<and> \<not> session_says session w1 \<and>
       g p (ua_version a) (ua_signer_fingerprint a) w1 = (None, w'))"
proof -
  have free: "\<not> fl"
    using assms sf.bracket_held[of fl "update_body env cfg f session a" update_busy w]
    by (auto simp: manager_update_bracket)
  obtain g' where br: "sf.bracket (update_body env cfg f session a) update_busy (fl, w) =
      (fst (update_body env cfg f session a w), g', snd (update_body env cfg f session a w))" "\<not> g'"
    using sf.bracket_free[OF free, of "update_body env cfg f session a" update_busy w] by blast
  then have body: "update_body env cfg f session a w = (None, w')" and fl': "\<not> fl'"
    using assms by (simp_all add: manager_update_bracket prod_eq_iff)
  have acc: "acceptable_update cfg a" and idle: "\<not> session_says session w"
    using body update_validate_iff[of cfg a]
    by (simp_all add: update_body_def split: option.splits if_splits)
  from dl.fetch_then_sound[OF body[unfolded update_body_fetch[OF acc idle]]]
  obtain p c w1 where dl: "download_verified env (update_download cfg a) w = (Inr p, w1)" and st: "w_fs w p = None" "w_fs w1 p = Some (File c)"
      "download_ok env (update_download cfg a) c" "\<forall>q. w_fs w q \<noteq> None \<longrightarrow> w_fs w1 q = w_fs w q"
      "apply_staged env a f session p w1 = (None, w')" by blast
  obtain g where g: "f = Some g" "\<not> session_says session w1"
      "g p (ua_version a) (ua_signer_fingerprint a) w1 = (None, w')"
    using apply_staged_None[OF st(5)] by blast
  have "hex_encode (he_sha256 env c) = ua_sha256 a" "length c \<le> max_download_bytes"
    using st(3) by (simp_all add: download_ok_def update_download_def)
  with acc idle free fl' st(1,2,4) dl g show ?thesis by blast
qed


text \<open>
  A refused update touches nothing: while another is in flight, with arguments that fail any
  check, or with a session active, \<open>Update\<close> returns an error with the world exactly as it was, no
  request sent and nothing staged; an update in flight keeps its guard, otherwise the guard is free.
\<close>

theorem update_refusal_is_pure:
  assumes "fl \<or> \<not> acceptable_update cfg a \<or> session_says session w"
  shows "\<exists>e. manager_update env cfg f session a (fl, w) = (Some e, fl, w)"
proof (cases fl)
  case True
  then show ?thesis
    using sf.bracket_held[of fl "update_body env cfg f session a" update_busy w]
    by (simp add: manager_update_bracket)
next
  case False
  then have "\<exists>e. update_body env cfg f session a w = (Some e, w)"
    using assms update_validate_iff[of cfg a] by (cases "update_validate cfg a") (auto simp: update_body_def)
  with False show ?thesis by (auto simp: manager_update_def try_begin_def end_flight_def)
qed

definition sample_policy :: product_policy where
  "sample_policy = \<lparr>pp_product_id = ''p'', pp_profile = ''b'', pp_signers = [replicate 64 (CHR ''a'')]\<rparr>"

definition sample_update_cfg :: update_config where
  "sample_update_cfg = \<lparr>uc_allowed_host = ''h'', uc_download_dir = ''D'', uc_policy = sample_policy\<rparr>"

definition sample_update_args :: update_args where
  "sample_update_args =
     \<lparr>ua_release_id = ''r'', ua_version = ''2'', ua_url = ''https://h/a'',
      ua_sha256 = hex_encode (toy_sha ''MZ''), ua_agent_profile = ''b'',
      ua_signer_fingerprint = replicate 64 (CHR ''a''), ua_product_id = ''p''\<rparr>"

lemma sample_update_acceptable: "acceptable_update sample_update_cfg sample_update_args"
proof -
  have "hostname \<lparr>pu_scheme = ''https'', pu_opaque = [], pu_host = ''h''\<rparr> = ''h''" by code_simp
  moreover have "is_lower_hex (CHR ''a'')" by (simp add: is_lower_hex_def)
  moreover have "hex_encode (toy_sha ''MZ'') \<noteq> []" by (simp flip: length_greater_0_conv)
  ultimately show ?thesis
    by (auto simp: acceptable_update_def sample_update_cfg_def sample_update_args_def sample_policy_def
        sample_url list_all_iff dest: hex_encode_lower)
qed

lemma sample_update_runs:
  "manager_update sample_net sample_update_cfg (Some (\<lambda>p v f w. (None, w))) None sample_update_args
     (False, empty_world) =
   (None, False, \<lparr>w_fs = (\<lambda>p. None)(''D'' @ [CHR 0x5C] @ ''fleet-agent-update-*.exe'' \<mapsto> File ''MZ''),
     w_tick = 5, w_log = []\<rparr>)"
proof -
  have "update_validate sample_update_cfg sample_update_args = None"
    using sample_update_acceptable by (simp add: update_validate_iff)
  then have "update_body sample_net sample_update_cfg (Some (\<lambda>p v f w. (None, w))) None sample_update_args empty_world =
      (None, \<lparr>w_fs = (\<lambda>p. None)(''D'' @ [CHR 0x5C] @ ''fleet-agent-update-*.exe'' \<mapsto> File ''MZ''),
        w_tick = 5, w_log = []\<rparr>)"
    by (simp add: update_body_def session_says_def download_verified_def http_get_def update_download_def
        sample_update_cfg_def sample_update_args_def sample_url sample_net_def quiet_env_def
        empty_world_def host_calls Let_def verify_sha256_def tick_def put_def toy_sha_def
        max_download_bytes_def apply_staged_def)
  then show ?thesis by (simp add: manager_update_def try_begin_def end_flight_def)
qed


theorem update_refusal_is_pure_witness:
  "\<exists>e. manager_update sample_net sample_update_cfg (Some (\<lambda>p v f w. (None, w))) (Some (\<lambda>w. True))
     sample_update_args (False, empty_world) = (Some e, False, empty_world)"
  by (rule update_refusal_is_pure) (simp add: session_says_def)

section \<open>Applying the light agent's update\<close>

text \<open>
  \<open>applyLightUpdate\<close>. \<open>exe\<close> is the result of \<open>os.Executable\<close>, \<open>authenticode\<close> is
  \<open>verify.VerifyAuthenticode\<close> with the Windows calls of this machine. The delayed exit runs in a
  goroutine; here it is recorded.
\<close>

definition outcome_error :: "goerr option outcome \<Rightarrow> goerr option" where
  "outcome_error r = (case r of Returns e \<Rightarrow> e | Panics m \<Rightarrow> Some (Msg m))"

definition old_path :: "path \<Rightarrow> path" where
  "old_path exe = exe @ ''.old''"

definition apply_light_update ::
  "hostenv \<Rightarrow> trust_calls \<Rightarrow> path res \<Rightarrow> 'a world_scheme apply_fn" where
  "apply_light_update env tc executable downloaded version fp w =
     (case executable of
        Inl e \<Rightarrow> (Some e, w)
      | Inr exe \<Rightarrow>
          (case outcome_error (verify_authenticode (he_sha256 env) tc downloaded fp) of
             Some e \<Rightarrow> (Some (wrapf ''authenticode: '' e), w)
           | None \<Rightarrow>
               (case os_rename env exe (old_path exe) (snd (os_remove env (old_path exe) w)) of
                  (Some e, w2) \<Rightarrow> (Some (wrapf ''rename running exe: '' e), w2)
                | (None, w2) \<Rightarrow>
                    (case os_rename env downloaded exe w2 of
                       (Some e, w3) \<Rightarrow>
                         (Some (wrapf ''move new exe into place: '' e),
                          snd (os_rename env (old_path exe) exe w3))
                     | (None, w3) \<Rightarrow>
                         (None, log_effect ExitScheduled (snd (os_remove env (old_path exe) w3)))))))"

lemma old_path_neq [simp]: "old_path p \<noteq> p" "p \<noteq> old_path p"
  by (simp_all add: old_path_def)

lemma apply_light_update_result:
  assumes "apply_light_update env tc (Inr exe) dl ver fp w = (r, w')"
    and "w_fs w exe = Some (File old)" "w_fs w dl = Some (File new)"
    and "dl \<noteq> exe" "dl \<noteq> old_path exe"
  shows "(r = None \<longrightarrow> w_fs w' exe = Some (File new) \<and> w_fs w' dl = None \<and>
      verify_authenticode (he_sha256 env) tc dl fp = Returns None \<and> w_log w' = w_log w @ [ExitScheduled]) \<and>
    (r \<noteq> None \<longrightarrow> w_log w' = w_log w \<and>
      (w_fs w' exe = Some (File old) \<or>
       w_fs w' (old_path exe) = Some (File old) \<and> he_fault env (w_tick w' - 1) \<noteq> None)) \<and>
    (\<forall>q. q \<notin> {exe, old_path exe, dl} \<longrightarrow> w_fs w' q = w_fs w q)"
proof -
  let ?auth = "outcome_error (verify_authenticode (he_sha256 env) tc dl fp)"
  show ?thesis
  proof (cases ?auth)
    case (Some e)
    then show ?thesis using assms(1,2) by (auto simp: apply_light_update_def)
  next
    case None
    then have pass: "verify_authenticode (he_sha256 env) tc dl fp = Returns None"
      by (auto simp: outcome_error_def split: outcome.splits)
    obtain r1 w1 where rm: "os_remove env (old_path exe) w = (r1, w1)" by force
    have fs1: "w_fs w1 q = w_fs w q" if "q \<noteq> old_path exe" for q using os_remove_frame[OF rm that] .
    have log1: "w_log w1 = w_log w" using os_remove_log[OF rm] .
    obtain r2 w2 where mv: "os_rename env exe (old_path exe) w1 = (r2, w2)" by force
    have log2: "w_log w2 = w_log w" using os_rename_log[OF mv] log1 by simp
    show ?thesis
    proof (cases r2)
      case (Some e)
      then have "(r, w') = (Some (wrapf ''rename running exe: '' e), w2)"
        using assms(1) None rm mv by (simp add: apply_light_update_def)
      then show ?thesis using os_rename_Some[of env exe "old_path exe" w1 e w2] mv Some fs1 log2 assms(2) by auto
    next
      case r2: None
      have fs2: "w_fs w2 = (w_fs w1)(exe := None, old_path exe \<mapsto> File old)"
        using os_rename_None[of env exe "old_path exe" w1 w2] mv r2 fs1[of exe] assms(2) by auto
      obtain r3 w3 where mv2: "os_rename env dl exe w2 = (r3, w3)" by force
      have log3: "w_log w3 = w_log w" using os_rename_log[OF mv2] log2 by simp
      show ?thesis
      proof (cases r3)
        case (Some e)
        obtain r4 w4 where revert: "os_rename env (old_path exe) exe w3 = (r4, w4)" by force
        have run: "r = Some (wrapf ''move new exe into place: '' e)" "w' = w4"
          using assms(1) None rm mv r2 mv2 Some revert by (simp_all add: apply_light_update_def)
        have fs3: "w_fs w3 = w_fs w2" using os_rename_Some mv2 Some by blast
        have log4: "w_log w4 = w_log w" using os_rename_log[OF revert] log3 by simp
        show ?thesis
        proof (cases r4)
          case None
          then show ?thesis
            using os_rename_None[of env "old_path exe" exe w3 w4] revert run fs1 fs2 fs3 log4 by auto
        next
          case r4: (Some e2)
          have "he_fault env (w_tick w3) \<noteq> None \<and> w_tick w4 = Suc (w_tick w3)"
            using revert r4 fs2 fs3 by (auto simp: os_rename_def split: option.splits prod.splits)
          moreover have "w_fs w4 = w_fs w2" using os_rename_Some revert r4 fs3 by metis
          ultimately show ?thesis using run fs1 fs2 log4 by auto
        qed
      next
        case r3: None
        obtain r5 w5 where rm2: "os_remove env (old_path exe) w3 = (r5, w5)" by force
        have run: "r = None" "w' = log_effect ExitScheduled w5"
          using assms(1) None rm mv r2 mv2 r3 rm2 by (simp_all add: apply_light_update_def)
        have fs3: "w_fs w3 = (w_fs w2)(dl := None, exe \<mapsto> File new)"
          using os_rename_None[of env dl exe w2 w3] mv2 r3 fs1[of dl] fs2 assms(3-5) by auto
        have fs5: "w_fs w5 q = w_fs w3 q" if "q \<noteq> old_path exe" for q using os_remove_frame[OF rm2 that] .
        have "w_log w5 = w_log w" using os_remove_log[OF rm2] log3 by simp
        then show ?thesis using run pass fs5 fs3 fs2 fs1 assms(4,5) by auto
      qed
    qed
  qed
qed

text \<open>
  C15. The swap never loses the agent. Whatever fails, wherever: if \<open>applyLightUpdate\<close> reports
  success, the new content is at the executable's path, it had passed the Authenticode pin of this
  update's signer, and the exit is scheduled; if it reports an error, no exit is scheduled and the
  old content is at the executable's path, or, when the rename back failed as well, still beside it
  under \<open>.old\<close>. Nothing but the executable, its \<open>.old\<close> and the download changes.
\<close>

theorem apply_swaps_or_keeps:
  assumes "apply_light_update env tc (Inr exe) dl ver fp w = (r, w')"
    and "w_fs w exe = Some (File old)" "w_fs w dl = Some (File new)"
    and "dl \<noteq> exe" "dl \<noteq> old_path exe"
  shows "(r = None \<longrightarrow> w_fs w' exe = Some (File new) \<and> w_fs w' dl = None \<and>
      verify_authenticode (he_sha256 env) tc dl fp = Returns None \<and> w_log w' = w_log w @ [ExitScheduled]) \<and>
    (r \<noteq> None \<longrightarrow> w_log w' = w_log w \<and>
      (w_fs w' exe = Some (File old) \<or>
       w_fs w' (old_path exe) = Some (File old) \<and> he_fault env (w_tick w' - 1) \<noteq> None)) \<and>
    (\<forall>q. q \<notin> {exe, old_path exe, dl} \<longrightarrow> w_fs w' q = w_fs w q)"
  using apply_light_update_result[OF assms] .

definition swap_world :: world where
  "swap_world = empty_world\<lparr>w_fs := [''a.exe'' \<mapsto> File ''v1'', ''d.exe'' \<mapsto> File ''v2'']\<rparr>"

definition sample_env :: hostenv where
  "sample_env = quiet_env\<lparr>he_sha256 := toy_sha\<rparr>"

lemma sample_authenticode: "\<not> CHR 0x00 \<in> set p \<Longrightarrow>
    verify_authenticode toy_sha (sample_trust None) p (hex_encode (toy_sha ''der'')) = Returns None"
  by (simp add: verify_authenticode_def verify_authenticode_ops_def verify_trust_def sample_trust_def
      signer_certificate_der_def crypt_msg_signer_cert_info_def signer_pin)

theorem apply_swaps_or_keeps_witness:
  "\<exists>w'. apply_light_update sample_env (sample_trust None) (Inr ''a.exe'') ''d.exe'' ''2''
       (hex_encode (toy_sha ''der'')) swap_world = (None, w') \<and>
     w_fs w' ''a.exe'' = Some (File ''v2'') \<and> w_fs w' ''d.exe'' = None \<and> w_log w' = [ExitScheduled]"
proof -
  obtain w' where run: "apply_light_update sample_env (sample_trust None) (Inr ''a.exe'') ''d.exe'' ''2''
       (hex_encode (toy_sha ''der'')) swap_world = (None, w')"
    by (simp add: apply_light_update_def sample_env_def sample_authenticode outcome_error_def host_calls
        swap_world_def empty_world_def old_path_def tick_def put_def drop_path_def log_effect_def quiet_env_def)
  show ?thesis
    using apply_swaps_or_keeps[OF run, of "''v1''" "''v2''"] run
    by (simp add: swap_world_def empty_world_def old_path_def)
qed

section \<open>The whole self-update\<close>

lemma download_verified_temp:
  "download_verified env dp w = (Inr p, w') \<Longrightarrow> \<exists>n d t. p = he_temp_name env n d t"
  by (auto simp: download_verified_def discard_def os_create_temp_def Let_def
      split: sum.splits prod.splits if_splits option.splits)

lemma self_update_effect:
  assumes "\<forall>s. length (he_sha256 env s) = 32" "\<forall>n d t. he_temp_name env n d t \<noteq> old_path exe"
    and "w_fs w exe = Some (File old)"
    and "manager_update env cfg (Some (apply_light_update env tc (Inr exe))) session a (fl, w) = (None, fl', w')"
  shows "(\<exists>new. w_fs w' exe = Some (File new) \<and> hex_encode (he_sha256 env new) = ua_sha256 a) \<and>
    (\<exists>p info der. tc_find_cert tc p info = Inr der \<and>
       hex_encode (he_sha256 env der) \<in> set (pp_signers (uc_policy cfg))) \<and>
    ua_product_id a = pp_product_id (uc_policy cfg) \<and> ua_agent_profile a = pp_profile (uc_policy cfg) \<and>
    \<not> session_says session w \<and> ExitScheduled \<in> set (w_log w')"
proof -
  obtain p c w1 where acc: "acceptable_update cfg a" and idle: "\<not> session_says session w"
    and dl: "download_verified env (update_download cfg a) w = (Inr p, w1)"
    and fs: "w_fs w p = None" "w_fs w1 p = Some (File c)" "w_fs w1 exe = Some (File old)"
    and sha: "hex_encode (he_sha256 env c) = ua_sha256 a"
    and run: "apply_light_update env tc (Inr exe) p (ua_version a) (ua_signer_fingerprint a) w1 = (None, w')"
    using manager_update_success[OF assms(4)] assms(3) by auto
  have "p \<noteq> exe" "p \<noteq> old_path exe"
    using fs(1) assms(2,3) download_verified_temp[OF dl] by auto
  note res = apply_light_update_result[OF run fs(3,2) this]
  then have "verify_authenticode (he_sha256 env) tc p (ua_signer_fingerprint a) = Returns None" by blast
  then obtain info der where "tc_find_cert tc p info = Inr der"
      "ua_signer_fingerprint a = hex_encode (he_sha256 env der)"
    using verify_authenticode_pin[OF assms(1)] by blast
  moreover have "ua_signer_fingerprint a \<in> set (pp_signers (uc_policy cfg))"
      "ua_product_id a = pp_product_id (uc_policy cfg)" "ua_agent_profile a = pp_profile (uc_policy cfg)"
    using acc by (simp_all add: acceptable_update_def)
  ultimately show ?thesis using res sha idle by auto
qed


definition swap_args :: update_args where
  "swap_args = sample_update_args\<lparr>ua_signer_fingerprint := hex_encode (toy_sha ''der'')\<rparr>"

definition swap_cfg :: update_config where
  "swap_cfg = sample_update_cfg\<lparr>uc_policy := sample_policy\<lparr>pp_signers := [hex_encode (toy_sha ''der'')]\<rparr>\<rparr>"

definition old_world :: world where
  "old_world = empty_world\<lparr>w_fs := [''a.exe'' \<mapsto> File ''v1'']\<rparr>"

lemma swap_acceptable: "acceptable_update swap_cfg swap_args"
proof -
  have "hostname \<lparr>pu_scheme = ''https'', pu_opaque = [], pu_host = ''h''\<rparr> = ''h''" by code_simp
  moreover have "hex_encode (toy_sha ''MZ'') \<noteq> []" by (simp flip: length_greater_0_conv)
  ultimately show ?thesis
    by (auto simp: acceptable_update_def swap_cfg_def swap_args_def sample_update_cfg_def
        sample_update_args_def sample_policy_def sample_url list_all_iff dest: hex_encode_lower)
qed

lemma swap_download_runs:
  "download_verified sample_net (update_download swap_cfg swap_args) old_world =
     (Inr (''D'' @ [CHR 0x5C] @ ''fleet-agent-update-*.exe''),
      old_world\<lparr>w_fs := (w_fs old_world)(''D'' @ [CHR 0x5C] @ ''fleet-agent-update-*.exe'' \<mapsto> File ''MZ''),
                w_tick := 5\<rparr>)"
  by (simp add: download_verified_def http_get_def update_download_def swap_cfg_def swap_args_def
      sample_update_cfg_def sample_update_args_def sample_url sample_net_def quiet_env_def
      old_world_def empty_world_def host_calls Let_def verify_sha256_def tick_def put_def toy_sha_def
      max_download_bytes_def)

lemma swap_runs:
  "\<exists>w'. manager_update sample_net swap_cfg (Some (apply_light_update sample_net (sample_trust None) (Inr ''a.exe'')))
     None swap_args (False, old_world) = (None, False, w')"
proof -
  have val: "update_validate swap_cfg swap_args = None" using swap_acceptable by (simp add: update_validate_iff)
  have fields: "ua_version swap_args = ''2''" "ua_signer_fingerprint swap_args = hex_encode (toy_sha ''der'')"
    by (simp_all add: swap_args_def sample_update_args_def)
  have env: "he_sha256 sample_net = toy_sha" by (simp add: sample_net_def)
  obtain w' where "apply_light_update sample_net (sample_trust None) (Inr ''a.exe'')
      (''D'' @ [CHR 0x5C] @ ''fleet-agent-update-*.exe'') ''2'' (hex_encode (toy_sha ''der''))
      (old_world\<lparr>w_fs := (w_fs old_world)(''D'' @ [CHR 0x5C] @ ''fleet-agent-update-*.exe'' \<mapsto> File ''MZ''),
                w_tick := 5\<rparr>) = (None, w')"
    by (simp add: apply_light_update_def env sample_authenticode outcome_error_def)
       (simp add: host_calls sample_net_def quiet_env_def old_world_def empty_world_def old_path_def
        tick_def put_def drop_path_def log_effect_def)
  then have "update_body sample_net swap_cfg (Some (apply_light_update sample_net (sample_trust None) (Inr ''a.exe'')))
      None swap_args old_world = (None, w')"
    using fields by (simp add: update_body_def val session_says_def swap_download_runs apply_staged_def)
  then show ?thesis by (simp add: manager_update_def try_begin_def end_flight_def)
qed


end
