(* ===== verification/GoPath.thy ===== *)
theory GoPath
  imports GoText "HOL-Library.Sublist"
begin

text \<open>
  Go's \<open>path/filepath\<close> on Windows, as far as the agent uses it: \<open>Clean\<close>, \<open>Join\<close>, \<open>Dir\<close> and
  \<open>Base\<close>. Both separators are recognised and the backslash is written. The only volume name
  modelled is a drive letter with its colon; UNC and device paths, and the rewriting of relative
  paths that would begin with a drive or with \<open>\??\\<close>, are not.
\<close>

section \<open>Elements\<close>

definition is_sep :: "char \<Rightarrow> bool" where
  "is_sep c \<longleftrightarrow> c = CHR 0x5C \<or> c = CHR ''/''"

fun split_path :: "string \<Rightarrow> string list" where
  "split_path [] = [[]]"
| "split_path (c # s) =
     (if is_sep c then [] # split_path s
      else (case split_path s of [] \<Rightarrow> [[c]] | e # es \<Rightarrow> (c # e) # es))"

fun join_elems :: "string list \<Rightarrow> string" where
  "join_elems [] = []"
| "join_elems [e] = e"
| "join_elems (e # f # es) = e @ CHR 0x5C # join_elems (f # es)"

definition volume_len :: "string \<Rightarrow> nat" where
  "volume_len p =
     (case p of
        c # d # s \<Rightarrow>
          if d = CHR '':'' \<and> (is_upper c \<or> 97 \<le> ord c \<and> ord c \<le> 122) then 2 else 0
      | _ \<Rightarrow> 0)"

definition dot :: string where "dot = ''.''"
definition dotdot :: string where "dotdot = ''..''"

text \<open>
  The elements that survive cleaning: empty ones and dots go, a dotdot removes the element before
  it, and at the root of a rooted path it goes too. The first argument is the reversed output.
\<close>

fun clean_elems :: "bool \<Rightarrow> string list \<Rightarrow> string list \<Rightarrow> string list" where
  "clean_elems rooted acc [] = rev acc"
| "clean_elems rooted acc (e # es) =
     (if e = [] \<or> e = dot then clean_elems rooted acc es
      else if e = dotdot then
        (case acc of
           [] \<Rightarrow> clean_elems rooted (if rooted then [] else [dotdot]) es
         | a # as \<Rightarrow> if a = dotdot then clean_elems rooted (dotdot # acc) es
                     else clean_elems rooted as es)
      else clean_elems rooted (e # acc) es)"

definition path_clean :: "path \<Rightarrow> path" where
  "path_clean p =
     (let v = take (volume_len p) p; r = drop (volume_len p) p;
          rooted = (r \<noteq> [] \<and> is_sep (hd r));
          body = (if rooted then [CHR 0x5C] else []) @ join_elems (clean_elems rooted [] (split_path r))
      in v @ (if body = [] then dot else body))"

definition path_join :: "path \<Rightarrow> path \<Rightarrow> path" where
  "path_join a b =
     (if a = [] then (if b = [] then [] else path_clean b)
      else if is_sep (last a) then path_clean (a @ dropWhile is_sep b)
      else if last a = CHR '':'' then path_clean (a @ b)
      else path_clean (a @ CHR 0x5C # b))"

definition path_dir :: "path \<Rightarrow> path" where
  "path_dir p =
     (let v = take (volume_len p) p; r = drop (volume_len p) p
      in v @ path_clean (rev (dropWhile (\<lambda>c. \<not> is_sep c) (rev r))))"

definition path_base :: "path \<Rightarrow> path" where
  "path_base p =
     (if p = [] then dot
      else let s = rev (dropWhile is_sep (rev p));
               r = drop (volume_len s) s;
               b = rev (takeWhile (\<lambda>c. \<not> is_sep c) (rev r))
           in if b = [] then [CHR 0x5C] else b)"

section \<open>Cleaned paths\<close>

text \<open>Splitting and joining.\<close>

lemma split_path_nonempty [simp]: "split_path s \<noteq> []"
  by (induction s) (auto split: list.splits)

lemma split_path_no_sep: "e \<in> set (split_path s) \<Longrightarrow> c \<in> set e \<Longrightarrow> \<not> is_sep c"
  by (induction s arbitrary: e) (fastforce split: if_splits list.splits)+

lemma split_path_elem: "\<forall>c \<in> set e. \<not> is_sep c \<Longrightarrow> split_path e = [e]"
  by (induction e) auto

lemma split_path_append:
  "\<forall>c \<in> set e. \<not> is_sep c \<Longrightarrow> split_path (e @ CHR 0x5C # s) = e # split_path s"
  by (induction e) (auto simp: is_sep_def)

lemma split_join_elems:
  "es \<noteq> [] \<Longrightarrow> \<forall>e \<in> set es. \<forall>c \<in> set e. \<not> is_sep c \<Longrightarrow> split_path (join_elems es) = es"
  by (induction es rule: join_elems.induct) (auto simp: split_path_elem split_path_append)

text \<open>Elements that cleaning keeps as they are.\<close>

definition plain_elem :: "string \<Rightarrow> bool" where
  "plain_elem e \<longleftrightarrow> e \<noteq> [] \<and> e \<noteq> dot \<and> e \<noteq> dotdot \<and> (\<forall>c \<in> set e. \<not> is_sep c)"

lemma clean_elems_rooted:
  "\<forall>e \<in> set acc. plain_elem e \<Longrightarrow> \<forall>e \<in> set es. \<forall>c \<in> set e. \<not> is_sep c \<Longrightarrow>
     \<forall>e \<in> set (clean_elems True acc es). plain_elem e"
proof (induction es arbitrary: acc)
  case (Cons e es)
  have e: "\<forall>c \<in> set e. \<not> is_sep c" using Cons.prems(2) by simp
  consider "e = [] \<or> e = dot" | "e = dotdot" | "plain_elem e" "e \<noteq> []" "e \<noteq> dot" "e \<noteq> dotdot"
    using e by (auto simp: plain_elem_def)
  then show ?case
  proof cases
    case 1
    then have "clean_elems True acc (e # es) = clean_elems True acc es" by simp
    then show ?thesis using Cons.IH[of acc] Cons.prems by simp
  next
    case 2
    have nd: "a \<noteq> dotdot" if "a \<in> set acc" for a using Cons.prems(1) that by (auto simp: plain_elem_def)
    have "dotdot \<noteq> [] \<and> dotdot \<noteq> dot" by (simp add: dotdot_def dot_def)
    then have "clean_elems True acc (e # es) = clean_elems True (tl acc) es"
      using 2 nd by (cases acc) auto
    moreover have "\<forall>a \<in> set (tl acc). plain_elem a" using Cons.prems(1) by (cases acc) auto
    ultimately show ?thesis using Cons.IH[of "tl acc"] Cons.prems(2) by simp
  next
    case 3
    then have "clean_elems True acc (e # es) = clean_elems True (e # acc) es" by simp
    then show ?thesis using Cons.IH[of "e # acc"] Cons.prems 3(1) by simp
  qed
qed auto

lemma clean_elems_plain: "\<forall>e \<in> set es. plain_elem e \<Longrightarrow> clean_elems r acc es = rev acc @ es"
  by (induction es arbitrary: acc) (auto simp: plain_elem_def)

text \<open>
  A cleaned rooted path on a drive is the drive, a backslash, and plain elements: no dot, no dotdot,
  no empty element is left in it.
\<close>

definition canonical :: "string \<Rightarrow> string list \<Rightarrow> path \<Rightarrow> bool" where
  "canonical v es p \<longleftrightarrow> length v = 2 \<and> volume_len v = 2 \<and> (\<forall>e \<in> set es. plain_elem e) \<and>
     p = v @ CHR 0x5C # join_elems es"

lemma volume_len_append: "length v = 2 \<Longrightarrow> volume_len v = 2 \<Longrightarrow> volume_len (v @ s) = 2"
  by (cases v; cases "tl v") (auto simp: volume_len_def split: if_splits)

lemma clean_canonical:
  assumes "length v = 2" "volume_len v = 2" "is_sep c"
  shows "\<exists>es. canonical v es (path_clean (v @ c # s))"
proof -
  let ?es = "clean_elems True [] (split_path (c # s))"
  have "\<forall>e \<in> set ?es. plain_elem e" 
    using split_path_no_sep by (intro clean_elems_rooted ballI) (simp, blast)
  then have "canonical v ?es (path_clean (v @ c # s))"
    using assms volume_len_append[of v "c # s"] by (simp add: canonical_def path_clean_def Let_def del: split_path.simps)
  then show ?thesis ..
qed

lemma join_canonical:
  assumes "canonical v ds d"
  shows "\<exists>es. canonical v es (path_join d name)"
proof -
  have v: "length v = 2" "volume_len v = 2" and d: "d = v @ CHR 0x5C # join_elems ds"
    using assms by (simp_all add: canonical_def)
  have sep: "is_sep (CHR 0x5C)" by (simp add: is_sep_def)
  have "\<exists>s. path_join d name = path_clean (v @ CHR 0x5C # s)"
    by (simp add: path_join_def d) (metis append.assoc append_Cons)
  with clean_canonical[OF v sep] show ?thesis by metis
qed

lemma split_join_append:
  "ds \<noteq> [] \<Longrightarrow> \<forall>e \<in> set ds. plain_elem e \<Longrightarrow> split_path (join_elems ds @ CHR 0x5C # t) = ds @ split_path t"
  by (induction ds rule: join_elems.induct) (auto simp: split_path_append plain_elem_def)

lemma split_join_plain:
  "ds \<noteq> [] \<Longrightarrow> \<forall>e \<in> set ds. plain_elem e \<Longrightarrow> split_path (join_elems ds) = ds"
  by (rule split_join_elems) (auto simp: plain_elem_def)

text \<open>The prefix test on cleaned paths is a test on elements: what passes lies below, by elements.\<close>

lemma prefix_elements:
  assumes "canonical v ds d" "ds \<noteq> []" "canonical v es p" "has_prefix p (d @ [CHR 0x5C])"
  shows "\<exists>fs. fs \<noteq> [] \<and> (\<forall>e \<in> set fs. plain_elem e) \<and> es = ds @ fs"
proof -
  obtain t where "p = d @ [CHR 0x5C] @ t" using assms(4) by (auto simp: has_prefix_iff)
  then have eq: "join_elems es = join_elems ds @ CHR 0x5C # t"
    using assms(1,3) by (simp add: canonical_def)
  then have ne: "es \<noteq> []" by (cases es) auto
  have "es = ds @ split_path t"
    using arg_cong[OF eq, of split_path] split_join_plain[OF ne] split_join_append[OF assms(2)] assms(1,3)
    by (simp add: canonical_def)
  moreover have "\<forall>e \<in> set (split_path t). plain_elem e"
    using calculation assms(3) by (simp add: canonical_def)
  ultimately show ?thesis by (intro exI[of _ "split_path t"]) simp
qed

text \<open>Cleaning is idempotent on the paths it produces on a drive.\<close>

lemma clean_of_canonical:
  assumes "canonical v es p"
  shows "path_clean p = p"
proof -
  have v: "length v = 2" "volume_len v = 2" and es: "\<forall>e \<in> set es. plain_elem e"
    and p: "p = v @ CHR 0x5C # join_elems es"
    using assms by (simp_all add: canonical_def)
  have "clean_elems True [] (split_path (CHR 0x5C # join_elems es)) = es"
  proof (cases "es = []")
    case False
    then have "split_path (CHR 0x5C # join_elems es) = [] # es"
      using split_join_plain[OF False] es by (simp add: is_sep_def)
    then show ?thesis using clean_elems_plain[of es True "[]"] es by simp
  qed (simp add: is_sep_def)
  then show ?thesis
    using v volume_len_append[OF v, of "CHR 0x5C # join_elems es"]
    by (simp add: p path_clean_def Let_def is_sep_def del: split_path.simps)
qed

lemma path_clean_idem_drive:
  assumes "length v = 2" "volume_len v = 2" "is_sep c"
  shows "path_clean (path_clean (v @ c # s)) = path_clean (v @ c # s)"
  using clean_canonical[OF assms, of s] clean_of_canonical by metis

text \<open>Joining a plain name to a cleaned directory appends it.\<close>

lemma join_elems_snoc: "ds \<noteq> [] \<Longrightarrow> join_elems (ds @ [e]) = join_elems ds @ CHR 0x5C # e"
  by (induction ds rule: join_elems.induct) auto

lemma last_join_elems: "ds \<noteq> [] \<Longrightarrow> \<forall>e \<in> set ds. e \<noteq> [] \<Longrightarrow> join_elems ds \<noteq> [] \<and> last (join_elems ds) = last (last ds)"
  by (induction ds rule: join_elems.induct) auto

lemma join_plain:
  assumes "canonical v ds d" "ds \<noteq> []" "last d \<noteq> CHR '':''" "plain_elem e"
  shows "path_join d e = d @ CHR 0x5C # e" "canonical v (ds @ [e]) (d @ CHR 0x5C # e)"
proof -
  have d: "d = v @ CHR 0x5C # join_elems ds" and plain: "\<forall>e \<in> set ds. plain_elem e"
    using assms(1) by (simp_all add: canonical_def)
  have ne: "\<forall>e \<in> set ds. e \<noteq> []" using plain by (auto simp: plain_elem_def)
  note l = last_join_elems[OF assms(2) ne]
  have "last ds \<in> set ds" using assms(2) by simp
  then have "plain_elem (last ds)" using plain by blast
  then have "\<not> is_sep (last (last ds))" by (simp add: plain_elem_def)
  then have last: "\<not> is_sep (last d)" using l by (simp add: d)
  show can: "canonical v (ds @ [e]) (d @ CHR 0x5C # e)"
    using assms(1,4) by (auto simp: canonical_def join_elems_snoc[OF assms(2)])
  have "d \<noteq> []" by (simp add: d)
  then show "path_join d e = d @ CHR 0x5C # e"
    using last assms(3) clean_of_canonical[OF can] by (simp add: path_join_def)
qed

text \<open>The directory of a cleaned path is the path without its last element.\<close>

lemma clean_elems_append_empty: "clean_elems r acc (es @ [[]]) = clean_elems r acc es"
  by (induction r acc es rule: clean_elems.induct) (auto split: list.splits)

lemma path_dir_canonical:
  assumes "canonical v es p" "es \<noteq> []"
  shows "canonical v (butlast es) (path_dir p)"
proof -
  have v: "length v = 2" "volume_len v = 2" and pl: "\<forall>e \<in> set es. plain_elem e"
    and p: "p = v @ CHR 0x5C # join_elems es"
    using assms(1) by (simp_all add: canonical_def)
  let ?e = "last es" and ?bs = "butlast es"
  have e: "\<forall>c \<in> set ?e. \<not> is_sep c" using pl last_in_set[OF assms(2)] by (simp add: plain_elem_def)
  have sep: "is_sep (CHR 0x5C)" by (simp add: is_sep_def)
  have bs: "\<forall>e \<in> set ?bs. plain_elem e" using pl by (meson in_set_butlastD)
  let ?stem = "if ?bs = [] then [CHR 0x5C] else CHR 0x5C # join_elems ?bs @ [CHR 0x5C]"
  have cut: "rev (dropWhile (\<lambda>c. \<not> is_sep c) (rev (t @ CHR 0x5C # ?e))) = t @ [CHR 0x5C]" for t
    using e sep by (simp add: dropWhile_append3 dropWhile_append)
  have stem: "rev (dropWhile (\<lambda>c. \<not> is_sep c) (rev (CHR 0x5C # join_elems es))) = ?stem"
  proof (cases "?bs = []")
    case True
    then have "es = [?e]" using append_butlast_last_id[OF assms(2)] by simp
    then have "CHR 0x5C # join_elems es = [] @ CHR 0x5C # ?e" by (metis append_Nil join_elems.simps(2))
    then show ?thesis using cut[of "[]"] True by simp
  next
    case False
    have "join_elems es = join_elems ?bs @ CHR 0x5C # ?e"
      using join_elems_snoc[OF False, of ?e] append_butlast_last_id[OF assms(2)] by simp
    then have "CHR 0x5C # join_elems es = (CHR 0x5C # join_elems ?bs) @ CHR 0x5C # ?e" by simp
    then show ?thesis using cut[of "CHR 0x5C # join_elems ?bs"] False by simp
  qed
  have "volume_len p = 2" "take 2 p = v" "drop 2 p = CHR 0x5C # join_elems es"
    using v volume_len_append[OF v] by (simp_all add: p)
  then have dir: "path_dir p = v @ path_clean ?stem" by (simp only: path_dir_def Let_def stem)
  have "path_clean (if ?bs = [] then [CHR 0x5C] else CHR 0x5C # join_elems ?bs @ [CHR 0x5C]) =
      CHR 0x5C # join_elems ?bs"
  proof (cases "?bs = []")
    case True
    then show ?thesis by (simp add: path_clean_def volume_len_def Let_def is_sep_def)
  next
    case False
    have "volume_len (CHR 0x5C # s) = 0" for s
      by (cases s) (auto simp: volume_len_def is_upper_def)
    moreover have "split_path (CHR 0x5C # join_elems ?bs @ [CHR 0x5C]) = [] # ?bs @ [[]]"
      using split_join_append[OF False bs, of "[]"] by (simp add: is_sep_def)
    ultimately show ?thesis
      using False clean_elems_plain[OF bs, of True "[]"]
      by (simp add: path_clean_def Let_def sep clean_elems_append_empty del: split_path.simps)
  qed
  then show ?thesis using v bs dir by (simp add: canonical_def)
qed

lemma path_dir_snoc:
  assumes "canonical v ds d" "ds \<noteq> []" "plain_elem e"
  shows "path_dir (d @ CHR 0x5C # e) = d"
proof -
  have "canonical v (ds @ [e]) (d @ CHR 0x5C # e)"
    using assms by (auto simp: canonical_def join_elems_snoc)
  from path_dir_canonical[OF this] show ?thesis using assms(1) by (simp add: canonical_def)
qed

end
