(* ===== verification/EngineUpdate.thy ===== *)
theory EngineUpdate
  imports Update GoPath
begin

text \<open>
  Installing and updating the engine package, \<open>agent/internal/solarbeam/update_windows.go\<close>:
  \<open>applyEngineUpdate\<close>, \<open>engineInstallDir\<close>, \<open>extractZip\<close> and \<open>extractZipFile\<close>. Decoding the archive
  (\<open>archive/zip\<close>) and \<open>filepath.Abs\<close>, a system call on Windows, are arguments; an entry carries what
  opening and reading it gives.
\<close>

section \<open>Extraction\<close>

record zip_entry =
  ze_name :: string
  ze_is_dir :: bool
  ze_open_error :: "goerr option"
  ze_content :: string
  ze_read_error :: "goerr option"

definition tmp_path :: "path \<Rightarrow> path" where
  "tmp_path p = p @ ''.tmp''"

text \<open>\<open>os.OpenFile\<close> with \<open>O_CREATE | O_WRONLY | O_TRUNC\<close>.\<close>

definition os_open_trunc :: "hostenv \<Rightarrow> path \<Rightarrow> 'a world_scheme \<Rightarrow> goerr option \<times> 'a world_scheme" where
  "os_open_trunc env p w =
     (if w_fs w p = Some Dir then (Some (Msg ''is a directory''), tick w)
      else (case he_fault env (w_tick w) of
          Some (e, k) \<Rightarrow> (Some e, tick w)
        | None \<Rightarrow> (None, put p [] (tick w))))"

definition extract_zip_file ::
  "hostenv \<Rightarrow> zip_entry \<Rightarrow> path \<Rightarrow> 'a world_scheme \<Rightarrow> goerr option \<times> 'a world_scheme" where
  "extract_zip_file env f dest w =
     (case ze_open_error f of
        Some e \<Rightarrow> (Some e, w)
      | None \<Rightarrow>
          (case os_open_trunc env (tmp_path dest) w of
             (Some e, w1) \<Rightarrow> (Some e, w1)
           | (None, w1) \<Rightarrow>
               (case io_copy_to env (tmp_path dest) (ze_content f) (ze_read_error f) w1 of
                  ((n, Some e), w2) \<Rightarrow>
                    (Some e, snd (os_remove env (tmp_path dest) (snd (os_close env w2))))
                | ((n, None), w2) \<Rightarrow>
                    (case os_close env w2 of
                       (Some e, w3) \<Rightarrow> (Some e, snd (os_remove env (tmp_path dest) w3))
                     | (None, w3) \<Rightarrow>
                         (case os_rename env (tmp_path dest) dest w3 of
                            (Some e, w4) \<Rightarrow> (Some e, snd (os_remove env (tmp_path dest) w4))
                          | (None, w4) \<Rightarrow> (None, w4))))))"

definition entry_path :: "path \<Rightarrow> zip_entry \<Rightarrow> path" where
  "entry_path dest f = path_join dest (ze_name f)"

definition escapes :: "path \<Rightarrow> zip_entry \<Rightarrow> bool" where
  "escapes dest f \<longleftrightarrow>
     entry_path dest f \<noteq> dest \<and> \<not> has_prefix (entry_path dest f) (dest @ [CHR 0x5C])"

fun extract_entries ::
  "hostenv \<Rightarrow> path \<Rightarrow> zip_entry list \<Rightarrow> 'a world_scheme \<Rightarrow> goerr option \<times> 'a world_scheme" where
  "extract_entries env dest [] w = (None, w)"
| "extract_entries env dest (f # fs) w =
     (if escapes dest f
      then (Some (Msg (''zip entry '' @ go_quote (ze_name f) @ '' escapes install dir'')), w)
      else if ze_is_dir f then
        (case os_mkdir_all env (entry_path dest f) w of
           (Some e, w1) \<Rightarrow> (Some e, w1)
         | (None, w1) \<Rightarrow> extract_entries env dest fs w1)
      else (case os_mkdir_all env (path_dir (entry_path dest f)) w of
           (Some e, w1) \<Rightarrow> (Some e, w1)
         | (None, w1) \<Rightarrow>
             (case extract_zip_file env f (entry_path dest f) w1 of
                (Some e, w2) \<Rightarrow> (Some (wrapf (''extract '' @ ze_name f @ '': '') e), w2)
              | (None, w2) \<Rightarrow> extract_entries env dest fs w2)))"

definition extract_zip ::
  "hostenv \<Rightarrow> (string \<Rightarrow> zip_entry list res) \<Rightarrow> (path \<Rightarrow> path res) \<Rightarrow> path \<Rightarrow> path \<Rightarrow>
   'a world_scheme \<Rightarrow> goerr option \<times> 'a world_scheme" where
  "extract_zip env unzip abs_path src dest w =
     (case os_read_file env src w of
        (Inl e, w1) \<Rightarrow> (Some e, w1)
      | (Inr archive, w1) \<Rightarrow>
          (case unzip archive of
             Inl e \<Rightarrow> (Some e, w1)
           | Inr fs \<Rightarrow>
               (case abs_path dest of
                  Inl e \<Rightarrow> (Some e, w1)
                | Inr d \<Rightarrow> extract_entries env d fs w1)))"

section \<open>One file, in one piece\<close>

lemma tmp_path_neq [simp]: "tmp_path p \<noteq> p" "p \<noteq> tmp_path p"
  by (simp_all add: tmp_path_def)

lemma os_open_trunc_frame:
  "os_open_trunc env p w = (r, w') \<Longrightarrow> q \<noteq> p \<Longrightarrow> w_fs w' q = w_fs w q"
  by (auto simp: os_open_trunc_def split: if_splits option.splits)

lemma extract_zip_file_result:
  assumes "extract_zip_file env f p w = (r, w')"
  shows "(\<forall>q. q \<noteq> p \<and> q \<noteq> tmp_path p \<longrightarrow> w_fs w' q = w_fs w q) \<and>
    (if r = None then w_fs w' p = Some (File (ze_content f)) else w_fs w' p = w_fs w p)"
proof (cases "ze_open_error f")
  case (Some e)
  then show ?thesis using assms by (auto simp: extract_zip_file_def)
next
  case None
  let ?t = "tmp_path p"
  obtain r1 w1 where op: "os_open_trunc env ?t w = (r1, w1)" by force
  note fs1 = os_open_trunc_frame[OF op]
  show ?thesis
  proof (cases r1)
    case (Some e)
    then show ?thesis using assms None op fs1 by (auto simp: extract_zip_file_def)
  next
    case r1: None
    obtain n ce w2 where cp: "io_copy_to env ?t (ze_content f) (ze_read_error f) w1 = ((n, ce), w2)"
      by (metis prod.exhaust)
    note fs2 = io_copy_to_frame[OF cp]
    obtain cl w3 where cl: "os_close env w2 = (cl, w3)" by force
    have fs3: "w_fs w3 = w_fs w2" using os_close_frame[OF cl] by simp
    have rm: "w_fs (snd (os_remove env ?t u)) q = w_fs u q" if "q \<noteq> ?t" for u :: "'a world_scheme" and q
      using os_remove_frame[of env ?t u _ _ q] that by (cases "os_remove env ?t u") auto
    show ?thesis
    proof (cases "ce = None \<and> cl = None")
      case False
      then have "r \<noteq> None \<and> w' = snd (os_remove env ?t w3)"
        using assms None op r1 cp cl by (cases ce) (auto simp: extract_zip_file_def)
      then show ?thesis using rm[of _ w3] fs1 fs2 fs3 by auto
    next
      case True
      obtain r4 w4 where mv: "os_rename env ?t p w3 = (r4, w4)" by force
      have run: "(r, w') = (case r4 of Some e \<Rightarrow> (Some e, snd (os_remove env ?t w4)) | None \<Rightarrow> (None, w4))"
        using assms None op r1 cp cl mv True by (auto simp: extract_zip_file_def split: option.splits)
      have content: "w_fs w3 ?t = Some (File (ze_content f))"
        using io_copy_to_None[of env ?t _ _ w1 n w2] cp True fs3 by auto
      show ?thesis
      proof (cases r4)
        case None
        then show ?thesis
          using run os_rename_None[of env ?t p w3 w4] mv content fs1 fs2 fs3 by auto
      next
        case (Some e)
        then have "w_fs w4 = w_fs w3" using os_rename_Some mv by blast
        then show ?thesis using run Some rm[of _ w4] fs1 fs2 fs3 by auto
      qed
    qed
  qed
qed

interpretation zip_writer: atomic_writer "\<lambda>p c. extract_zip_file env (f\<lparr>ze_content := c\<rparr>) p" w_fs tmp_path
  for env f
proof unfold_locales
  fix p c w w'
  assume "extract_zip_file env (f\<lparr>ze_content := c\<rparr>) p w = (None, w')"
  from extract_zip_file_result[OF this] show "w_fs w' p = Some (File c)" by simp
next
  fix p c w e w'
  assume "extract_zip_file env (f\<lparr>ze_content := c\<rparr>) p w = (Some e, w')"
  from extract_zip_file_result[OF this] show "w_fs w' p = w_fs w p" by simp
next
  fix p c w r w' q
  assume "extract_zip_file env (f\<lparr>ze_content := c\<rparr>) p w = (r, w')" "q \<noteq> p" "q \<noteq> tmp_path p"
  with extract_zip_file_result[OF this(1)] show "w_fs w' q = w_fs w q" by blast
qed

text \<open>
  A crash-safe extraction step: at the moment \<open>extractZipFile\<close> stops, wherever and however it
  failed, every path but the \<open>.tmp\<close> sibling holds its old content or, at the destination alone, the
  complete entry; on success the destination holds the complete entry.
\<close>

theorem extract_file_atomic:
  assumes "extract_zip_file env f p w = (r, w')" "q \<noteq> tmp_path p"
  shows "(w_fs w' q = w_fs w q \<or> q = p \<and> w_fs w' q = Some (File (ze_content f))) \<and>
    (r = None \<longrightarrow> w_fs w' p = Some (File (ze_content f)))"
proof -
  have run: "extract_zip_file env (f\<lparr>ze_content := ze_content f\<rparr>) p w = (r, w')" using assms(1) by simp
  show ?thesis
    using zip_writer.never_torn[OF run] zip_writer.others[OF run _ assms(2)] extract_zip_file_result[OF assms(1)]
    by (cases "q = p") auto
qed

definition sample_entry :: "string \<Rightarrow> zip_entry" where
  "sample_entry n = \<lparr>ze_name = n, ze_is_dir = False, ze_open_error = None, ze_content = ''E'', ze_read_error = None\<rparr>"

lemma sample_entry_simps [simp]:
  "ze_name (sample_entry n) = n" "ze_is_dir (sample_entry n) = False" "ze_open_error (sample_entry n) = None"
  "ze_content (sample_entry n) = ''E''" "ze_read_error (sample_entry n) = None"
  by (simp_all add: sample_entry_def)

lemma sample_env_simps [simp]:
  "he_fault sample_env n = None" "he_sha256 sample_env = toy_sha"
  by (simp_all add: sample_env_def)

theorem extract_file_atomic_witness:
  "\<exists>w'. extract_zip_file sample_env (sample_entry ''x'') ''p'' empty_world = (None, w') \<and>
     w_fs w' ''p'' = Some (File ''E'')"
proof -
  obtain w' where run: "extract_zip_file sample_env (sample_entry ''x'') ''p'' empty_world = (None, w')"
    by (simp add: extract_zip_file_def empty_world_def tmp_path_def host_calls os_open_trunc_def)
  have "''p'' \<noteq> tmp_path ''p''" by (simp add: tmp_path_def)
  from extract_file_atomic[OF run this] run show ?thesis by auto
qed

section \<open>Zip slip\<close>

text \<open>The paths inside the install directory \<open>v\ds\<close>, element by element, itself included.\<close>

definition inside :: "string \<Rightarrow> string list \<Rightarrow> path \<Rightarrow> bool" where
  "inside v ds p \<longleftrightarrow> (\<exists>fs. canonical v (ds @ fs) p)"

definition may_touch :: "string \<Rightarrow> string list \<Rightarrow> path \<Rightarrow> bool" where
  "may_touch v ds q \<longleftrightarrow>
     inside v ds q \<or> (\<exists>p. inside v ds p \<and> q = tmp_path p) \<or> canonical v (butlast ds) q"

lemma entry_inside:
  assumes "canonical v ds d" "ds \<noteq> []" "\<not> escapes d f"
  shows "inside v ds (entry_path d f)"
proof (cases "entry_path d f = d")
  case True
  then show ?thesis using assms(1) by (intro inside_def[THEN iffD2] exI[of _ "[]"]) simp
next
  case False
  obtain es where es: "canonical v es (entry_path d f)"
    using join_canonical[OF assms(1)] by (auto simp: entry_path_def)
  have "has_prefix (entry_path d f) (d @ [CHR 0x5C])" using False assms(3) by (simp add: escapes_def)
  from prefix_elements[OF assms(1,2) es this] es show ?thesis by (auto simp: inside_def)
qed

lemma dir_may_touch:
  assumes "inside v ds p" "ds \<noteq> []"
  shows "may_touch v ds (path_dir p)"
proof -
  obtain fs where fs: "canonical v (ds @ fs) p" using assms(1) by (auto simp: inside_def)
  then have dir: "canonical v (butlast (ds @ fs)) (path_dir p)"
    using path_dir_canonical assms(2) by simp
  show ?thesis
  proof (cases "fs = []")
    case False
    then show ?thesis using dir by (auto simp: may_touch_def inside_def butlast_append)
  qed (use dir in \<open>simp add: may_touch_def\<close>)
qed

lemma extract_entries_touches:
  assumes "canonical v ds d" "ds \<noteq> []"
  shows "extract_entries env d fs w = (r, w') \<Longrightarrow> \<not> may_touch v ds q \<Longrightarrow> w_fs w' q = w_fs w q"
proof (induction fs arbitrary: w)
  case (Cons f fs)
  show ?case
  proof (cases "escapes d f")
    case True
    then show ?thesis using Cons.prems(1) by simp
  next
    case False
    note ins = entry_inside[OF assms False]
    have q: "q \<noteq> entry_path d f" "q \<noteq> tmp_path (entry_path d f)" "q \<noteq> path_dir (entry_path d f)"
      using Cons.prems(2) ins dir_may_touch[OF ins assms(2)] by (auto simp: may_touch_def)
    show ?thesis
    proof (cases "ze_is_dir f")
      case True
      obtain r1 w1 where mk: "os_mkdir_all env (entry_path d f) w = (r1, w1)" by force
      then show ?thesis
        using Cons.IH[of w1] Cons.prems \<open>\<not> escapes d f\<close> True os_mkdir_all_frame[OF mk q(1)]
        by (cases r1) auto
    next
      case nd: False
      obtain r1 w1 where mk: "os_mkdir_all env (path_dir (entry_path d f)) w = (r1, w1)" by force
      note fs1 = os_mkdir_all_frame[OF mk q(3)]
      obtain r2 w2 where ex: "extract_zip_file env f (entry_path d f) w1 = (r2, w2)" by force
      have "w_fs w2 q = w_fs w1 q" using extract_zip_file_result[OF ex] q(1,2) by blast
      then show ?thesis
        using Cons.IH[of w2] Cons.prems \<open>\<not> escapes d f\<close> nd mk ex fs1
        by (cases r1; cases r2) auto
    qed
  qed
qed simp


text \<open>An archive whose one entry climbs out of the directory is refused before anything is written.\<close>

definition install_path :: path where "install_path = ''C:'' @ CHR 0x5C # ''d''"

lemma install_canonical: "canonical ''C:'' [''d''] install_path"
  by (simp add: canonical_def install_path_def volume_len_def is_upper_def plain_elem_def dot_def dotdot_def is_sep_def)

lemma install_distinct:
  "install_path \<noteq> ''a.zip''" "install_path @ CHR 0x5C # ''x'' \<noteq> ''a.zip''"
  "tmp_path (install_path @ CHR 0x5C # ''x'') \<noteq> ''a.zip''"
  "tmp_path (install_path @ CHR 0x5C # ''x'') \<noteq> install_path"
  "''C:'' @ [CHR 0x5C] \<noteq> install_path" "''C:'' @ [CHR 0x5C] \<noteq> tmp_path install_path"
  by (simp_all add: install_path_def tmp_path_def)

definition zip_world :: world where
  "zip_world = empty_world\<lparr>w_fs := [''a.zip'' \<mapsto> File ''PK'', install_path \<mapsto> Dir]\<rparr>"


text \<open>
  The guard admits the install directory itself as the target of a file entry (an entry named
  \<open>.\<close>, or \<open>x/..\<close>), and its \<open>.tmp\<close> sibling lies outside: a file of that name is truncated, then
  removed when the rename onto the directory fails.
\<close>

theorem dot_entry_destroys_sibling:
  "\<exists>e w'. extract_entries sample_env install_path [sample_entry ''.'']
       (zip_world\<lparr>w_fs := [install_path \<mapsto> Dir, tmp_path install_path \<mapsto> File ''keep'']\<rparr>) = (Some e, w') \<and>
     w_fs w' (tmp_path install_path) = None"
proof -
  have j: "path_join install_path ''.'' = install_path" by code_simp
  have pd: "path_dir install_path = ''C:'' @ [CHR 0x5C]" by code_simp
  have ep: "entry_path install_path (sample_entry ''.'') = install_path" by (simp add: entry_path_def j)
  show ?thesis
    using install_distinct
    by (simp add: escapes_def ep pd extract_zip_file_def zip_world_def empty_world_def host_calls
        os_open_trunc_def)
qed

section \<open>Installing the engine\<close>

datatype mode = ModeManaged | ModeInteractive

record sb_paths =
  sp_engine :: path
  sp_bridge :: path
  sp_root :: path
  sp_mode :: mode

definition engine_install_dir :: "sb_paths \<Rightarrow> path" where
  "engine_install_dir ps =
     (if sp_root ps \<noteq> [] then sp_root ps
      else if sp_engine ps = [] then [] else path_dir (sp_engine ps))"

definition engine_download :: "engine_update_args \<Rightarrow> download_params" where
  "engine_download a =
     \<lparr>dp_url = ea_url a, dp_sha256 = ea_sha256 a, dp_dir = [],
      dp_pattern = ''solarbeam-engine-update-*.zip'', dp_max_bytes = 200 * 1024 * 1024\<rparr>"

definition install_staged ::
  "hostenv \<Rightarrow> trust_calls \<Rightarrow> (string \<Rightarrow> zip_entry list res) \<Rightarrow> (path \<Rightarrow> path res) \<Rightarrow> sb_paths \<Rightarrow>
   engine_update_args \<Rightarrow> path \<Rightarrow> 'a world_scheme \<Rightarrow> goerr option \<times> 'a world_scheme" where
  "install_staged env tc unzip abs_path ps a p w =
     (case os_mkdir_all env (engine_install_dir ps) w of
        (Some e, w1) \<Rightarrow> (Some (wrapf ''create install dir: '' e), w1)
      | (None, w1) \<Rightarrow>
          (case extract_zip env unzip abs_path p (engine_install_dir ps) w1 of
             (Some e, w2) \<Rightarrow> (Some (wrapf ''extract engine package: '' e), w2)
           | (None, w2) \<Rightarrow>
               (map_err (wrapf ''authenticode: '')
                  (outcome_error (verify_authenticode (he_sha256 env) tc (sp_engine ps) (ea_signer_fingerprint a))),
                w2)))"

text \<open>The deferred \<open>os.Remove\<close> of the download runs on every way out after it.\<close>

definition apply_engine_update ::
  "hostenv \<Rightarrow> trust_calls \<Rightarrow> (string \<Rightarrow> zip_entry list res) \<Rightarrow> (path \<Rightarrow> path res) \<Rightarrow> sb_paths \<Rightarrow>
   engine_update_args \<Rightarrow> 'a world_scheme \<Rightarrow> goerr option \<times> 'a world_scheme" where
  "apply_engine_update env tc unzip abs_path ps a w =
     (if engine_install_dir ps = [] then (Some (Msg ''engine path not configured''), w)
      else (case download_verified env (engine_download a) w of
          (Inl e, w1) \<Rightarrow> (Some e, w1)
        | (Inr p, w1) \<Rightarrow>
            (case install_staged env tc unzip abs_path ps a p w1 of
               (r, w2) \<Rightarrow> (r, snd (os_remove env p w2)))))"

lemma apply_engine_update_fetch:
  "engine_install_dir ps \<noteq> [] \<Longrightarrow> apply_engine_update env tc unzip abs_path ps a w =
     dl.fetch_then env (engine_download a)
       (\<lambda>p w1. case install_staged env tc unzip abs_path ps a p w1 of (r, w2) \<Rightarrow> (r, snd (os_remove env p w2))) w"
  by (simp add: apply_engine_update_def dl.fetch_then_def)

lemma apply_engine_update_pin:
  "apply_engine_update env tc unzip abs_path ps a w = (None, w') \<Longrightarrow>
     verify_authenticode (he_sha256 env) tc (sp_engine ps) (ea_signer_fingerprint a) = Returns None"
  by (auto simp: apply_engine_update_def install_staged_def outcome_error_def
      split: if_splits prod.splits sum.splits option.splits outcome.splits)


definition engine_path :: path where "engine_path = install_path @ CHR 0x5C # ''x''"

definition sample_paths :: sb_paths where
  "sample_paths = \<lparr>sp_engine = engine_path, sp_bridge = [], sp_root = install_path, sp_mode = ModeInteractive\<rparr>"

definition sample_engine_args :: engine_update_args where
  "sample_engine_args =
     \<lparr>ea_release_id = ''r'', ea_version = ''2'', ea_url = ''https://h/a'', ea_sha256 = hex_encode (toy_sha ''MZ''),
      ea_signer_fingerprint = hex_encode (toy_sha ''der''), ea_product_id = ''solarbeam-engine''\<rparr>"

definition engine_world :: world where
  "engine_world = empty_world\<lparr>w_fs := [engine_path \<mapsto> File ''old'']\<rparr>"

definition staged_path :: path where
  "staged_path = ''T'' @ CHR 0x5C # ''solarbeam-engine-update-*.zip''"

lemma staged_distinct:
  "staged_path \<noteq> install_path" "staged_path \<noteq> engine_path" "staged_path \<noteq> tmp_path engine_path"
  "install_path \<noteq> engine_path" "tmp_path engine_path \<noteq> install_path" "install_path \<noteq> []"
  by (simp_all add: staged_path_def install_path_def engine_path_def tmp_path_def)

lemma engine_download_runs:
  "download_verified sample_net (engine_download sample_engine_args) engine_world =
     (Inr staged_path, engine_world\<lparr>w_fs := (w_fs engine_world)(staged_path \<mapsto> File ''MZ''), w_tick := 5\<rparr>)"
  using staged_distinct(2)[unfolded staged_path_def]
  by (simp add: staged_path_def download_verified_def http_get_def engine_download_def sample_engine_args_def sample_url
      sample_net_def quiet_env_def engine_world_def empty_world_def host_calls Let_def verify_sha256_def
      tick_def put_def toy_sha_def)

lemma engine_extract_entry:
  "entry_path install_path (sample_entry ''x'') = engine_path" "path_dir engine_path = install_path"
  "\<not> escapes install_path (sample_entry ''x'')"
proof -
  show ep: "entry_path install_path (sample_entry ''x'') = engine_path"
    unfolding entry_path_def sample_entry_simps by code_simp
  show "path_dir engine_path = install_path" by code_simp
  show "\<not> escapes install_path (sample_entry ''x'')"
    by (simp add: escapes_def ep engine_path_def has_prefix_def)
qed

lemma engine_update_run:
  "\<exists>w'. apply_engine_update sample_net (sample_trust v) (\<lambda>s. Inr [sample_entry ''x'']) Inr sample_paths
       sample_engine_args engine_world =
     (map_err (wrapf ''authenticode: '') (outcome_error (verify_authenticode toy_sha (sample_trust v) engine_path
        (hex_encode (toy_sha ''der'')))), w') \<and> w_fs w' engine_path = Some (File ''E'')"
proof -
  have net: "he_fault sample_net n = None" "he_sha256 sample_net = toy_sha" for n
    by (simp_all add: sample_net_def)
  have dir: "engine_install_dir sample_paths = install_path" "sp_engine sample_paths = engine_path"
    "ea_signer_fingerprint sample_engine_args = hex_encode (toy_sha ''der'')"
    using staged_distinct(6) by (simp_all add: engine_install_dir_def sample_paths_def sample_engine_args_def)
  have fs: "w_fs engine_world = [engine_path \<mapsto> File ''old'']" by (simp add: engine_world_def)
  show ?thesis
    using staged_distinct engine_extract_entry
    by (simp add: apply_engine_update_def dir engine_download_runs install_staged_def extract_zip_def
        extract_zip_file_def os_open_trunc_def host_calls net fs)
qed


text \<open>
  The signer check comes after the extraction, and nothing undoes the extraction when it fails: an
  update that \<open>Update\<close> reports as failed on the signature has already replaced the engine with the
  rejected binary, which the next session will start.
\<close>

theorem rejected_engine_stays_installed:
  "\<exists>e w'. apply_engine_update sample_net (sample_trust (Some (Msg ''TRUST_E_NOSIGNATURE'')))
       (\<lambda>s. Inr [sample_entry ''x'']) Inr sample_paths sample_engine_args engine_world = (Some e, w') \<and>
     w_fs engine_world engine_path = Some (File ''old'') \<and> w_fs w' engine_path = Some (File ''E'')"
proof -
  have "CHR 0x00 \<notin> set engine_path" by (simp add: engine_path_def install_path_def)
  then have "\<exists>e. outcome_error (verify_authenticode toy_sha (sample_trust (Some (Msg ''TRUST_E_NOSIGNATURE'')))
      engine_path (hex_encode (toy_sha ''der''))) = Some e"
    by (simp add: verify_authenticode_def verify_authenticode_ops_def verify_trust_def sample_trust_def
        outcome_error_def)
  then show ?thesis
    using engine_update_run[of "Some (Msg ''TRUST_E_NOSIGNATURE'')"] by (auto simp: engine_world_def)
qed

end
