(* ===== verification/Solarbeam.thy ===== *)
theory Solarbeam
  imports EngineUpdate
begin

text \<open>
  The SolarBeam session manager, \<open>agent/internal/solarbeam/manager.go\<close> and
  \<open>manager_windows.go\<close>: \<open>Start\<close>, \<open>Stop\<close>, \<open>Status\<close> and \<open>Update\<close> over the two launch modes, the
  service and listener waits, and the engine's file version. \<open>Start\<close>, \<open>Stop\<close>, \<open>Status\<close> and
  \<open>Update\<close> hold the manager's mutex from their first access to its state to their return, so each
  is one state transformation here.
\<close>

section \<open>Machine\<close>

datatype service_state =
    Stopped | StartPending | StopPending | Running | ContinuePending | PausePending | PausedState

text \<open>
  Beside the world: the live processes with their image names, whether the engine service is
  registered, and the manager's own fields. The state the service control manager reports, what a
  dial of the bridge's port gives and how long either takes (in milliseconds) is the environment's,
  by tick.
\<close>

record machine = world +
  m_procs :: "(nat \<times> string) list"
  m_next_pid :: nat
  m_service :: bool
  m_last_version :: string
  m_engine_proc :: "nat option"

record sbenv = hostenv +
  se_query :: "nat \<Rightarrow> service_state res"
  se_query_time :: "nat \<Rightarrow> nat"
  se_dial :: "nat \<Rightarrow> goerr option"
  se_dial_time :: "nat \<Rightarrow> nat"
  se_file_version :: "path \<Rightarrow> (32 word \<times> 32 word) res"

text \<open>A fallible call with no effect of its own on the world.\<close>

definition sys_call :: "'e hostenv_scheme \<Rightarrow> machine \<Rightarrow> goerr option \<times> machine" where
  "sys_call env m = (map_option fst (he_fault (hostenv.truncate env) (w_tick m)), tick m)"

abbreviation host :: "sbenv \<Rightarrow> hostenv" where
  "host env \<equiv> hostenv.truncate env"

section \<open>Constants\<close>

definition engine_service_bin_name :: string where "engine_service_bin_name = ''sunshinesvc.exe''"
definition bridge_ws_addr :: string where "bridge_ws_addr = ''127.0.0.1:9092''"
definition bridge_ws_url :: string where "bridge_ws_url = ''ws://127.0.0.1:9092/bridge''"

definition child_log_dir :: path where
  "child_log_dir = ''C:'' @ CHR 0x5C # ''ProgramData'' @ CHR 0x5C # ''ReadyFleet'' @ CHR 0x5C # ''logs''"

definition child_log_dir_interactive :: "sbenv \<Rightarrow> path" where
  "child_log_dir_interactive env =
     (let base = he_getenv env ''LocalAppData''
      in path_join (path_join (if base = [] then ''lightagent-data'' else base) ''ReadyFleet Light'') ''logs'')"

definition bridge_env_dir :: path where
  "bridge_env_dir = ''C:'' @ CHR 0x5C # ''ProgramData'' @ CHR 0x5C # ''SolarBeam''"

definition bridge_env_file :: path where
  "bridge_env_file = path_join bridge_env_dir ''bridge.env''"

definition engine_service_path :: "path \<Rightarrow> path" where
  "engine_service_path engine = path_join (path_join (path_dir engine) ''tools'') engine_service_bin_name"

section \<open>Processes\<close>

definition engine_binary_exists :: "sbenv \<Rightarrow> path \<Rightarrow> machine \<Rightarrow> goerr option \<times> machine" where
  "engine_binary_exists env p m =
     (if p = [] then (Some (Msg ''engine path not configured''), m)
      else (case os_stat (host env) p m of
          (Some e, m1) \<Rightarrow> (Some (wrapf (''engine not installed at '' @ p @ '': '') e), m1)
        | (None, m1) \<Rightarrow> (None, m1)))"

text \<open>\<open>terminateByName\<close>: best effort, case-insensitive; a process may refuse.\<close>

definition terminate_by_name :: "sbenv \<Rightarrow> string \<Rightarrow> machine \<Rightarrow> machine" where
  "terminate_by_name env name m =
     (case sys_call env m of
        (Some e, m1) \<Rightarrow> m1
      | (None, m1) \<Rightarrow>
          log_effect (KillName name)
            (m1\<lparr>m_procs := filter (\<lambda>(pid, image). to_lower image \<noteq> to_lower name \<or>
                                       he_partial env (w_tick m) (show_nat pid)) (m_procs m1)\<rparr>))"

text \<open>\<open>exec.Cmd.Start\<close> of a hidden child: \<open>newHiddenCmd\<close>, its directory and added environment.\<close>

definition start_cmd :: "sbenv \<Rightarrow> path \<Rightarrow> path \<Rightarrow> string list \<Rightarrow> machine \<Rightarrow> nat res \<times> machine" where
  "start_cmd env exe dir vars m =
     (case sys_call env m of
        (Some e, m1) \<Rightarrow> (Inl e, m1)
      | (None, m1) \<Rightarrow>
          (Inr (m_next_pid m1),
           log_effect (Spawn exe dir vars)
             (m1\<lparr>m_procs := m_procs m1 @ [(m_next_pid m1, path_base exe)], m_next_pid := Suc (m_next_pid m1)\<rparr>)))"

definition kill_pid :: "sbenv \<Rightarrow> nat \<Rightarrow> machine \<Rightarrow> machine" where
  "kill_pid env pid m =
     (case sys_call env m of
        (Some e, m1) \<Rightarrow> m1
      | (None, m1) \<Rightarrow> log_effect (KillPid pid) (m1\<lparr>m_procs := filter (\<lambda>x. fst x \<noteq> pid) (m_procs m1)\<rparr>))"

text \<open>The child's log file: created if missing, best effort.\<close>

definition open_child_log :: "sbenv \<Rightarrow> path \<Rightarrow> string \<Rightarrow> machine \<Rightarrow> machine" where
  "open_child_log env dir name m =
     (case os_mkdir_all (host env) dir m of
        (Some e, m1) \<Rightarrow> m1
      | (None, m1) \<Rightarrow>
          (case sys_call env m1 of
             (Some e, m2) \<Rightarrow> m2
           | (None, m2) \<Rightarrow> (if w_fs m2 (path_join dir name) = None then put (path_join dir name) [] m2 else m2)))"

section \<open>Waiting\<close>

text \<open>\<open>waitForListener\<close>: a dial, then the deadline test, then a pause of 200 ms.\<close>

function wait_for_listener :: "sbenv \<Rightarrow> nat \<Rightarrow> nat \<Rightarrow> machine \<Rightarrow> goerr option \<times> machine" where
  "wait_for_listener env timeout elapsed m =
     (let now = elapsed + se_dial_time env (w_tick m)
      in (case se_dial env (w_tick m) of
            None \<Rightarrow> (None, tick m)
          | Some e \<Rightarrow>
              if timeout < now then (Some e, tick m)
              else wait_for_listener env timeout (now + 200) (tick m)))"
  by pat_completeness auto
termination by (relation "measure (\<lambda>(env, timeout, elapsed, m). Suc timeout - elapsed)") auto

declare wait_for_listener.simps [simp del]

definition query_service :: "sbenv \<Rightarrow> machine \<Rightarrow> service_state res \<times> machine" where
  "query_service env m = (se_query env (w_tick m), tick m)"

text \<open>\<open>waitForServiceState\<close>: polls while before the deadline, then once more.\<close>

function wait_for_service_state :: "sbenv \<Rightarrow> service_state \<Rightarrow> nat \<Rightarrow> nat \<Rightarrow> machine \<Rightarrow> bool \<times> machine" where
  "wait_for_service_state env want timeout elapsed m =
     (case query_service env m of
        (st, m1) \<Rightarrow>
          if st = Inr want then (True, m1)
          else if timeout \<le> elapsed then (False, m1)
          else wait_for_service_state env want timeout (elapsed + se_query_time env (w_tick m) + 250) m1)"
  by pat_completeness auto
termination by (relation "measure (\<lambda>(env, want, timeout, elapsed, m). Suc timeout - elapsed)") auto

declare wait_for_service_state.simps [simp del]

section \<open>The bridge\<close>

definition bridge_vars :: "start_args \<Rightarrow> string list" where
  "bridge_vars a =
     [''READYAPP_URL='' @ sa_readyapp_url a, ''SESSION_ID='' @ sa_session_id a,
      ''SOLARBEAM_MACHINE_ID='' @ sa_machine_id a, ''SOLARBEAM_BUNDLE_TOKEN='' @ sa_bundle_token a]"

definition launch_bridge :: "sbenv \<Rightarrow> sb_paths \<Rightarrow> start_args \<Rightarrow> machine \<Rightarrow> goerr option \<times> machine" where
  "launch_bridge env ps a m =
     (if sp_bridge ps = [] then (Some (Msg ''bridge path not configured''), m)
      else
        let m1 = terminate_by_name env (path_base (sp_bridge ps)) m;
            m2 = open_child_log env
                   (if sp_mode ps = ModeInteractive then child_log_dir_interactive env else child_log_dir)
                   ''bridge.log'' m1
        in (case start_cmd env (sp_bridge ps) [] (bridge_vars a) m2 of
              (Inl e, m3) \<Rightarrow> (Some (wrapf ''start bridge: '' e), m3)
            | (Inr pid, m3) \<Rightarrow>
                (case wait_for_listener env 30000 0 m3 of
                   (Some e, m4) \<Rightarrow> (Some (wrapf (''bridge not listening on '' @ bridge_ws_addr @ '': '') e), m4)
                 | (None, m4) \<Rightarrow> (None, m4))))"

section \<open>Interactive mode\<close>

definition prepare_engine_interactive :: "sbenv \<Rightarrow> sb_paths \<Rightarrow> machine \<Rightarrow> goerr option \<times> machine" where
  "prepare_engine_interactive env ps m = engine_binary_exists env (sp_engine ps) m"

definition engine_vars :: "start_args \<Rightarrow> string list" where
  "engine_vars a = [''SOLARBEAM_BRIDGE_WS='' @ bridge_ws_url, ''SOLARBEAM_MACHINE_ID='' @ sa_machine_id a]"

definition kill_engine_proc :: "sbenv \<Rightarrow> machine \<Rightarrow> machine" where
  "kill_engine_proc env m =
     (case m_engine_proc m of
        None \<Rightarrow> m
      | Some pid \<Rightarrow> (kill_pid env pid m)\<lparr>m_engine_proc := None\<rparr>)"

definition start_engine_interactive :: "sbenv \<Rightarrow> sb_paths \<Rightarrow> start_args \<Rightarrow> machine \<Rightarrow> goerr option \<times> machine" where
  "start_engine_interactive env ps a m =
     (let m1 = kill_engine_proc env m;
          m2 = open_child_log env (child_log_dir_interactive env) ''engine.log'' m1
      in (case start_cmd env (sp_engine ps) (path_dir (sp_engine ps)) (engine_vars a) m2 of
            (Inl e, m3) \<Rightarrow> (Some (wrapf ''start engine: '' e), m3)
          | (Inr pid, m3) \<Rightarrow> (None, m3\<lparr>m_engine_proc := Some pid\<rparr>)))"

definition stop_solarbeam_interactive :: "sbenv \<Rightarrow> sb_paths \<Rightarrow> machine \<Rightarrow> goerr option \<times> machine" where
  "stop_solarbeam_interactive env ps m =
     (let m1 = kill_engine_proc env m
      in (None, if sp_bridge ps = [] then m1 else terminate_by_name env (path_base (sp_bridge ps)) m1))"

text \<open>
  \<open>processAlive\<close> asks for the exit code and takes 259 for still active; a process that exited with
  that code is not modelled.
\<close>

definition engine_process_running :: "sbenv \<Rightarrow> machine \<Rightarrow> bool \<times> machine" where
  "engine_process_running env m =
     (case m_engine_proc m of
        None \<Rightarrow> (False, m)
      | Some pid \<Rightarrow>
          (case sys_call env m of
             (Some e, m1) \<Rightarrow> (False, m1)
           | (None, m1) \<Rightarrow> (pid \<in> fst ` set (m_procs m1), m1)))"

section \<open>Managed mode\<close>

definition open_service :: "sbenv \<Rightarrow> machine \<Rightarrow> goerr option \<times> machine" where
  "open_service env m =
     (case sys_call env m of
        (Some e, m1) \<Rightarrow> (Some e, m1)
      | (None, m1) \<Rightarrow> (if m_service m1 then None else Some (Msg ''The specified service does not exist''), m1))"

definition ensure_engine_service :: "sbenv \<Rightarrow> path \<Rightarrow> machine \<Rightarrow> goerr option \<times> machine" where
  "ensure_engine_service env engine m =
     (case sys_call env m of
        (Some e, m1) \<Rightarrow> (Some (wrapf ''connect SCM: '' e), m1)
      | (None, m1) \<Rightarrow>
          (case open_service env m1 of
             (None, m2) \<Rightarrow> (None, m2)
           | (Some _, m2) \<Rightarrow>
               (case os_stat (host env) (engine_service_path engine) m2 of
                  (Some e, m3) \<Rightarrow>
                    (Some (Wrap (''engine service host '' @ engine_service_path engine @ '' not installed: '') e []), m3)
                | (None, m3) \<Rightarrow>
                    (case sys_call env m3 of
                       (Some e, m4) \<Rightarrow> (Some (wrapf ''create SunshineService service: '' e), m4)
                     | (None, m4) \<Rightarrow>
                         (None, log_effect (ServiceCreate (engine_service_path engine)) (m4\<lparr>m_service := True\<rparr>))))))"

definition prepare_engine :: "sbenv \<Rightarrow> sb_paths \<Rightarrow> machine \<Rightarrow> goerr option \<times> machine" where
  "prepare_engine env ps m =
     (case engine_binary_exists env (sp_engine ps) m of
        (Some e, m1) \<Rightarrow> (Some e, m1)
      | (None, m1) \<Rightarrow> ensure_engine_service env (sp_engine ps) m1)"

definition bridge_env_contents :: "start_args \<Rightarrow> string" where
  "bridge_env_contents a =
     ''SOLARBEAM_BRIDGE_WS='' @ bridge_ws_url @ [CHR 0x0A] @
     ''SOLARBEAM_MACHINE_ID='' @ sa_machine_id a @ [CHR 0x0A]"

definition write_bridge_env :: "sbenv \<Rightarrow> start_args \<Rightarrow> machine \<Rightarrow> goerr option \<times> machine" where
  "write_bridge_env env a m =
     (case os_mkdir_all (host env) bridge_env_dir m of
        (Some e, m1) \<Rightarrow> (Some (wrapf (''create '' @ bridge_env_dir @ '': '') e), m1)
      | (None, m1) \<Rightarrow>
          (case os_write_file (host env) bridge_env_file (bridge_env_contents a) m1 of
             (Some e, m2) \<Rightarrow> (Some (wrapf (''write '' @ bridge_env_file @ '': '') e), m2)
           | (None, m2) \<Rightarrow> (None, m2)))"

definition stop_service_if_running :: "sbenv \<Rightarrow> machine \<Rightarrow> goerr option \<times> machine" where
  "stop_service_if_running env m =
     (case query_service env m of
        (Inl e, m1) \<Rightarrow> (Some (wrapf ''query SunshineService: '' e), m1)
      | (Inr st, m1) \<Rightarrow>
          if st = Stopped then (None, m1)
          else (case sys_call env m1 of
              (Some e, m2) \<Rightarrow> (Some (wrapf ''stop SunshineService: '' e), m2)
            | (None, m2) \<Rightarrow>
                (case wait_for_service_state env Stopped 15000 0 (log_effect ServiceStop m2) of
                   (reached, m3) \<Rightarrow>
                     (if reached then None else Some (Msg ''SunshineService did not stop within 15s''), m3))))"

definition restart_engine_service :: "sbenv \<Rightarrow> machine \<Rightarrow> goerr option \<times> machine" where
  "restart_engine_service env m =
     (case sys_call env m of
        (Some e, m1) \<Rightarrow> (Some (wrapf ''connect SCM: '' e), m1)
      | (None, m1) \<Rightarrow>
          (case open_service env m1 of
             (Some e, m2) \<Rightarrow> (Some (wrapf ''open SunshineService: '' e), m2)
           | (None, m2) \<Rightarrow>
               (case stop_service_if_running env m2 of
                  (Some e, m3) \<Rightarrow> (Some e, m3)
                | (None, m3) \<Rightarrow>
                    (case sys_call env m3 of
                       (Some e, m4) \<Rightarrow> (Some (wrapf ''start SunshineService: '' e), m4)
                     | (None, m4) \<Rightarrow>
                         (case wait_for_service_state env Running 15000 0 (log_effect ServiceStart m4) of
                            (reached, m5) \<Rightarrow>
                              (if reached then None
                               else Some (Msg ''SunshineService did not reach running within 15s''), m5))))))"

definition start_engine :: "sbenv \<Rightarrow> sb_paths \<Rightarrow> start_args \<Rightarrow> machine \<Rightarrow> goerr option \<times> machine" where
  "start_engine env ps a m =
     (case write_bridge_env env a m of
        (Some e, m1) \<Rightarrow> (Some e, m1)
      | (None, m1) \<Rightarrow> restart_engine_service env m1)"

definition stop_engine_service :: "sbenv \<Rightarrow> machine \<Rightarrow> goerr option \<times> machine" where
  "stop_engine_service env m =
     (case sys_call env m of
        (Some e, m1) \<Rightarrow> (Some (wrapf ''connect SCM: '' e), m1)
      | (None, m1) \<Rightarrow>
          (case open_service env m1 of
             (Some e, m2) \<Rightarrow> (None, m2)
           | (None, m2) \<Rightarrow> stop_service_if_running env m2))"

definition stop_solarbeam :: "sbenv \<Rightarrow> sb_paths \<Rightarrow> machine \<Rightarrow> goerr option \<times> machine" where
  "stop_solarbeam env ps m =
     (case stop_engine_service env m of
        (Some e, m1) \<Rightarrow> (Some e, m1)
      | (None, m1) \<Rightarrow>
          (let m2 = (if sp_bridge ps = [] then m1 else terminate_by_name env (path_base (sp_bridge ps)) m1)
           in (case os_remove (host env) bridge_env_file m2 of
                 (Some e, m3) \<Rightarrow>
                   (if errors_is e ErrNotExist then None
                    else Some (wrapf (''remove '' @ bridge_env_file @ '': '') e), m3)
               | (None, m3) \<Rightarrow> (None, m3))))"

definition engine_service_running :: "sbenv \<Rightarrow> machine \<Rightarrow> bool \<times> machine" where
  "engine_service_running env m =
     (case sys_call env m of
        (Some e, m1) \<Rightarrow> (False, m1)
      | (None, m1) \<Rightarrow>
          (case open_service env m1 of
             (Some e, m2) \<Rightarrow> (False, m2)
           | (None, m2) \<Rightarrow> (case query_service env m2 of (st, m3) \<Rightarrow> (st = Inr Running, m3))))"

section \<open>The manager\<close>

text \<open>\<open>New\<close> picks the functions by mode.\<close>

definition prepare_fn :: "sbenv \<Rightarrow> sb_paths \<Rightarrow> machine \<Rightarrow> goerr option \<times> machine" where
  "prepare_fn env ps =
     (if sp_mode ps = ModeInteractive then prepare_engine_interactive env ps else prepare_engine env ps)"

definition engine_fn :: "sbenv \<Rightarrow> sb_paths \<Rightarrow> start_args \<Rightarrow> machine \<Rightarrow> goerr option \<times> machine" where
  "engine_fn env ps =
     (if sp_mode ps = ModeInteractive then start_engine_interactive env ps else start_engine env ps)"

definition stop_fn :: "sbenv \<Rightarrow> sb_paths \<Rightarrow> machine \<Rightarrow> goerr option \<times> machine" where
  "stop_fn env ps =
     (if sp_mode ps = ModeInteractive then stop_solarbeam_interactive env ps else stop_solarbeam env ps)"

definition status_fn :: "sbenv \<Rightarrow> sb_paths \<Rightarrow> machine \<Rightarrow> bool \<times> machine" where
  "status_fn env ps =
     (if sp_mode ps = ModeInteractive then engine_process_running env else engine_service_running env)"

definition manager_start :: "sbenv \<Rightarrow> sb_paths \<Rightarrow> start_args \<Rightarrow> machine \<Rightarrow> goerr option \<times> machine" where
  "manager_start env ps a m =
     (case prepare_fn env ps m of
        (Some e, m1) \<Rightarrow> (Some (wrapf ''engine: '' e), m1)
      | (None, m1) \<Rightarrow>
          (case launch_bridge env ps a m1 of
             (Some e, m2) \<Rightarrow> (Some (wrapf ''bridge launch: '' e), m2)
           | (None, m2) \<Rightarrow>
               (case engine_fn env ps a m2 of
                  (Some e, m3) \<Rightarrow> (Some (wrapf ''engine: '' e), m3)
                | (None, m3) \<Rightarrow> (None, m3))))"

definition manager_stop :: "sbenv \<Rightarrow> sb_paths \<Rightarrow> stop_args \<Rightarrow> machine \<Rightarrow> goerr option \<times> machine" where
  "manager_stop env ps a m =
     (case stop_fn env ps m of
        (Some e, m1) \<Rightarrow> (Some (wrapf ''stop: '' e), m1)
      | (None, m1) \<Rightarrow> (None, m1))"

text \<open>The version words of the file's resource, as \<open>engineFileVersion\<close> prints them.\<close>

definition format_version :: "32 word \<Rightarrow> 32 word \<Rightarrow> string" where
  "format_version ms ls =
     (let major = drop_bit 16 ms; minor = and ms 0xFFFF; build = drop_bit 16 ls; revision = and ls 0xFFFF
      in if revision = 0
         then show_nat (unat major) @ ''.'' @ show_nat (unat minor) @ ''.'' @ show_nat (unat build)
         else show_nat (unat major) @ ''.'' @ show_nat (unat minor) @ ''.'' @ show_nat (unat build) @ ''.'' @
              show_nat (unat revision))"

definition engine_file_version :: "sbenv \<Rightarrow> path \<Rightarrow> string res" where
  "engine_file_version env p =
     (case se_file_version env p of
        Inl e \<Rightarrow> Inl e
      | Inr (ms, ls) \<Rightarrow> Inr (format_version ms ls))"

record engine_status =
  es_running :: bool
  es_engine_version :: string

definition manager_status :: "sbenv \<Rightarrow> sb_paths \<Rightarrow> machine \<Rightarrow> engine_status \<times> machine" where
  "manager_status env ps m =
     (let version = (case engine_file_version env (sp_engine ps) of
                       Inr v \<Rightarrow> if v \<noteq> [] then v else m_last_version m
                     | Inl _ \<Rightarrow> m_last_version m)
      in (case status_fn env ps m of
            (running, m1) \<Rightarrow> (\<lparr>es_running = running, es_engine_version = version\<rparr>, m1)))"

definition solarbeam_engine_product_id :: string where
  "solarbeam_engine_product_id = ''solarbeam-engine''"

definition validate_update_args :: "engine_update_args \<Rightarrow> goerr option" where
  "validate_update_args a =
     (if ea_release_id a = [] \<or> ea_version a = [] \<or> ea_url a = [] \<or> ea_sha256 a = [] \<or>
         ea_signer_fingerprint a = [] \<or> ea_product_id a = [] then
        Some (Msg (''solarbeam engine update args: release_id, version, url, sha256, '' @
                   ''signer_fingerprint and product_id are required''))
      else if \<not> valid_lower_hex256 (ea_sha256 a) then
        Some (Msg ''solarbeam engine update args: sha256 must be 64 lowercase hexadecimal characters'')
      else if \<not> valid_lower_hex256 (ea_signer_fingerprint a) then
        Some (Msg ''solarbeam engine update args: signer_fingerprint must be 64 lowercase hexadecimal characters'')
      else if ea_product_id a \<noteq> solarbeam_engine_product_id then
        Some (Msg (''solarbeam engine update args: product_id must be '' @ go_quote solarbeam_engine_product_id))
      else None)"

definition engine_manager_update ::
  "sbenv \<Rightarrow> trust_calls \<Rightarrow> (string \<Rightarrow> zip_entry list res) \<Rightarrow> (path \<Rightarrow> path res) \<Rightarrow> sb_paths \<Rightarrow>
   engine_update_args \<Rightarrow> machine \<Rightarrow> goerr option \<times> machine" where
  "engine_manager_update env tc unzip abs_path ps a m =
     (case validate_update_args a of
        Some e \<Rightarrow> (Some e, m)
      | None \<Rightarrow>
          (case status_fn env ps m of
             (True, m1) \<Rightarrow> (Some (Msg ''solarbeam engine update: engine is running (stop the session first)''), m1)
           | (False, m1) \<Rightarrow>
               (case apply_engine_update (host env) tc unzip abs_path ps a m1 of
                  (Some e, m2) \<Rightarrow> (Some e, m2)
                | (None, m2) \<Rightarrow> (None, m2\<lparr>m_last_version := ea_version a\<rparr>))))"

section \<open>Waits\<close>

lemma wait_for_listener_log: "w_log (snd (wait_for_listener env t e m)) = w_log m"
proof (induction env t e m rule: wait_for_listener.induct)
  case (1 env t e m)
  then show ?case by (subst wait_for_listener.simps) (auto simp: Let_def split: option.splits)
qed

lemma wait_for_listener_fs:
  "w_fs (snd (wait_for_listener env t e m)) = w_fs m \<and> m_procs (snd (wait_for_listener env t e m)) = m_procs m"
proof (induction env t e m rule: wait_for_listener.induct)
  case (1 env t e m)
  then show ?case by (subst (1 2) wait_for_listener.simps) (auto simp: Let_def tick_def split: option.splits)
qed

lemma wait_for_listener_result:
  "wait_for_listener env t e m = (r, m') \<Longrightarrow>
     w_tick m < w_tick m' \<and> se_dial env (w_tick m' - 1) = r \<and>
     (\<forall>n. w_tick m \<le> n \<and> n < w_tick m' - 1 \<longrightarrow> se_dial env n \<noteq> None)"
proof (induction env t e m arbitrary: r m' rule: wait_for_listener.induct)
  case (1 env t e m)
  show ?case
  proof (cases "se_dial env (w_tick m)")
    case None
    then show ?thesis using "1.prems" by (subst (asm) wait_for_listener.simps) (auto simp: Let_def)
  next
    case (Some err)
    show ?thesis
    proof (cases "t < e + se_dial_time env (w_tick m)")
      case True
      then show ?thesis using "1.prems" Some by (subst (asm) wait_for_listener.simps) (auto simp: Let_def)
    next
      case False
      have rec: "wait_for_listener env t (e + se_dial_time env (w_tick m) + 200) (tick m) = (r, m')"
        using "1.prems" Some False by (subst (asm) wait_for_listener.simps) (simp add: Let_def)
      have "\<forall>n. w_tick m \<le> n \<longrightarrow> n = w_tick m \<or> Suc (w_tick m) \<le> n" by auto
      with "1.IH"[OF refl Some False rec] Some show ?thesis by (auto simp: le_Suc_eq)
    qed
  qed
qed

lemma wait_for_listener_ticks:
  "e \<le> t \<Longrightarrow> (w_tick (snd (wait_for_listener env t e m)) - w_tick m) * 200 \<le> t - e + 400"
proof (induction env t e m rule: wait_for_listener.induct)
  case (1 env t e m)
  let ?now = "e + se_dial_time env (w_tick m)"
  show ?case
  proof (cases "se_dial env (w_tick m) = None \<or> t < ?now")
    case True
    then show ?thesis by (subst wait_for_listener.simps) (auto simp: Let_def split: option.splits)
  next
    case False
    then obtain err where err: "se_dial env (w_tick m) = Some err" by auto
    have step: "wait_for_listener env t e m = wait_for_listener env t (?now + 200) (tick m)"
      using False err by (subst wait_for_listener.simps) (simp add: Let_def)
    show ?thesis
    proof (cases "?now + 200 \<le> t")
      case True
      then show ?thesis using "1.IH"[OF refl err] False by (auto simp: step)
    next
      case late: False
      have "wait_for_listener env t (?now + 200) (tick m) =
          (se_dial env (Suc (w_tick m)), tick (tick m))"
        using late by (subst wait_for_listener.simps) (auto simp: Let_def split: option.splits)
      then show ?thesis by (simp add: step)
    qed
  qed
qed

text \<open>
  The wait for the bridge always ends: \<open>waitForListener\<close> returns nil at the first dial of the
  port that succeeds and at no other time, returns the last dial's error otherwise, and with its
  30-second timeout makes at most 152 dials whatever they take.
\<close>

theorem listener_wait:
  "\<exists>r m'. wait_for_listener env 30000 0 m = (r, m') \<and> r = se_dial env (w_tick m' - 1) \<and>
     w_tick m < w_tick m' \<and> w_tick m' - w_tick m \<le> 152 \<and>
     (\<forall>n. w_tick m \<le> n \<and> n < w_tick m' - 1 \<longrightarrow> se_dial env n \<noteq> None) \<and>
     w_log m' = w_log m \<and> w_fs m' = w_fs m"
proof -
  obtain r m' where run: "wait_for_listener env 30000 0 m = (r, m')" by force
  have "(w_tick m' - w_tick m) * 200 \<le> 30400" using wait_for_listener_ticks[of 0 30000 env m] run by simp
  then have "w_tick m' - w_tick m \<le> 152" by simp
  with wait_for_listener_result[OF run] wait_for_listener_log[of env 30000 0 m]
    wait_for_listener_fs[of env 30000 0 m] run show ?thesis by auto
qed

lemma wait_for_service_state_result:
  "wait_for_service_state env want t e m = (r, m') \<Longrightarrow>
     w_tick m < w_tick m' \<and> r = (se_query env (w_tick m' - 1) = Inr want) \<and>
     (\<forall>n. w_tick m \<le> n \<and> n < w_tick m' - 1 \<longrightarrow> se_query env n \<noteq> Inr want) \<and>
     w_log m' = w_log m \<and> w_fs m' = w_fs m"
proof (induction env want t e m arbitrary: r m' rule: wait_for_service_state.induct)
  case (1 env want t e m)
  have q: "query_service env m = (se_query env (w_tick m), tick m)" by (simp add: query_service_def)
  show ?case
  proof (cases "se_query env (w_tick m) = Inr want \<or> t \<le> e")
    case True
    then show ?thesis
      using "1.prems" by (subst (asm) wait_for_service_state.simps) (auto simp: q split: if_splits)
  next
    case False
    then have rec: "wait_for_service_state env want t (e + se_query_time env (w_tick m) + 250) (tick m) = (r, m')"
      using "1.prems" by (subst (asm) wait_for_service_state.simps) (simp add: q)
    have "\<forall>n. w_tick m \<le> n \<longrightarrow> n = w_tick m \<or> Suc (w_tick m) \<le> n" by auto
    with "1.IH"[OF q[symmetric] _ _ rec] False show ?thesis by (auto simp: le_Suc_eq)
  qed
qed

text \<open>
  A service transition is reported reached only on evidence: \<open>waitForServiceState\<close> returns,
  after finitely many polls, true exactly when its last poll saw the wanted state, at the first poll
  that does, and it changes nothing.
\<close>

theorem service_wait:
  "\<exists>r m'. wait_for_service_state env want timeout 0 m = (r, m') \<and>
     r = (se_query env (w_tick m' - 1) = Inr want) \<and> w_tick m < w_tick m' \<and>
     (\<forall>n. w_tick m \<le> n \<and> n < w_tick m' - 1 \<longrightarrow> se_query env n \<noteq> Inr want) \<and>
     w_log m' = w_log m \<and> w_fs m' = w_fs m"
proof -
  obtain r m' where run: "wait_for_service_state env want timeout 0 m = (r, m')" by force
  from wait_for_service_state_result[OF run] run show ?thesis by auto
qed

section \<open>The order of a start\<close>

definition is_spawn :: "effect \<Rightarrow> bool" where
  "is_spawn e = (case e of Spawn x d vs \<Rightarrow> True | _ \<Rightarrow> False)"

definition spawns :: "machine \<Rightarrow> effect list" where
  "spawns m = filter is_spawn (w_log m)"

lemma sys_call_frame: "sys_call env m = (r, m') \<Longrightarrow> m' = tick m"
  by (auto simp: sys_call_def)

lemma spawns_simps [simp]:
  "spawns (tick m) = spawns m" "spawns (put p c m) = spawns m"
  "spawns (log_effect (KillName n) m) = spawns m" "spawns (log_effect (KillPid k) m) = spawns m"
  "spawns (log_effect (ServiceCreate p) m) = spawns m" "spawns (log_effect ServiceStart m) = spawns m"
  "spawns (log_effect ServiceStop m) = spawns m"
  "spawns (log_effect (Spawn x d vs) m) = spawns m @ [Spawn x d vs]"
  "spawns (m\<lparr>m_procs := ps\<rparr>) = spawns m" "spawns (m\<lparr>m_next_pid := k\<rparr>) = spawns m"
  "spawns (m\<lparr>m_service := b\<rparr>) = spawns m" "spawns (m\<lparr>m_engine_proc := ep\<rparr>) = spawns m"
  by (simp_all add: spawns_def is_spawn_def)

lemma spawns_log: "w_log m' = w_log m \<Longrightarrow> spawns m' = spawns m"
  by (simp add: spawns_def)

lemma terminate_spawns [simp]: "spawns (terminate_by_name env n m) = spawns m"
  by (auto simp: terminate_by_name_def split: prod.splits option.splits dest: sys_call_frame)

lemma kill_engine_spawns [simp]: "spawns (kill_engine_proc env m) = spawns m"
  by (auto simp: kill_engine_proc_def kill_pid_def split: prod.splits option.splits dest: sys_call_frame)

lemma child_log_spawns [simp]: "spawns (open_child_log env d n m) = spawns m"
  by (auto simp: open_child_log_def split: prod.splits option.splits
      dest!: sys_call_frame os_mkdir_all_log spawns_log)

lemma binary_exists_spawns: "engine_binary_exists env p m = (r, m') \<Longrightarrow> spawns m' = spawns m"
  by (auto simp: engine_binary_exists_def split: if_splits prod.splits option.splits
      dest!: os_stat_log spawns_log)

lemma start_cmd_spawns:
  "start_cmd env x d vs m = (r, m') \<Longrightarrow>
     spawns m' = spawns m @ (case r of Inl e \<Rightarrow> [] | Inr pid \<Rightarrow> [Spawn x d vs])"
  by (auto simp: start_cmd_def split: prod.splits option.splits dest!: sys_call_frame)

text \<open>
  What \<open>Start\<close> needs of a launch mode: preparing starts no process, the engine step starts none but
  the engine.
\<close>

locale launch_mode =
  fixes prepare :: "machine \<Rightarrow> goerr option \<times> machine"
    and engine :: "machine \<Rightarrow> goerr option \<times> machine"
    and engine_spawns :: "effect list"
  assumes prepare_quiet: "prepare m = (r, m') \<Longrightarrow> spawns m' = spawns m"
    and engine_only: "engine m = (r, m') \<Longrightarrow> r = None \<Longrightarrow> spawns m' = spawns m @ engine_spawns"
    and engine_failed: "engine m = (r, m') \<Longrightarrow> r \<noteq> None \<Longrightarrow> spawns m' = spawns m"
begin

definition start :: "(machine \<Rightarrow> goerr option \<times> machine) \<Rightarrow> machine \<Rightarrow> goerr option \<times> machine" where
  "start launch m =
     (case prepare m of
        (Some e, m1) \<Rightarrow> (Some (wrapf ''engine: '' e), m1)
      | (None, m1) \<Rightarrow>
          (case launch m1 of
             (Some e, m2) \<Rightarrow> (Some (wrapf ''bridge launch: '' e), m2)
           | (None, m2) \<Rightarrow>
               (case engine m2 of
                  (Some e, m3) \<Rightarrow> (Some (wrapf ''engine: '' e), m3)
                | (None, m3) \<Rightarrow> (None, m3))))"

lemma start_unprepared:
  "prepare m = (Some e, m1) \<Longrightarrow> start launch m = (Some (wrapf ''engine: '' e), m1) \<and> spawns m1 = spawns m"
  using prepare_quiet by (simp add: start_def)

lemma start_order:
  assumes "start launch m = (r, m')"
    and "\<And>u s u'. launch u = (s, u') \<Longrightarrow> spawns u' = spawns u \<or> spawns u' = spawns u @ [b]"
    and "\<And>u u'. launch u = (None, u') \<Longrightarrow> spawns u' = spawns u @ [b]"
  shows "r = None \<Longrightarrow> spawns m' = spawns m @ b # engine_spawns \<and>
      (\<exists>m1 m2. prepare m = (None, m1) \<and> launch m1 = (None, m2) \<and> engine m2 = (None, m'))"
    and "r \<noteq> None \<Longrightarrow> spawns m' = spawns m \<or> spawns m' = spawns m @ [b]"
proof -
  obtain r1 m1 where p: "prepare m = (r1, m1)" by force
  obtain r2 m2 where l: "launch m1 = (r2, m2)" by force
  obtain r3 m3 where e: "engine m2 = (r3, m3)" by force
  note q = prepare_quiet[OF p] and l1 = assms(2)[OF l] and eo = engine_only[OF e] and ef = engine_failed[OF e]
  { assume "r = None"
    then have "r1 = None" "r2 = None" "r3 = None" "m' = m3"
      using assms(1) p l e by (auto simp: start_def split: option.splits)
    then show "spawns m' = spawns m @ b # engine_spawns \<and>
      (\<exists>m1 m2. prepare m = (None, m1) \<and> launch m1 = (None, m2) \<and> engine m2 = (None, m'))"
      using p l e q eo assms(3)[of m1 m2] by auto }
  { assume "r \<noteq> None"
    then show "spawns m' = spawns m \<or> spawns m' = spawns m @ [b]"
      using assms(1) p l e q l1 ef assms(3)[of m1 m2] by (auto simp: start_def split: option.splits) }
qed

end

lemma start_engine_interactive_spawns:
  "start_engine_interactive env ps a m = (r, m') \<Longrightarrow>
     spawns m' = spawns m @ (if r = None then [Spawn (sp_engine ps) (path_dir (sp_engine ps)) (engine_vars a)] else [])"
  by (auto simp: start_engine_interactive_def Let_def split: prod.splits sum.splits dest!: start_cmd_spawns)

interpretation interactive: launch_mode "prepare_engine_interactive env ps" "start_engine_interactive env ps a"
  "[Spawn (sp_engine ps) (path_dir (sp_engine ps)) (engine_vars a)]" for env ps a
  by unfold_locales
     (auto simp: prepare_engine_interactive_def dest: binary_exists_spawns start_engine_interactive_spawns)

lemma open_service_spawns: "open_service env m = (r, m') \<Longrightarrow> spawns m' = spawns m"
  by (auto simp: open_service_def split: prod.splits option.splits dest!: sys_call_frame)

lemma query_service_spawns: "query_service env m = (r, m') \<Longrightarrow> spawns m' = spawns m"
  by (auto simp: query_service_def)

lemma wait_state_spawns: "wait_for_service_state env want t e m = (r, m') \<Longrightarrow> spawns m' = spawns m"
  by (auto dest!: wait_for_service_state_result spawns_log)

lemma sys_call_spawns: "sys_call env m = (r, m') \<Longrightarrow> spawns m' = spawns m"
  by (auto dest!: sys_call_frame)

lemma os_spawns:
  "os_stat e p m = (r1, m1) \<Longrightarrow> spawns m1 = spawns m"
  "os_mkdir_all e p m = (r2, m2) \<Longrightarrow> spawns m2 = spawns m"
  "os_write_file e p c m = (r3, m3) \<Longrightarrow> spawns m3 = spawns m"
  "os_remove e p m = (r4, m4) \<Longrightarrow> spawns m4 = spawns m"
  by (drule os_stat_log os_mkdir_all_log os_write_file_log os_remove_log, rule spawns_log, assumption)+

lemma ensure_engine_service_spawns: "ensure_engine_service env p m = (r, m') \<Longrightarrow> spawns m' = spawns m"
  by (auto simp: ensure_engine_service_def split: prod.splits option.splits
      dest!: sys_call_spawns open_service_spawns os_spawns(1))

lemma prepare_engine_spawns: "prepare_engine env ps m = (r, m') \<Longrightarrow> spawns m' = spawns m"
  by (auto simp: prepare_engine_def split: prod.splits option.splits
      dest!: binary_exists_spawns ensure_engine_service_spawns)

lemma stop_service_spawns: "stop_service_if_running env m = (r, m') \<Longrightarrow> spawns m' = spawns m"
  by (auto simp: stop_service_if_running_def split: prod.splits option.splits sum.splits if_splits
      dest!: sys_call_spawns query_service_spawns wait_state_spawns)

lemma restart_engine_spawns: "restart_engine_service env m = (r, m') \<Longrightarrow> spawns m' = spawns m"
  by (auto simp: restart_engine_service_def split: prod.splits option.splits if_splits
      dest!: sys_call_spawns open_service_spawns stop_service_spawns wait_state_spawns)

lemma write_bridge_env_spawns: "write_bridge_env env a m = (r, m') \<Longrightarrow> spawns m' = spawns m"
  by (auto simp: write_bridge_env_def split: prod.splits option.splits dest!: os_spawns(2,3))

lemma start_engine_spawns: "start_engine env ps a m = (r, m') \<Longrightarrow> spawns m' = spawns m"
  by (auto simp: start_engine_def split: prod.splits option.splits
      dest!: write_bridge_env_spawns restart_engine_spawns)

text \<open>In managed mode the service host starts the engine; the agent spawns the bridge alone.\<close>

interpretation managed: launch_mode "prepare_engine env ps" "start_engine env ps a" "[]" for env ps a
  by unfold_locales (auto dest: prepare_engine_spawns start_engine_spawns)

lemma manager_start_modes:
  "sp_mode ps = ModeInteractive \<Longrightarrow>
     manager_start env ps a m = interactive.start env ps a (launch_bridge env ps a) m"
  "sp_mode ps = ModeManaged \<Longrightarrow>
     manager_start env ps a m = managed.start env ps a (launch_bridge env ps a) m"
proof -
  assume "sp_mode ps = ModeInteractive"
  then have "prepare_fn env ps = prepare_engine_interactive env ps" "engine_fn env ps = start_engine_interactive env ps"
    by (simp_all add: prepare_fn_def engine_fn_def)
  then show "manager_start env ps a m = interactive.start env ps a (launch_bridge env ps a) m"
    unfolding manager_start_def interactive.start_def by (simp only:)
next
  assume "sp_mode ps = ModeManaged"
  then have "prepare_fn env ps = prepare_engine env ps" "engine_fn env ps = start_engine env ps"
    by (simp_all add: prepare_fn_def engine_fn_def)
  then show "manager_start env ps a m = managed.start env ps a (launch_bridge env ps a) m"
    unfolding manager_start_def managed.start_def by (simp only:)
qed

definition bridge_spawn :: "sb_paths \<Rightarrow> start_args \<Rightarrow> effect" where
  "bridge_spawn ps a = Spawn (sp_bridge ps) [] (bridge_vars a)"

definition engine_spawn :: "sb_paths \<Rightarrow> start_args \<Rightarrow> effect" where
  "engine_spawn ps a = Spawn (sp_engine ps) (path_dir (sp_engine ps)) (engine_vars a)"

lemma launch_bridge_result:
  assumes "launch_bridge env ps a m = (r, m')"
  shows "(spawns m' = spawns m \<or> spawns m' = spawns m @ [bridge_spawn ps a]) \<and>
    (r = None \<longrightarrow> spawns m' = spawns m @ [bridge_spawn ps a] \<and> se_dial env (w_tick m' - 1) = None)"
proof (cases "sp_bridge ps = []")
  case True
  then have "launch_bridge env ps a m = (Some (Msg ''bridge path not configured''), m)"
    by (simp only: launch_bridge_def if_True simp_thms)
  then show ?thesis using assms by simp
next
  case False
  define m2 where "m2 = open_child_log env
    (if sp_mode ps = ModeInteractive then child_log_dir_interactive env else child_log_dir) ''bridge.log''
    (terminate_by_name env (path_base (sp_bridge ps)) m)"
  have sp2: "spawns m2 = spawns m" by (simp add: m2_def)
  obtain x m3 where st: "start_cmd env (sp_bridge ps) [] (bridge_vars a) m2 = (x, m3)" by force
  note sp = start_cmd_spawns[OF st]
  have eq: "launch_bridge env ps a m =
      (case x of Inl e \<Rightarrow> (Some (wrapf ''start bridge: '' e), m3)
       | Inr pid \<Rightarrow> (case wait_for_listener env 30000 0 m3 of
             (Some e, m4) \<Rightarrow> (Some (wrapf (''bridge not listening on '' @ bridge_ws_addr @ '': '') e), m4)
           | (None, m4) \<Rightarrow> (None, m4)))"
  proof -
    have "launch_bridge env ps a m =
      (case start_cmd env (sp_bridge ps) [] (bridge_vars a) m2 of
         (Inl e, m3) \<Rightarrow> (Some (wrapf ''start bridge: '' e), m3)
       | (Inr pid, m3) \<Rightarrow> (case wait_for_listener env 30000 0 m3 of
             (Some e, m4) \<Rightarrow> (Some (wrapf (''bridge not listening on '' @ bridge_ws_addr @ '': '') e), m4)
           | (None, m4) \<Rightarrow> (None, m4)))"
      by (simp only: launch_bridge_def False if_False Let_def m2_def)
    then show ?thesis by (simp only: st prod.case)
  qed
  show ?thesis
  proof (cases x)
    case (Inl e)
    then have "m' = m3 \<and> r \<noteq> None" using assms unfolding eq Inl sum.case by (cases r) simp_all
    then show ?thesis using sp sp2 Inl by simp
  next
    case (Inr pid)
    obtain y m4 where wt: "wait_for_listener env 30000 0 m3 = (y, m4)" by force
    have log: "spawns m4 = spawns m3"
      using wait_for_listener_log[of env 30000 0 m3] wt by (intro spawns_log) simp
    have m': "m' = m4 \<and> (r = None \<longleftrightarrow> y = None)"
      using assms unfolding eq Inr sum.case wt prod.case by (cases y) auto
    have "y = None \<Longrightarrow> se_dial env (w_tick m4 - 1) = None"
      using wait_for_listener_result[OF wt] by blast
    then show ?thesis
      using log sp sp2 Inr m' by (simp add: bridge_spawn_def)
  qed
qed

lemmas launch_laws = launch_bridge_result[THEN conjunct1]
  launch_bridge_result[THEN conjunct2, rule_format, OF _ refl, THEN conjunct1]


definition sample_sbenv :: sbenv where
  "sample_sbenv = hostenv.extend (sample_env\<lparr>he_getenv := (\<lambda>k. ''C:'')\<rparr>)
     \<lparr>se_query = (\<lambda>n. Inr Stopped), se_query_time = (\<lambda>n. 0), se_dial = (\<lambda>n. None), se_dial_time = (\<lambda>n. 0),
      se_file_version = (\<lambda>p. Inr (0x00010002, 0x00030000))\<rparr>"

definition session_paths :: sb_paths where
  "session_paths = \<lparr>sp_engine = engine_path, sp_bridge = ''b.exe'', sp_root = [], sp_mode = ModeInteractive\<rparr>"

definition session_args :: start_args where
  "session_args = \<lparr>sa_session_id = ''s'', sa_machine_id = ''m'', sa_readyapp_url = ''u'', sa_bundle_token = ''t''\<rparr>"

definition session_machine :: machine where
  "session_machine = world.extend engine_world
     \<lparr>m_procs = [], m_next_pid = 4, m_service = False, m_last_version = [], m_engine_proc = None\<rparr>"

text \<open>Without faults, with the engine in place and the bridge listening, a start succeeds.\<close>

lemma sys_call_quiet: "he_fault env = (\<lambda>n. None) \<Longrightarrow> sys_call env m = (None, tick m)"
  by (simp add: sys_call_def hostenv.defs)

lemma start_cmd_quiet: "he_fault env = (\<lambda>n. None) \<Longrightarrow> \<exists>pid m'. start_cmd env x d vs m = (Inr pid, m')"
  by (simp add: start_cmd_def sys_call_quiet)

lemma launch_bridge_quiet:
  assumes "he_fault env = (\<lambda>n. None)" "se_dial env = (\<lambda>n. None)" "sp_bridge ps \<noteq> []"
  shows "fst (launch_bridge env ps a m) = None"
proof -
  have wait: "wait_for_listener env 30000 0 u = (None, tick u)" for u
    using assms(2) by (subst wait_for_listener.simps) simp
  have "fst (case start_cmd env (sp_bridge ps) [] (bridge_vars a) u of
        (Inl e, m3) \<Rightarrow> (Some (wrapf ''start bridge: '' e), m3)
      | (Inr pid, m3) \<Rightarrow> (case wait_for_listener env 30000 0 m3 of
            (Some e, m4) \<Rightarrow> (Some (wrapf (''bridge not listening on '' @ bridge_ws_addr @ '': '') e), m4)
          | (None, m4) \<Rightarrow> (None, m4))) = None" for u
    using start_cmd_quiet[OF assms(1), of "sp_bridge ps" "[]" "bridge_vars a" u] wait by auto
  then show ?thesis using assms(3) by (simp add: launch_bridge_def Let_def)
qed

lemma start_interactive_succeeds:
  assumes "he_fault env = (\<lambda>n. None)" "se_dial env = (\<lambda>n. None)" "sp_bridge ps \<noteq> []"
    and "sp_mode ps = ModeInteractive" "sp_engine ps \<noteq> []" "w_fs m (sp_engine ps) \<noteq> None"
  shows "fst (manager_start env ps a m) = None"
proof -
  obtain m2 where l: "launch_bridge env ps a (tick m) = (None, m2)"
    using launch_bridge_quiet[OF assms(1-3), of a "tick m"] by (metis prod.collapse)
  have p: "prepare_fn env ps m = (None, tick m)"
    using assms by (simp add: prepare_fn_def prepare_engine_interactive_def engine_binary_exists_def os_stat_def
        hostenv.defs)
  have "fst (engine_fn env ps a m2) = None"
    using assms(4) start_cmd_quiet[OF assms(1)]
    by (auto simp: engine_fn_def start_engine_interactive_def Let_def split: prod.splits sum.splits)
      (metis Inl_Inr_False prod.inject)
  with l p show ?thesis by (auto simp: manager_start_def split: prod.splits option.splits)
qed

lemma session_starts: "fst (manager_start sample_sbenv session_paths session_args session_machine) = None"
  by (rule start_interactive_succeeds)
     (simp_all add: sample_sbenv_def session_paths_def session_machine_def sample_env_def quiet_env_def
        hostenv.defs world.defs engine_path_def install_path_def engine_world_def)


section \<open>The end of a session\<close>

text \<open>
  \<open>Stop\<close> in the interactive mode always succeeds and forgets the engine: afterwards \<open>Status\<close>
  reports it not running, whatever the processes did, and no process was started. Stopping twice is
  as stopping once.
\<close>

theorem stop_ends_interactive_session:
  assumes "sp_mode ps = ModeInteractive"
  shows "\<exists>m'. manager_stop env ps a m = (None, m') \<and> m_engine_proc m' = None \<and> spawns m' = spawns m \<and>
    es_running (fst (manager_status env ps m')) = False \<and>
    fst (manager_stop env ps a m') = None"
proof -
  have ends: "fst (manager_stop env ps a u) = None" for u
    using assms by (simp add: manager_stop_def stop_fn_def stop_solarbeam_interactive_def Let_def)
  have proc: "m_engine_proc (terminate_by_name env n u) = m_engine_proc u" for n u
    by (auto simp: terminate_by_name_def log_effect_def tick_def split: prod.splits option.splits dest!: sys_call_frame)
  let ?m = "snd (manager_stop env ps a m)"
  have k: "m_engine_proc (kill_engine_proc env m) = None"
    by (simp add: kill_engine_proc_def split: option.splits)
  have m: "?m = (if sp_bridge ps = [] then kill_engine_proc env m
      else terminate_by_name env (path_base (sp_bridge ps)) (kill_engine_proc env m))"
    using assms by (simp add: manager_stop_def stop_fn_def stop_solarbeam_interactive_def Let_def)
  have none: "m_engine_proc ?m = None" using k proc by (simp add: m)
  then have "es_running (fst (manager_status env ps ?m)) = False"
    using assms by (simp add: manager_status_def status_fn_def engine_process_running_def Let_def)
  moreover have "spawns ?m = spawns m" by (simp add: m)
  ultimately show ?thesis using ends none by (metis prod.collapse)
qed

theorem stop_ends_interactive_session_witness:
  "\<exists>m'. manager_stop sample_sbenv session_paths \<lparr>st_session_id = ''s''\<rparr> session_machine = (None, m') \<and>
     m_engine_proc m' = None"
  using stop_ends_interactive_session[of session_paths sample_sbenv "\<lparr>st_session_id = ''s''\<rparr>" session_machine]
  by (auto simp: session_paths_def)

text \<open>
  The error of killing the engine is dropped with its handle: below it still runs after a \<open>Stop\<close> that
  reported success, no later \<open>Stop\<close> will look for it, and \<open>Status\<close> denies it, so that the checks which
  keep updates from a running engine pass.
\<close>

definition kill_fails_env :: sbenv where
  "kill_fails_env = sample_sbenv\<lparr>he_fault := (\<lambda>n. if n = 0 then Some (Msg ''access denied'', 0) else None)\<rparr>"

definition live_machine :: machine where
  "live_machine = session_machine\<lparr>w_tick := 0, m_procs := [(4, ''x'')], m_engine_proc := Some 4\<rparr>"

lemma stop_forgets_live_engine:
  "\<exists>m'. manager_stop kill_fails_env session_paths a live_machine = (None, m') \<and> (4, ''x'') \<in> set (m_procs m') \<and>
     m_engine_proc m' = None \<and> fst (status_fn kill_fails_env session_paths m') = False \<and>
     fst (status_fn sample_sbenv session_paths live_machine) = True"
proof -
  have "to_lower ''x'' \<noteq> to_lower (path_base ''b.exe'')" by code_simp
  then show ?thesis
    by (simp add: manager_stop_def stop_fn_def stop_solarbeam_interactive_def Let_def session_paths_def
        kill_engine_proc_def kill_pid_def live_machine_def kill_fails_env_def sys_call_def hostenv.defs
        terminate_by_name_def log_effect_def tick_def status_fn_def engine_process_running_def
        sample_sbenv_def sample_env_def quiet_env_def session_machine_def world.defs)
qed

text \<open>
  An engine that fails to launch leaves the bridge of the failed session running, connected with the
  session's token: nothing in \<open>Start\<close> stops it.
\<close>

definition engine_fails_env :: sbenv where
  "engine_fails_env = sample_sbenv\<lparr>he_fault := (\<lambda>n. if n = 8 then Some (Msg ''access denied'', 0) else None)\<rparr>"

theorem failed_start_leaves_bridge:
  "fst (manager_start engine_fails_env session_paths session_args session_machine) \<noteq> None \<and>
   map snd (m_procs (snd (manager_start engine_fails_env session_paths session_args session_machine))) = [''b.exe'']"
  by code_simp

section \<open>Updating the engine\<close>

definition acceptable_engine_update :: "engine_update_args \<Rightarrow> bool" where
  "acceptable_engine_update a \<longleftrightarrow>
     ea_release_id a \<noteq> [] \<and> ea_version a \<noteq> [] \<and> ea_url a \<noteq> [] \<and>
     length (ea_sha256 a) = 64 \<and> list_all is_lower_hex (ea_sha256 a) \<and>
     length (ea_signer_fingerprint a) = 64 \<and> list_all is_lower_hex (ea_signer_fingerprint a) \<and>
     ea_product_id a = ''solarbeam-engine''"

lemma validate_update_args_iff: "validate_update_args a = None \<longleftrightarrow> acceptable_engine_update a"
  by (auto simp: validate_update_args_def acceptable_engine_update_def valid_hex_iff
      solarbeam_engine_product_id_def)

text \<open>
  The engine is replaced only while it is not running, and only for a well-formed order: with
  arguments that fail a check, or with the engine running when the update looks, \<open>Update\<close> is an
  error and no file changes. The version \<open>Status\<close> falls back to changes exactly on success, to the
  version ordered, after the binary in place has passed its signer pin.
\<close>

theorem engine_update_guarded:
  assumes "engine_manager_update env tc unzip abs_path ps a m = (r, m')"
  shows "(\<not> acceptable_engine_update a \<or> fst (status_fn env ps m) \<longrightarrow> r \<noteq> None \<and> w_fs m' = w_fs m) \<and>
    (r = None \<longrightarrow> m_last_version m' = ea_version a \<and>
       verify_authenticode (he_sha256 env) tc (sp_engine ps) (ea_signer_fingerprint a) = Returns None)"
proof -
  obtain run m1 where st: "status_fn env ps m = (run, m1)" by force
  have fs1: "w_fs m1 = w_fs m"
    using st by (auto simp: status_fn_def engine_process_running_def engine_service_running_def
        open_service_def query_service_def split: if_splits option.splits prod.splits dest!: sys_call_frame)
  have sha: "he_sha256 (host env) = he_sha256 env" by (simp add: hostenv.defs)
  show ?thesis
  proof (cases "validate_update_args a")
    case (Some e)
    then have "r = Some e \<and> m' = m" using assms by (auto simp: engine_manager_update_def)
    then show ?thesis by simp
  next
    case None
    then have ok: "acceptable_engine_update a" by (simp add: validate_update_args_iff)
    show ?thesis
    proof (cases run)
      case True
      then have "r \<noteq> None \<and> m' = m1" using assms None st by (auto simp: engine_manager_update_def)
      then show ?thesis using fs1 by auto
    next
      case False
      obtain r2 m2 where ap: "apply_engine_update (host env) tc unzip abs_path ps a m1 = (r2, m2)" by force
      show ?thesis
      proof (cases r2)
        case r2: None
        then have "r = None \<and> m_last_version m' = ea_version a"
          using assms None st False ap by (auto simp: engine_manager_update_def)
        then show ?thesis using ok st False apply_engine_update_pin ap r2 sha by fastforce
      next
        case (Some e)
        then have "r = Some e" using assms None st False ap by (auto simp: engine_manager_update_def)
        then show ?thesis using ok st False by simp
      qed
    qed
  qed
qed

theorem engine_update_guarded_witness:
  "\<exists>e m'. engine_manager_update sample_sbenv (sample_trust None) (\<lambda>s. Inr []) Inr session_paths
     (sample_engine_args\<lparr>ea_product_id := ''other''\<rparr>) session_machine = (Some e, m') \<and>
     w_fs m' = w_fs session_machine"
proof -
  obtain r m' where run: "engine_manager_update sample_sbenv (sample_trust None) (\<lambda>s. Inr []) Inr session_paths
     (sample_engine_args\<lparr>ea_product_id := ''other''\<rparr>) session_machine = (r, m')" by force
  have "\<not> acceptable_engine_update (sample_engine_args\<lparr>ea_product_id := ''other''\<rparr>)"
    by (simp add: acceptable_engine_update_def)
  with engine_update_guarded[OF run] run show ?thesis by auto
qed

section \<open>The file version\<close>

lemma below_2_16: fixes x :: "32 word" assumes "x < 65536" shows "take_bit 16 x = x"
proof (rule unsigned_word_eqI)
  have "unat x < 65536" using assms by (simp add: word_less_nat_alt)
  then show "unat (take_bit 16 x) = unat x" by (subst unsigned_take_bit_eq) (simp_all add: take_bit_eq_mod)
qed

lemma high_half: fixes x y :: "32 word" assumes "x < 65536" "y < 65536" shows "drop_bit 16 (or (push_bit 16 x) y) = x"
proof -
  have "drop_bit 16 (or (push_bit 16 (take_bit 16 x)) (take_bit 16 y)) = take_bit 16 x"
    by (rule bit_word_eqI) (auto simp: bit_simps)
  then show ?thesis using assms by (simp add: below_2_16)
qed

lemma low_half: fixes x y :: "32 word" assumes "y < 65536" shows "and (or (push_bit 16 x) y) 0xFFFF = y"
proof -
  have m: "(0xFFFF :: 32 word) = mask 16" by (simp add: mask_numeral)
  have "and (or (push_bit 16 x) (take_bit 16 y)) (mask 16) = take_bit 16 y"
    by (rule bit_word_eqI) (auto simp: bit_simps)
  then show ?thesis using assms by (simp add: below_2_16 m)
qed

text \<open>
  The version string is the four 16-bit numbers of the version resource, each in decimal and
  none lost: for the words any four numbers below \<open>2^16\<close> pack into, \<open>engineFileVersion\<close> prints
  exactly them, the last one only when it is not zero, and so no part is printed above 65535.
\<close>

theorem file_version_words:
  fixes a b c d :: "32 word"
  assumes "a < 65536" "b < 65536" "c < 65536" "d < 65536"
  shows "format_version (or (push_bit 16 a) b) (or (push_bit 16 c) d) =
    show_nat (unat a) @ ''.'' @ show_nat (unat b) @ ''.'' @ show_nat (unat c) @
      (if d = 0 then [] else ''.'' @ show_nat (unat d))"
  unfolding format_version_def Let_def high_half[OF assms(1,2)] high_half[OF assms(3,4)]
    low_half[OF assms(2)] low_half[OF assms(4)] by simp

theorem file_version_words_witness:
  "format_version (or (push_bit 16 1) 2) (or (push_bit 16 3) 0) =
     show_nat 1 @ ''.'' @ show_nat 2 @ ''.'' @ show_nat 3"
  using file_version_words[of 1 2 3 0] by simp

section \<open>Waits on a quiet machine\<close>

theorem listener_wait_witness:
  "\<exists>m'. wait_for_listener sample_sbenv 30000 0 session_machine = (None, m') \<and>
     w_tick m' - w_tick session_machine \<le> 152"
  using listener_wait[of sample_sbenv session_machine] by (auto simp: sample_sbenv_def hostenv.defs)

theorem service_wait_witness:
  "\<exists>m'. wait_for_service_state sample_sbenv Running 15000 0 session_machine = (False, m') \<and>
     w_fs m' = w_fs session_machine"
  using service_wait[of sample_sbenv Running 15000 session_machine]
  by (auto simp: sample_sbenv_def hostenv.defs)

end
