(* ===== verification/Inventory.thy ===== *)
theory Inventory
  imports Solarbeam
begin

text \<open>
  The six-field snapshot of \<open>internal/lightinventory\<close>. Reading \<open>ProductName\<close> from the registry and
  the build's \<open>GOARCH\<close> are arguments; the manager is \<open>None\<close> when nil.
\<close>

definition os_family :: string where "os_family = ''windows''"

text \<open>
  The leftmost match of \<open>Windows (?:Server )?(\d+)\<close>: its group. The digits are all that follow.
\<close>

definition version_here :: "string \<Rightarrow> string option" where
  "version_here s =
     (if has_prefix s ''Windows ''
      then (let r = drop 8 s;
                d = takeWhile is_digit (if has_prefix r ''Server '' then drop 7 r else r)
            in if d = [] then None else Some d)
      else None)"

fun find_version :: "string \<Rightarrow> string option" where
  "find_version [] = None"
| "find_version (c # s) =
     (case version_here (c # s) of Some d \<Rightarrow> Some d | None \<Rightarrow> find_version s)"

definition current_version_key :: string where
  "current_version_key =
     ''SOFTWARE'' @ CHR 0x5C # ''Microsoft'' @ CHR 0x5C # ''Windows NT'' @ CHR 0x5C # ''CurrentVersion''"

text \<open>\<open>key\<close> is the outcome of opening the key, \<open>name\<close> that of reading its value.\<close>

definition os_major_version :: "goerr option \<Rightarrow> string res \<Rightarrow> string res" where
  "os_major_version key name =
     (case key of
        Some e \<Rightarrow> Inl (wrapf (''lightinventory: open '' @ current_version_key @ '': '') e)
      | None \<Rightarrow>
          (case name of
             Inl e \<Rightarrow> Inl (wrapf ''lightinventory: read ProductName: '' e)
           | Inr p \<Rightarrow>
               (case find_version p of
                  None \<Rightarrow> Inl (Msg (''lightinventory: could not parse major version from ProductName '' @ go_quote p))
                | Some d \<Rightarrow> Inr d)))"

definition collect ::
  "string res \<Rightarrow> string \<Rightarrow> string \<Rightarrow> (sbenv \<times> sb_paths) option \<Rightarrow> machine \<Rightarrow> light_inventory res \<times> machine" where
  "collect major arch version manager m =
     (case major of
        Inl e \<Rightarrow> (Inl e, m)
      | Inr v \<Rightarrow>
          (let data = \<lparr>li_os_family = os_family, li_os_major_version = v, li_architecture = arch,
                       li_agent_version = version, li_solarbeam_version = [], li_solarbeam_status = []\<rparr>
           in (case manager of
                 None \<Rightarrow> (Inr data, m)
               | Some (env, ps) \<Rightarrow>
                   (case manager_status env ps m of
                      (st, m1) \<Rightarrow>
                        (Inr (data\<lparr>li_solarbeam_version := es_engine_version st,
                                   li_solarbeam_status := (if es_running st then ''running'' else ''stopped'')\<rparr>),
                         m1)))))"

section \<open>Properties\<close>

text \<open>A version is a non-empty run of digits of the product name, after the word \<open>Windows\<close>.\<close>

lemma version_here_Some:
  assumes "version_here s = Some d"
  shows "d \<noteq> [] \<and> list_all is_digit d \<and> (\<exists>u v. s = ''Windows '' @ u @ d @ v \<and> u \<in> {[], ''Server ''})"
proof -
  define r where "r = drop 8 s"
  define q where "q = (if has_prefix r ''Server '' then drop 7 r else r)"
  have s: "s = ''Windows '' @ r" and d: "d = takeWhile is_digit q" "d \<noteq> []"
    using assms by (auto simp: version_here_def r_def q_def Let_def has_prefix_iff split: if_splits)
  let ?u = "if has_prefix r ''Server '' then ''Server '' else []"
  have r: "r = ?u @ q" by (auto simp: q_def has_prefix_iff)
  have q: "q = d @ dropWhile is_digit q" using d(1) by simp
  have "s = ''Windows '' @ ?u @ d @ dropWhile is_digit q" using s r q by metis
  moreover have "?u \<in> {[], ''Server ''}" by simp
  ultimately have "\<exists>u v. s = ''Windows '' @ u @ d @ v \<and> u \<in> {[], ''Server ''}" by blast
  with d show ?thesis by (auto simp: list_all_iff dest: set_takeWhileD)
qed

lemma find_version_Some:
  "find_version s = Some d \<Longrightarrow>
     d \<noteq> [] \<and> list_all is_digit d \<and> (\<exists>t u v. s = t @ ''Windows '' @ u @ d @ v \<and> u \<in> {[], ''Server ''})"
proof (induction s)
  case (Cons c s)
  show ?case
  proof (cases "version_here (c # s)")
    case None
    then have "find_version s = Some d" using Cons.prems by simp
    with Cons.IH obtain t u v where "d \<noteq> []" "list_all is_digit d" "s = t @ ''Windows '' @ u @ d @ v" "u \<in> {[], ''Server ''}"
      by blast
    then show ?thesis by (metis append_Cons)
  next
    case (Some d')
    then have "version_here (c # s) = Some d" using Cons.prems by simp
    from version_here_Some[OF this] show ?thesis by (metis append_Nil)
  qed
qed simp

lemma find_version_None:
  "find_version s = None \<longleftrightarrow> (\<forall>t r. s = t @ r \<longrightarrow> version_here r = None)"
proof (induction s)
  case Nil
  then show ?case by (simp add: version_here_def has_prefix_def)
next
  case (Cons c s)
  show ?case
  proof
    assume none: "find_version (c # s) = None"
    show "\<forall>t r. c # s = t @ r \<longrightarrow> version_here r = None"
    proof (intro allI impI)
      fix t r assume "c # s = t @ r"
      with none Cons.IH show "version_here r = None"
        by (cases t) (auto split: option.splits)
    qed
  next
    assume all: "\<forall>t r. c # s = t @ r \<longrightarrow> version_here r = None"
    then have "version_here (c # s) = None" by (metis append_Nil)
    moreover have "\<forall>t r. s = t @ r \<longrightarrow> version_here r = None" using all by (metis append_Cons)
    ultimately show "find_version (c # s) = None" using Cons.IH by simp
  qed
qed

lemma collect_Inr:
  assumes "collect major arch version manager m = (Inr i, m')"
  shows "major = Inr (li_os_major_version i) \<and> li_os_family i = os_family \<and> li_architecture i = arch \<and>
    li_agent_version i = version \<and>
    li_solarbeam_status i \<in> (if manager = None then {[]} else {''running'', ''stopped''})"
proof (cases manager)
  case None
  then show ?thesis using assms by (auto simp: collect_def Let_def split: sum.splits)
next
  case (Some mp)
  then obtain env ps where mp: "manager = Some (env, ps)" by (cases mp) auto
  obtain st m1 where st: "manager_status env ps m = (st, m1)" by force
  show ?thesis using assms mp st
    by (cases "es_running st") (auto simp: collect_def Let_def split: sum.splits)
qed

text \<open>The JSON has no key but the six.\<close>

definition light_keys :: "string set" where
  "light_keys = {''os_family'', ''os_major_version'', ''architecture'', ''agent_version'',
     ''solarbeam_version'', ''solarbeam_status''}"

lemma light_inventory_keys: "\<exists>ms. light_inventory_json i = JObj ms \<and> fst ` set ms \<subseteq> light_keys"
  by (auto simp: light_inventory_json_def light_keys_def str_member_def opt_member_def split: if_splits)

end
