(* ===== verification/TrayIcon.thy ===== *)
theory TrayIcon
  imports Host GoUrl
begin

text \<open>
  The tray icon, \<open>internal/trayicon/tray_windows.go\<close>: the structures handed to
  \<open>Shell_NotifyIconW\<close>, the window procedure, the message loop of \<open>Tray.Run\<close> with its setup and
  teardown, and the operations other goroutines call on a running tray.

  A Win32 call is its outcome, drawn from the environment at the tray's own tick, and an entry in
  the log of calls. Icon handles are named: \<open>NoIcon\<close> is 0, \<open>StockIcon\<close> the shared handle of
  \<open>LoadIconW\<close>, \<open>Loaded k\<close> the k-th handle \<open>LoadImageW\<close> returned, which is fresh since the load
  is not \<open>LR_SHARED\<close>. A menu item's or balloon's callback is an action of type \<open>'act\<close>, and starting
  it in a goroutine records the action.
\<close>

section \<open>UTF-16\<close>

text \<open>\<open>windows.UTF16FromString\<close>: an error on an embedded NUL, else the encoding and a NUL.\<close>

definition is_cont :: "char \<Rightarrow> bool" where
  "is_cont c \<longleftrightarrow> 128 \<le> ord c \<and> ord c < 192"

definition cont_bits :: "char \<Rightarrow> nat" where
  "cont_bits c = ord c mod 64"

text \<open>Go's decoding of UTF-8: an invalid byte stands for U+FFFD by itself.\<close>

fun runes :: "string \<Rightarrow> nat list" where
  "runes [] = []"
| "runes (a # s) =
     (let n = ord a in
      if n < 128 then n # runes s
      else case s of
        b # s1 \<Rightarrow>
          if 194 \<le> n \<and> n < 224 \<and> is_cont b then ((n - 192) * 64 + cont_bits b) # runes s1
          else (case s1 of
            c # s2 \<Rightarrow>
              if 224 \<le> n \<and> n < 240 \<and> is_cont b \<and> is_cont c \<and> (n = 224 \<longrightarrow> 160 \<le> ord b) \<and> (n = 237 \<longrightarrow> ord b < 160)
              then ((n - 224) * 4096 + cont_bits b * 64 + cont_bits c) # runes s2
              else (case s2 of
                d # s3 \<Rightarrow>
                  if 240 \<le> n \<and> n \<le> 244 \<and> is_cont b \<and> is_cont c \<and> is_cont d \<and>
                     (n = 240 \<longrightarrow> 144 \<le> ord b) \<and> (n = 244 \<longrightarrow> ord b < 144)
                  then ((n - 240) * 262144 + cont_bits b * 4096 + cont_bits c * 64 + cont_bits d) # runes s3
                  else 65533 # runes s
              | [] \<Rightarrow> 65533 # runes s)
          | [] \<Rightarrow> 65533 # runes s)
      | [] \<Rightarrow> [65533])"

definition utf16_units :: "nat \<Rightarrow> 16 word list" where
  "utf16_units r =
     (if r < 65536 then [of_nat r]
      else [of_nat (55296 + (r - 65536) div 1024), of_nat (56320 + (r - 65536) mod 1024)])"

definition utf16_from_string :: "string \<Rightarrow> 16 word list res" where
  "utf16_from_string s =
     (if chr 0 \<in> set s then Inl (Msg ''invalid argument'')
      else Inr (concat (map utf16_units (runes s)) @ [0]))"

text \<open>\<open>utf16OrNil\<close>: a pointer to the text, or \<open>nil\<close>.\<close>

definition utf16_or_nil :: "string \<Rightarrow> 16 word list option" where
  "utf16_or_nil s =
     (if s = [] then None
      else (case utf16_from_string s of Inl e \<Rightarrow> None | Inr u \<Rightarrow> Some u))"

text \<open>
  Copying into a fixed array of \<open>n\<close> units, zero before: what fits is copied, and a copy that fills
  the array has its last unit overwritten by NUL.
\<close>

definition fill_units :: "nat \<Rightarrow> 16 word list res \<Rightarrow> 16 word list" where
  "fill_units n r =
     (case r of
        Inl e \<Rightarrow> replicate n 0
      | Inr u \<Rightarrow>
          (let a = take n u @ replicate (n - length u) 0
           in if n \<le> length u then a[n - 1 := 0] else a))"

lemma fill_units_length: "0 < n \<Longrightarrow> length (fill_units n r) = n"
  by (auto simp: fill_units_def Let_def split: sum.splits)

lemma fill_units_terminated: "0 < n \<Longrightarrow> 0 \<in> set (fill_units n (utf16_from_string s))"
proof (cases "utf16_from_string s")
  case (Inr u)
  then obtain v where u: "u = v @ [0]" by (auto simp: utf16_from_string_def split: if_splits)
  assume n: "0 < n"
  show ?thesis
  proof (cases "n \<le> length u")
    case True
    then have "(take n u)[n - 1 := 0] ! (n - 1) = 0" "n - 1 < length ((take n u)[n - 1 := 0])"
      using n by simp_all
    then show ?thesis using True Inr by (auto simp: fill_units_def Let_def in_set_conv_nth)
  next
    case False
    then show ?thesis using Inr u by (simp add: fill_units_def Let_def)
  qed
qed (auto simp: fill_units_def)

text \<open>A text of fewer units than the array is copied whole.\<close>

lemma fill_units_whole:
  "utf16_from_string s = Inr u \<Longrightarrow> length u < n \<Longrightarrow> take (length u) (fill_units n (utf16_from_string s)) = u"
  by (simp add: fill_units_def Let_def)

section \<open>State\<close>

datatype icon = NoIcon | StockIcon | Loaded nat

record 'act menu_item =
  mi_id :: int
  mi_label :: string
  mi_checked :: bool
  mi_disabled :: bool
  mi_separator :: bool
  mi_on_click :: "'act option"

record 'act tray_state =
  ts_hwnd :: nat
  ts_icon_added :: bool
  ts_icon :: icon
  ts_owns :: bool
  ts_items :: "'act menu_item list"
  ts_click :: "'act option"

text \<open>The part of \<open>NOTIFYICONDATAW\<close> that varies; the identifier and callback message are fixed.\<close>

record nid =
  nid_hwnd :: nat
  nid_flags :: int
  nid_icon :: icon
  nid_tip :: "16 word list"
  nid_info :: "16 word list"
  nid_title :: "16 word list"
  nid_info_flags :: int

datatype notify_message = NimAdd | NimModify | NimDelete

datatype tray_call =
    NotifyIcon notify_message nid bool
  | LoadImage icon
  | DestroyIcon icon
  | DestroyWindow nat
  | PostDestroy nat
  | PostQuit
  | PopupMenu "(int \<times> int \<times> 16 word list option) list"
  | ShellOpen "16 word list"

record trayenv =
  te_register :: "goerr option"
  te_window :: "nat \<Rightarrow> nat res"
  te_stock :: icon
  te_load :: "nat \<Rightarrow> path \<Rightarrow> goerr option"
  te_notify :: "nat \<Rightarrow> goerr option"
  te_menu_ok :: "nat \<Rightarrow> bool"
  te_execute :: "nat \<Rightarrow> nat \<times> goerr"

record 'act tray =
  t_tooltip :: string
  t_icon_path :: path
  t_state :: "'act tray_state option"
  t_registered :: "goerr option option"
  t_tick :: nat
  t_next_icon :: nat
  t_calls :: "tray_call list"
  t_started :: "'act list"

text \<open>The \<open>NIF\<close>, \<open>NIIF\<close>, \<open>MF\<close> and message numbers of the Windows headers.\<close>

definition nifMessage :: int where "nifMessage = 0x01"
definition nifIcon :: int where "nifIcon = 0x02"
definition nifTip :: int where "nifTip = 0x04"
definition nifInfo :: int where "nifInfo = 0x10"

definition wmDestroy :: int where "wmDestroy = 0x0002"
definition wmCommand :: int where "wmCommand = 0x0111"
definition wmApp :: int where "wmApp = 0x8000"
definition wmTrayCallback :: int where "wmTrayCallback = wmApp + 1"
definition wmLButtonUp :: int where "wmLButtonUp = 0x0202"
definition wmRButtonUp :: int where "wmRButtonUp = 0x0205"
definition ninBalloonHide :: int where "ninBalloonHide = 0x0403"
definition ninBalloonTimeout :: int where "ninBalloonTimeout = 0x0404"
definition ninBalloonUserClick :: int where "ninBalloonUserClick = 0x0405"
definition mfSeparator :: int where "mfSeparator = 0x0800"
definition mfChecked :: int where "mfChecked = 0x08"
definition mfDisabled :: int where "mfDisabled = 0x02"

lemmas message_numbers = wmDestroy_def wmCommand_def wmApp_def wmTrayCallback_def wmLButtonUp_def
  wmRButtonUp_def ninBalloonHide_def ninBalloonTimeout_def ninBalloonUserClick_def

datatype severity = NotifyInfo | NotifyWarning | NotifyError

primrec severity_flag :: "severity \<Rightarrow> int" where
  "severity_flag NotifyInfo = 1"
| "severity_flag NotifyWarning = 2"
| "severity_flag NotifyError = 3"

section \<open>Calls\<close>

definition logged :: "tray_call \<Rightarrow> 'act tray \<Rightarrow> 'act tray" where
  "logged c t = t\<lparr>t_tick := Suc (t_tick t), t_calls := t_calls t @ [c]\<rparr>"

definition with_state :: "('act tray_state \<Rightarrow> 'act tray_state) \<Rightarrow> 'act tray \<Rightarrow> 'act tray" where
  "with_state f t = t\<lparr>t_state := map_option f (t_state t)\<rparr>"

definition start_action :: "'act option \<Rightarrow> 'act tray \<Rightarrow> 'act tray" where
  "start_action a t = (case a of None \<Rightarrow> t | Some x \<Rightarrow> t\<lparr>t_started := t_started t @ [x]\<rparr>)"

definition shell_notify :: "trayenv \<Rightarrow> notify_message \<Rightarrow> nid \<Rightarrow> 'act tray \<Rightarrow> goerr option \<times> 'act tray" where
  "shell_notify env m d t =
     (case te_notify env (t_tick t) of
        None \<Rightarrow> (None, logged (NotifyIcon m d True) t)
      | Some e \<Rightarrow>
          (Some (wrapf (''Shell_NotifyIconW('' @ (case m of NimAdd \<Rightarrow> ''0'' | NimModify \<Rightarrow> ''1'' | NimDelete \<Rightarrow> ''2'') @ ''): '') e),
           logged (NotifyIcon m d False) t))"

definition load_icon_from_file :: "trayenv \<Rightarrow> path \<Rightarrow> 'act tray \<Rightarrow> icon res \<times> 'act tray" where
  "load_icon_from_file env p t =
     (case utf16_from_string p of
        Inl e \<Rightarrow> (Inl e, t)
      | Inr u \<Rightarrow>
          (case te_load env (t_tick t) p of
             Some e \<Rightarrow> (Inl (wrapf ''LoadImageW: '' e), logged (LoadImage NoIcon) t)
           | None \<Rightarrow>
               (Inr (Loaded (t_next_icon t)),
                (logged (LoadImage (Loaded (t_next_icon t))) t)\<lparr>t_next_icon := Suc (t_next_icon t)\<rparr>)))"

text \<open>
  \<open>OpenURL\<close>. The last argument of the result is whether \<open>ShellExecuteW\<close> was called, which the
  log shows.
\<close>

definition open_url :: "trayenv \<Rightarrow> string \<Rightarrow> 'act tray \<Rightarrow> goerr option \<times> 'act tray" where
  "open_url env raw t =
     (case url_parse raw of
        Inl e \<Rightarrow> (Some (wrapf ''trayicon: OpenURL: '' e), t)
      | Inr u \<Rightarrow>
          if pu_scheme u \<noteq> ''https''
          then (Some (Msg (''trayicon: OpenURL: only https URLs are allowed, got '' @ go_quote (pu_scheme u))), t)
          else (case utf16_from_string raw of
              Inl e \<Rightarrow> (Some e, t)
            | Inr w \<Rightarrow>
                (case te_execute env (t_tick t) of
                   (code, e) \<Rightarrow>
                     if code \<le> 32
                     then (Some (Wrap ''trayicon: ShellExecuteW: '' e ('' (code '' @ show_nat code @ '')'')),
                           logged (ShellOpen w) t)
                     else (None, logged (ShellOpen w) t))))"

definition build_nid :: "'act tray_state \<Rightarrow> string \<Rightarrow> nid" where
  "build_nid ts tooltip =
     \<lparr>nid_hwnd = ts_hwnd ts, nid_flags = nifMessage + nifIcon + nifTip, nid_icon = ts_icon ts,
      nid_tip = fill_units 128 (utf16_from_string tooltip), nid_info = replicate 256 0,
      nid_title = replicate 64 0, nid_info_flags = 0\<rparr>"

definition build_notify_nid :: "'act tray_state \<Rightarrow> string \<Rightarrow> string \<Rightarrow> int \<Rightarrow> nid" where
  "build_notify_nid ts title body flag =
     \<lparr>nid_hwnd = ts_hwnd ts, nid_flags = nifMessage + nifIcon + nifInfo, nid_icon = ts_icon ts,
      nid_tip = replicate 128 0, nid_info = fill_units 256 (utf16_from_string body),
      nid_title = fill_units 64 (utf16_from_string title), nid_info_flags = flag\<rparr>"

section \<open>The window procedure\<close>

definition menu_flags :: "'act menu_item \<Rightarrow> int" where
  "menu_flags i =
     (if mi_separator i then mfSeparator else 0) + (if mi_checked i then mfChecked else 0) +
     (if mi_disabled i then mfDisabled else 0)"

definition show_menu :: "trayenv \<Rightarrow> 'act tray_state \<Rightarrow> 'act tray \<Rightarrow> 'act tray" where
  "show_menu env ts t =
     (if te_menu_ok env (t_tick t)
      then logged (PopupMenu (map (\<lambda>i. (menu_flags i, mi_id i, utf16_or_nil (mi_label i))) (ts_items ts))) t
      else t\<lparr>t_tick := Suc (t_tick t)\<rparr>)"

definition loword :: "64 word \<Rightarrow> 16 word" where
  "loword v = ucast (and v 0xFFFF)"

text \<open>The first item of the menu with the identifier and a callback.\<close>

definition menu_action :: "'act menu_item list \<Rightarrow> int \<Rightarrow> 'act option" where
  "menu_action items i =
     (case filter (\<lambda>it. mi_id it = i \<and> mi_on_click it \<noteq> None) items of
        [] \<Rightarrow> None
      | it # _ \<Rightarrow> mi_on_click it)"

text \<open>
  \<open>wndProc\<close> for a window the registry of trays knows; for any other window, and any other
  message, it is the default procedure, which changes nothing here.
\<close>

definition wnd_proc :: "trayenv \<Rightarrow> nat \<Rightarrow> int \<Rightarrow> 64 word \<Rightarrow> int \<Rightarrow> 'act tray \<Rightarrow> 'act tray" where
  "wnd_proc env hwnd message wparam lparam t =
     (case t_state t of
        None \<Rightarrow> t
      | Some ts \<Rightarrow>
          if ts_hwnd ts \<noteq> hwnd then t
          else if message = wmTrayCallback then
            (if lparam = wmLButtonUp \<or> lparam = wmRButtonUp then show_menu env ts t
             else if lparam = ninBalloonUserClick
             then start_action (ts_click ts) (with_state (ts_click_update (\<lambda>_. None)) t)
             else if lparam = ninBalloonHide \<or> lparam = ninBalloonTimeout
             then with_state (ts_click_update (\<lambda>_. None)) t
             else t)
          else if message = wmCommand
          then start_action (menu_action (ts_items ts) (uint (loword wparam))) t
          else if message = wmDestroy then logged PostQuit t
          else t)"

section \<open>Running the tray\<close>

definition register_window_class :: "trayenv \<Rightarrow> 'act tray \<Rightarrow> goerr option \<times> 'act tray" where
  "register_window_class env t =
     (case t_registered t of
        Some r \<Rightarrow> (r, t)
      | None \<Rightarrow>
          (let r = map_err (wrapf ''RegisterClassExW: '') (te_register env)
           in (r, t\<lparr>t_registered := Some r\<rparr>)))"

definition create_message_window :: "trayenv \<Rightarrow> 'act tray \<Rightarrow> nat res \<times> 'act tray" where
  "create_message_window env t =
     (map_sum (wrapf ''CreateWindowExW: '') id (te_window env (t_tick t)), t\<lparr>t_tick := Suc (t_tick t)\<rparr>)"

definition initial_icon :: "trayenv \<Rightarrow> 'act tray \<Rightarrow> (icon \<times> bool) \<times> 'act tray" where
  "initial_icon env t =
     (if t_icon_path t = [] then ((te_stock env, False), t)
      else (case load_icon_from_file env (t_icon_path t) t of
          (Inr h, t1) \<Rightarrow> ((h, True), t1)
        | (Inl e, t1) \<Rightarrow> ((te_stock env, False), t1)))"

text \<open>
  \<open>Run\<close> up to its message loop. On a failed add the window is destroyed and \<open>Run\<close> returns, its
  deferred cleanup not yet registered; \<open>Inr\<close> carries the structure the cleanup deletes.
\<close>

definition run_setup :: "trayenv \<Rightarrow> 'act menu_item list \<Rightarrow> 'act tray \<Rightarrow> nid res \<times> 'act tray" where
  "run_setup env items t =
     (case register_window_class env t of
        (Some e, t1) \<Rightarrow> (Inl e, t1)
      | (None, t1) \<Rightarrow>
          (case create_message_window env t1 of
             (Inl e, t2) \<Rightarrow> (Inl e, t2)
           | (Inr hwnd, t2) \<Rightarrow>
               (case initial_icon env t2 of
                  ((h, owns), t3) \<Rightarrow>
                    (let ts = \<lparr>ts_hwnd = hwnd, ts_icon_added = False, ts_icon = h, ts_owns = owns,
                               ts_items = items, ts_click = None\<rparr>;
                         d = build_nid ts (t_tooltip t3)
                     in (case shell_notify env NimAdd d (t3\<lparr>t_state := Some ts\<rparr>) of
                           (Some e, t4) \<Rightarrow> (Inl e, logged (DestroyWindow hwnd) t4)
                         | (None, t4) \<Rightarrow> (Inr d, with_state (ts_icon_added_update (\<lambda>_. True)) t4))))))"

text \<open>
  What \<open>GetMessageW\<close> returns: \<open>Got\<close> a message for a window, or 0 or -1. \<open>Between\<close> is anything
  other goroutines do to the tray between two messages. \<open>None\<close> is a loop still waiting.
\<close>

datatype 'act pump_event =
    Got nat int "64 word" int
  | PumpEnd
  | Between "'act tray \<Rightarrow> 'act tray"

fun pump :: "trayenv \<Rightarrow> 'act pump_event list \<Rightarrow> 'act tray \<Rightarrow> bool \<times> 'act tray" where
  "pump env [] t = (False, t)"
| "pump env (PumpEnd # es) t = (True, t)"
| "pump env (Got h m w l # es) t = pump env es (wnd_proc env h m w l t)"
| "pump env (Between f # es) t = pump env es (f t)"

definition run_teardown :: "trayenv \<Rightarrow> nid \<Rightarrow> 'act tray \<Rightarrow> 'act tray" where
  "run_teardown env d t =
     (case t_state t of
        None \<Rightarrow> t
      | Some ts \<Rightarrow>
          (let t1 = (if ts_icon_added ts then snd (shell_notify env NimDelete d t) else t);
               t2 = (if ts_owns ts then logged (DestroyIcon (ts_icon ts)) t1 else t1)
           in logged (DestroyWindow (ts_hwnd ts)) t2))"

definition run_tray ::
  "trayenv \<Rightarrow> 'act menu_item list \<Rightarrow> 'act pump_event list \<Rightarrow> 'act tray \<Rightarrow> goerr option option \<times> 'act tray" where
  "run_tray env items es t =
     (case run_setup env items t of
        (Inl e, t1) \<Rightarrow> (Some (Some e), t1)
      | (Inr d, t1) \<Rightarrow>
          (case pump env es t1 of
             (False, t2) \<Rightarrow> (None, t2)
           | (True, t2) \<Rightarrow> (Some None, run_teardown env d t2)))"

section \<open>Operations on a running tray\<close>

definition set_tooltip :: "trayenv \<Rightarrow> string \<Rightarrow> 'act tray \<Rightarrow> 'act tray" where
  "set_tooltip env s t =
     (case t_state t of
        None \<Rightarrow> t
      | Some ts \<Rightarrow> snd (shell_notify env NimModify (build_nid ts s) (t\<lparr>t_tooltip := s\<rparr>)))"

definition set_menu_items :: "'act menu_item list \<Rightarrow> 'act tray \<Rightarrow> 'act tray" where
  "set_menu_items items t = with_state (ts_items_update (\<lambda>_. items)) t"

definition quit :: "'act tray \<Rightarrow> 'act tray" where
  "quit t = (case t_state t of None \<Rightarrow> t | Some ts \<Rightarrow> logged (PostDestroy (ts_hwnd ts)) t)"

text \<open>
  \<open>waitForState\<close>: \<open>seen n\<close> is whether \<open>t.state\<close> is set n milliseconds after the call. It polls
  every 20 ms until a poll finds it, or finds the deadline passed.
\<close>

function wait_for_state :: "(nat \<Rightarrow> bool) \<Rightarrow> nat \<Rightarrow> nat \<Rightarrow> bool" where
  "wait_for_state seen timeout elapsed =
     (if seen elapsed then True
      else if timeout < elapsed then False
      else wait_for_state seen timeout (elapsed + 20))"
  by pat_completeness auto
termination
  by (relation "measure (\<lambda>(seen, timeout, elapsed). Suc timeout - elapsed)") auto

declare wait_for_state.simps [simp del]

definition tray_not_running :: goerr where
  "tray_not_running =
     Msg ''trayicon: tray not running (timed out after 3s waiting for Run to finish setup)''"

text \<open>\<open>t\<close> is the tray when the wait is over.\<close>

definition notify ::
  "trayenv \<Rightarrow> (nat \<Rightarrow> bool) \<Rightarrow> string \<Rightarrow> string \<Rightarrow> severity \<Rightarrow> 'act option \<Rightarrow> 'act tray \<Rightarrow> goerr option \<times> 'act tray" where
  "notify env seen title body sev click t =
     (if \<not> wait_for_state seen 3000 0 then (Some tray_not_running, t)
      else (case t_state t of
          None \<Rightarrow> (Some tray_not_running, t)
        | Some ts \<Rightarrow>
            shell_notify env NimModify (build_notify_nid ts title body (severity_flag sev))
              (with_state (ts_click_update (\<lambda>_. click)) t)))"

definition set_icon_path :: "trayenv \<Rightarrow> path \<Rightarrow> 'act tray \<Rightarrow> goerr option \<times> 'act tray" where
  "set_icon_path env p t =
     (case t_state t of
        None \<Rightarrow> (None, t)
      | Some ts \<Rightarrow>
          (case load_icon_from_file env p t of
             (Inl e, t1) \<Rightarrow> (Some e, t1)
           | (Inr h, t1) \<Rightarrow>
               (let t2 = with_state (\<lambda>s. s\<lparr>ts_icon := h, ts_owns := True\<rparr>) t1;
                    d = build_nid (ts\<lparr>ts_icon := h, ts_owns := True\<rparr>) (t_tooltip t2)
                in (case shell_notify env NimModify d t2 of
                      (Some e, t3) \<Rightarrow> (Some e, t3)
                    | (None, t3) \<Rightarrow>
                        (None, if ts_owns ts \<and> ts_icon ts \<noteq> NoIcon then logged (DestroyIcon (ts_icon ts)) t3 else t3)))))"

section \<open>Frames\<close>

lemma logged_simps [simp, agent_simps]:
  "t_state (logged c t) = t_state t" "t_tooltip (logged c t) = t_tooltip t"
  "t_calls (logged c t) = t_calls t @ [c]" "t_started (logged c t) = t_started t"
  "t_next_icon (logged c t) = t_next_icon t" "t_tick (logged c t) = Suc (t_tick t)"
  by (simp_all add: logged_def)

lemma with_state_simps [simp, agent_simps]:
  "t_state (with_state f t) = map_option f (t_state t)" "t_calls (with_state f t) = t_calls t"
  "t_tooltip (with_state f t) = t_tooltip t"
  "t_started (with_state f t) = t_started t" "t_next_icon (with_state f t) = t_next_icon t"
  "t_tick (with_state f t) = t_tick t"
  by (simp_all add: with_state_def)

lemma start_action_simps [simp, agent_simps]:
  "t_state (start_action a t) = t_state t"
  "t_started (start_action a t) = t_started t @ (case a of None \<Rightarrow> [] | Some x \<Rightarrow> [x])"
  by (simp_all add: start_action_def split: option.splits)

lemma shell_notify_frame:
  "t_state (snd (shell_notify env m d t)) = t_state t"
  "t_started (snd (shell_notify env m d t)) = t_started t"
  by (simp_all add: shell_notify_def split: option.splits)

lemma wait_for_state_True: "seen e \<Longrightarrow> wait_for_state seen timeout e"
  by (subst wait_for_state.simps) simp

lemma load_icon_frame:
  "t_state (snd (load_icon_from_file env p t)) = t_state t"
  "t_started (snd (load_icon_from_file env p t)) = t_started t"
  by (simp_all add: load_icon_from_file_def split: option.splits sum.splits)

lemma set_icon_path_frame:
  "map_option ts_click (t_state (snd (set_icon_path env p t))) = map_option ts_click (t_state t)"
  "map_option ts_hwnd (t_state (snd (set_icon_path env p t))) = map_option ts_hwnd (t_state t)"
  "t_started (snd (set_icon_path env p t)) = t_started t"
  using load_icon_frame[of env p t]
  by (auto simp: set_icon_path_def Let_def shell_notify_def option.map_comp comp_def split: option.splits prod.splits sum.splits)

section \<open>Balloon clicks\<close>

text \<open>
  What can happen to the tray while it runs, as the operations above. \<open>Dismissed\<close> is the hide or
  the timeout message.
\<close>

datatype 'act tray_event =
    Shown string string severity "'act option"
  | Clicked
  | Dismissed bool
  | MenuOpened
  | Tooltip string
  | NewMenu "'act menu_item list"
  | NewIcon path

primrec do_event :: "trayenv \<Rightarrow> 'act tray_event \<Rightarrow> 'act tray \<Rightarrow> 'act tray" where
  "do_event env (Shown title body sev a) t = snd (notify env (\<lambda>n. t_state t \<noteq> None) title body sev a t)"
| "do_event env Clicked t =
     (case t_state t of None \<Rightarrow> t | Some ts \<Rightarrow> wnd_proc env (ts_hwnd ts) wmTrayCallback 0 ninBalloonUserClick t)"
| "do_event env (Dismissed hide) t =
     (case t_state t of
        None \<Rightarrow> t
      | Some ts \<Rightarrow>
          wnd_proc env (ts_hwnd ts) wmTrayCallback 0 (if hide then ninBalloonHide else ninBalloonTimeout) t)"
| "do_event env MenuOpened t =
     (case t_state t of None \<Rightarrow> t | Some ts \<Rightarrow> wnd_proc env (ts_hwnd ts) wmTrayCallback 0 wmRButtonUp t)"
| "do_event env (Tooltip s) t = set_tooltip env s t"
| "do_event env (NewMenu items) t = set_menu_items items t"
| "do_event env (NewIcon p) t = snd (set_icon_path env p t)"

primrec do_events :: "trayenv \<Rightarrow> 'act tray_event list \<Rightarrow> 'act tray \<Rightarrow> 'act tray" where
  "do_events env [] t = t"
| "do_events env (e # es) t = do_events env es (do_event env e t)"

text \<open>The callback a click would start, read off the history alone, and all that clicks started.\<close>

primrec armed :: "'act option \<Rightarrow> 'act tray_event list \<Rightarrow> 'act option" where
  "armed c [] = c"
| "armed c (e # es) =
     armed (case e of Shown x y z a \<Rightarrow> a | Clicked \<Rightarrow> None | Dismissed h \<Rightarrow> None | _ \<Rightarrow> c) es"

lemma armed_append: "armed c (es @ fs) = armed (armed c es) fs"
  by (induction es arbitrary: c) auto

definition click_of :: "'act tray \<Rightarrow> 'act option" where
  "click_of t = Option.bind (t_state t) ts_click"

lemma do_event_click:
  assumes "t_state t \<noteq> None"
  shows "t_state (do_event env e t) \<noteq> None"
    and "click_of (do_event env e t) = armed (click_of t) [e]"
    and "t_started (do_event env e t) =
      t_started t @ (if e = Clicked then (case click_of t of None \<Rightarrow> [] | Some a \<Rightarrow> [a]) else [])"
proof -
  obtain ts where ts: "t_state t = Some ts" using assms by blast
  have "t_state (do_event env e t) \<noteq> None \<and> click_of (do_event env e t) = armed (click_of t) [e] \<and>
    t_started (do_event env e t) =
      t_started t @ (if e = Clicked then (case click_of t of None \<Rightarrow> [] | Some a \<Rightarrow> [a]) else [])"
  proof (cases e)
    case (NewIcon p)
    then show ?thesis
      using set_icon_path_frame[of env p t] ts
      by (cases "t_state (snd (set_icon_path env p t))") (simp_all add: click_of_def)
  qed (simp_all add: ts click_of_def notify_def wait_for_state_True shell_notify_frame wnd_proc_def
      message_numbers show_menu_def set_tooltip_def set_menu_items_def)
  then show "t_state (do_event env e t) \<noteq> None" "click_of (do_event env e t) = armed (click_of t) [e]"
    "t_started (do_event env e t) =
      t_started t @ (if e = Clicked then (case click_of t of None \<Rightarrow> [] | Some a \<Rightarrow> [a]) else [])"
    by blast+
qed

lemma do_events_append: "do_events env (es @ fs) t = do_events env fs (do_events env es t)"
  by (induction es arbitrary: t) auto

lemma do_events_armed:
  "t_state t \<noteq> None \<Longrightarrow>
     t_state (do_events env es t) \<noteq> None \<and> click_of (do_events env es t) = armed (click_of t) es"
proof (induction es arbitrary: t)
  case (Cons e es)
  show ?case
    using Cons.IH[OF do_event_click(1)[OF Cons.prems, of env e]] do_event_click(2)[OF Cons.prems, of env e]
    by simp
qed simp

fun rearms :: "'act tray_event \<Rightarrow> bool" where
  "rearms (Shown title body sev a) = True"
| "rearms Clicked = True"
| "rearms (Dismissed h) = True"
| "rearms e = False"

lemma armed_Some:
  "armed c es = Some a \<Longrightarrow>
     (c = Some a \<and> \<not> list_ex rearms es) \<or>
     (\<exists>us title body sev vs. es = us @ Shown title body sev (Some a) # vs \<and> \<not> list_ex rearms vs)"
proof (induction es arbitrary: c)
  case (Cons e es)
  from Cons.IH[of "armed c [e]"] Cons.prems
  consider (here) "armed c [e] = Some a" "\<not> list_ex rearms es"
    | (later) us title body sev vs where "es = us @ Shown title body sev (Some a) # vs" "\<not> list_ex rearms vs"
    by auto
  then show ?case
  proof cases
    case here
    show ?thesis
    proof (cases "rearms e")
      case True
      with here(1) obtain title body sev where "e = Shown title body sev (Some a)" by (cases e) auto
      with here(2) show ?thesis by fastforce
    next
      case False
      with here show ?thesis by (cases e) auto
    qed
  next
    case later
    then show ?thesis by (auto intro!: exI[of _ "e # us"])
  qed
qed simp

text \<open>
  A click on the balloon starts the callback of the most recent \<open>Notify\<close>, and nothing when
  the balloon was clicked, hidden or timed out since; no other event starts anything. So each
  \<open>Notify\<close> starts its callback at most once, and an older one's never after a newer call.
\<close>

theorem balloon_click:
  assumes "t_state t \<noteq> None" "click_of t = None"
  shows "t_started (do_events env (es @ [Clicked]) t) =
      t_started (do_events env es t) @ (case armed None es of None \<Rightarrow> [] | Some a \<Rightarrow> [a]) \<and>
    (\<forall>a. armed None es = Some a \<longrightarrow>
      (\<exists>us title body sev vs. es = us @ Shown title body sev (Some a) # vs \<and> \<not> list_ex rearms vs)) \<and>
    (\<forall>e. e \<noteq> Clicked \<longrightarrow> t_started (do_events env (es @ [e]) t) = t_started (do_events env es t))"
  using do_events_armed[OF assms(1), of env es] do_event_click(3)[of "do_events env es t" env]
    armed_Some[of None es] assms(2)
  by (auto simp: do_events_append simp del: do_event.simps)

definition quiet_tray :: trayenv where
  "quiet_tray = \<lparr>te_register = None, te_window = (\<lambda>n. Inr 7), te_stock = StockIcon,
     te_load = (\<lambda>n p. None), te_notify = (\<lambda>n. None), te_menu_ok = (\<lambda>n. True),
     te_execute = (\<lambda>n. (42, Msg []))\<rparr>"

definition new_tray :: "path \<Rightarrow> 'act tray" where
  "new_tray p = \<lparr>t_tooltip = [], t_icon_path = p, t_state = None, t_registered = None, t_tick = 0,
     t_next_icon = 0, t_calls = [], t_started = []\<rparr>"

definition sample_tray :: "nat tray" where
  "sample_tray = snd (run_setup quiet_tray [] (new_tray ''a.ico''))"

lemma chr_zero: "chr 0 = CHR 0x00"
  by code_simp

lemma sample_tray_state: "click_of sample_tray = None \<and> t_state sample_tray \<noteq> None"
  by (simp add: sample_tray_def run_setup_def register_window_class_def create_message_window_def
      initial_icon_def load_icon_from_file_def shell_notify_def quiet_tray_def new_tray_def
      utf16_from_string_def click_of_def Let_def chr_zero)

theorem balloon_click_witness:
  "t_started (do_events quiet_tray ([Shown ''t'' ''b'' NotifyInfo (Some 1), Shown ''t'' ''b'' NotifyInfo (Some 2)] @ [Clicked]) sample_tray) =
   t_started (do_events quiet_tray [Shown ''t'' ''b'' NotifyInfo (Some 1), Shown ''t'' ''b'' NotifyInfo (Some 2)] sample_tray) @ [2]"
  using balloon_click[of sample_tray quiet_tray
      "[Shown ''t'' ''b'' NotifyInfo (Some 1), Shown ''t'' ''b'' NotifyInfo (Some 2)]"] sample_tray_state
  by simp

section \<open>Icon handles\<close>

text \<open>
  The life of the icon handles when the goroutines interleave. \<open>SetIconPath\<close> loads, swaps under
  the lock, reads the icon back into its structure under the lock again, calls the shell, and frees
  the old handle; \<open>Run\<close>'s cleanup deletes the tray icon, reads the current handle under the lock
  and frees it; \<open>Notify\<close> and \<open>SetTooltip\<close> read the handle under the lock and call the shell later.
  The steps in between are those of \<open>set_icon_path\<close>, \<open>run_teardown\<close> and \<open>notify\<close>. Only one
  goroutine, the poller, calls \<open>SetIconPath\<close>. Changing an icon that was deleted fails.
\<close>

datatype poll_pc =
    PIdle
  | PLoaded nat
  | PSwapped icon bool
  | PBuilt icon icon bool
  | PFree icon

datatype run_pc = RPumping | RDeleted | RRead icon bool | RDone

record icons =
  i_icon :: icon
  i_owns :: bool
  i_next :: nat
  i_poll :: poll_pc
  i_run :: run_pc
  i_shown :: "icon option"
  i_pending :: "icon list"
  i_destroyed :: "icon list"
  i_leaked :: "icon list"
  i_delete_failed :: bool

inductive icon_step :: "icons \<Rightarrow> icons \<Rightarrow> bool" where
  load: "i_poll s = PIdle \<Longrightarrow> icon_step s (s\<lparr>i_poll := PLoaded (i_next s), i_next := Suc (i_next s)\<rparr>)"
| swap: "i_poll s = PLoaded k \<Longrightarrow>
    icon_step s (s\<lparr>i_icon := Loaded k, i_owns := True, i_poll := PSwapped (i_icon s) (i_owns s)\<rparr>)"
| build: "i_poll s = PSwapped h b \<Longrightarrow> icon_step s (s\<lparr>i_poll := PBuilt (i_icon s) h b\<rparr>)"
| modify: "i_poll s = PBuilt d h b \<Longrightarrow> i_shown s \<noteq> None \<Longrightarrow>
    icon_step s (s\<lparr>i_shown := Some d, i_poll := (if b \<and> h \<noteq> NoIcon then PFree h else PIdle)\<rparr>)"
| modify_fails: "i_poll s = PBuilt d h b \<Longrightarrow>
    icon_step s (s\<lparr>i_poll := PIdle, i_leaked := (if b then h # i_leaked s else i_leaked s)\<rparr>)"
| free: "i_poll s = PFree h \<Longrightarrow> icon_step s (s\<lparr>i_poll := PIdle, i_destroyed := h # i_destroyed s\<rparr>)"
| other_build: "icon_step s (s\<lparr>i_pending := i_icon s # i_pending s\<rparr>)"
| other_modify: "d \<in> set (i_pending s) \<Longrightarrow> i_shown s \<noteq> None \<Longrightarrow>
    icon_step s (s\<lparr>i_shown := Some d, i_pending := remove1 d (i_pending s)\<rparr>)"
| other_fails: "d \<in> set (i_pending s) \<Longrightarrow> icon_step s (s\<lparr>i_pending := remove1 d (i_pending s)\<rparr>)"
| delete: "i_run s = RPumping \<Longrightarrow> icon_step s (s\<lparr>i_run := RDeleted, i_shown := None\<rparr>)"
| delete_fails: "i_run s = RPumping \<Longrightarrow> icon_step s (s\<lparr>i_run := RDeleted, i_delete_failed := True\<rparr>)"
| read_icon: "i_run s = RDeleted \<Longrightarrow> icon_step s (s\<lparr>i_run := RRead (i_icon s) (i_owns s)\<rparr>)"
| destroy: "i_run s = RRead h b \<Longrightarrow>
    icon_step s (s\<lparr>i_run := RDone, i_destroyed := (if b then h # i_destroyed s else i_destroyed s)\<rparr>)"

text \<open>What \<open>Run\<close>'s setup leaves: the first icon shown, owned if it came from the file.\<close>

definition icons_start :: "icon \<Rightarrow> bool \<Rightarrow> icons" where
  "icons_start h owned = \<lparr>i_icon = (if owned then Loaded 0 else h), i_owns = owned,
     i_next = (if owned then 1 else 0), i_poll = PIdle, i_run = RPumping,
     i_shown = Some (if owned then Loaded 0 else h), i_pending = [], i_destroyed = [], i_leaked = [],
     i_delete_failed = False\<rparr>"

definition icons_reach :: "icons \<Rightarrow> bool" where
  "icons_reach s \<longleftrightarrow> (\<exists>h owned. (\<forall>k. h \<noteq> Loaded k) \<and> icon_step\<^sup>*\<^sup>* (icons_start h owned) s)"

definition loaded :: "icons \<Rightarrow> icon \<Rightarrow> bool" where
  "loaded s h \<longleftrightarrow> (\<exists>k < i_next s. h = Loaded k)"

text \<open>The handles the poller, the cleanup and the tray state hold.\<close>

definition poll_holds :: "icons \<Rightarrow> icon set" where
  "poll_holds s = (case i_poll s of PIdle \<Rightarrow> {} | PLoaded k \<Rightarrow> {Loaded k}
     | PSwapped h b \<Rightarrow> if b then {h} else {} | PBuilt d h b \<Rightarrow> if b then {h} else {} | PFree h \<Rightarrow> {h})"

definition run_holds :: "icons \<Rightarrow> icon set" where
  "run_holds s = (case i_run s of RRead h b \<Rightarrow> if b then {h} else {} | _ \<Rightarrow> {})"

definition current_holds :: "icons \<Rightarrow> icon set" where
  "current_holds s = (if i_owns s then {i_icon s} else {})"

lemmas holds = poll_holds_def run_holds_def current_holds_def loaded_def

definition icons_known :: "icons \<Rightarrow> bool" where
  "icons_known s \<longleftrightarrow>
     (\<forall>h \<in> current_holds s \<union> poll_holds s \<union> run_holds s \<union> set (i_destroyed s) \<union> set (i_leaked s). loaded s h)"

definition icons_accounted :: "icons \<Rightarrow> bool" where
  "icons_accounted s \<longleftrightarrow>
     (\<forall>k < i_next s. Loaded k \<in>
        set (i_destroyed s) \<union> set (i_leaked s) \<union> current_holds s \<union> poll_holds s \<union> run_holds s)"

definition pumping_old :: "icons \<Rightarrow> icon set" where
  "pumping_old s = (if i_run s = RPumping then poll_holds s else {})"

definition about_to :: "icons \<Rightarrow> icon set" where
  "about_to s = (case i_poll s of PLoaded k \<Rightarrow> {Loaded k} | PFree h \<Rightarrow> {h} | _ \<Rightarrow> {})"

definition icons_once :: "icons \<Rightarrow> bool" where
  "icons_once s \<longleftrightarrow>
     distinct (i_destroyed s) \<and> (i_shown s \<noteq> None \<longleftrightarrow> i_run s = RPumping) \<and>
     (i_run s \<noteq> RDone \<longrightarrow> current_holds s \<inter> set (i_destroyed s) = {}) \<and>
     run_holds s \<inter> set (i_destroyed s) = {} \<and>
     (about_to s \<union> pumping_old s) \<inter> (set (i_destroyed s) \<union> current_holds s \<union> run_holds s) = {}"

lemma icons_known_step: "icon_step s s' \<Longrightarrow> icons_known s \<Longrightarrow> icons_known s'"
  by (erule icon_step.cases) (auto simp: icons_known_def holds less_Suc_eq split: if_splits)

lemma icons_accounted_step: "icon_step s s' \<Longrightarrow> icons_known s \<Longrightarrow> icons_accounted s \<Longrightarrow> icons_accounted s'"
  by (erule icon_step.cases) (auto simp: icons_known_def icons_accounted_def holds less_Suc_eq split: if_splits)

lemma delete_failed_step: "icon_step s s' \<Longrightarrow> i_delete_failed s \<Longrightarrow> i_delete_failed s'"
  by (erule icon_step.cases) auto

lemma icons_once_step:
  "icon_step s s' \<Longrightarrow> icons_known s \<Longrightarrow> icons_once s \<Longrightarrow> \<not> i_delete_failed s' \<Longrightarrow> icons_once s'"
  by (erule icon_step.cases)
     (auto simp: icons_known_def icons_once_def holds pumping_old_def about_to_def split: if_splits poll_pc.splits)

lemma icons_start_inv:
  assumes "\<forall>k. h \<noteq> Loaded k"
  shows "icons_known (icons_start h owned) \<and> icons_accounted (icons_start h owned) \<and> icons_once (icons_start h owned)"
  by (simp add: icons_start_def icons_known_def icons_accounted_def icons_once_def holds pumping_old_def about_to_def)

lemma icons_reach_inv:
  assumes "icons_reach s"
  shows "icons_known s \<and> icons_accounted s \<and> (\<not> i_delete_failed s \<longrightarrow> icons_once s)"
proof -
  obtain h owned where h: "\<forall>k. h \<noteq> Loaded k" and steps: "icon_step\<^sup>*\<^sup>* (icons_start h owned) s"
    using assms by (auto simp: icons_reach_def)
  from steps show ?thesis
  proof (induction rule: rtranclp_induct)
    case base
    then show ?case using icons_start_inv[OF h] by simp
  next
    case (step s s')
    then show ?case
      using icons_known_step icons_accounted_step icons_once_step delete_failed_step by blast
  qed
qed


text \<open>The poller swaps in a new icon and frees the first one.\<close>

lemma icons_swapped_reach:
  "icons_reach ((icons_start StockIcon True)
     \<lparr>i_icon := Loaded 1, i_next := 2, i_shown := Some (Loaded 1), i_destroyed := [Loaded 0], i_pending := ps\<rparr>)"
  if "ps = [] \<or> ps = [Loaded 0]"
proof -
  let ?s = "icons_start StockIcon True"
  let ?a = "?s\<lparr>i_pending := ps\<rparr>"
  let ?b = "?a\<lparr>i_poll := PLoaded 1, i_next := 2\<rparr>"
  let ?c = "?b\<lparr>i_icon := Loaded 1, i_owns := True, i_poll := PSwapped (Loaded 0) True\<rparr>"
  let ?d = "?c\<lparr>i_poll := PBuilt (Loaded 1) (Loaded 0) True\<rparr>"
  let ?e = "?d\<lparr>i_shown := Some (Loaded 1), i_poll := PFree (Loaded 0)\<rparr>"
  let ?f = "?e\<lparr>i_poll := PIdle, i_destroyed := [Loaded 0]\<rparr>"
  have a: "?a = ?s \<or> icon_step ?s ?a"
    using that icon_step.other_build[of ?s] by (auto simp: icons_start_def)
  have b: "icon_step ?a ?b" using icon_step.load[of ?a] by (simp add: icons_start_def numeral_2_eq_2)
  have c: "icon_step ?b ?c" using icon_step.swap[of ?b 1] by (simp add: icons_start_def)
  have d: "icon_step ?c ?d" using icon_step.build[of ?c] by (simp add: icons_start_def)
  have e: "icon_step ?d ?e" using icon_step.modify[of ?d] by (simp add: icons_start_def)
  have f: "icon_step ?e ?f" using icon_step.free[of ?e] by (simp add: icons_start_def)
  have "icon_step\<^sup>*\<^sup>* ?a ?f"
    using b c d e f by (blast intro: converse_rtranclp_into_rtranclp)
  with a have "icon_step\<^sup>*\<^sup>* ?s ?f" by (metis converse_rtranclp_into_rtranclp)
  moreover have "?f = ?s\<lparr>i_icon := Loaded 1, i_next := 2, i_shown := Some (Loaded 1), i_destroyed := [Loaded 0], i_pending := ps\<rparr>"
    by (simp add: icons_start_def)
  ultimately show ?thesis unfolding icons_reach_def by (intro exI[of _ StockIcon] exI[of _ True]) simp
qed


text \<open>
  A \<open>Notify\<close> that read the handle before the swap and reaches the shell after the free puts a
  destroyed handle into the tray.
\<close>

lemma notify_shows_destroyed_icon: "\<exists>s h. icons_reach s \<and> i_shown s = Some h \<and> h \<in> set (i_destroyed s)"
proof -
  let ?s = "(icons_start StockIcon True)
     \<lparr>i_icon := Loaded 1, i_next := 2, i_shown := Some (Loaded 1), i_destroyed := [Loaded 0], i_pending := [Loaded 0]\<rparr>"
  have "icons_reach ?s" using icons_swapped_reach[of "[Loaded 0]"] by simp
  moreover have "icon_step ?s (?s\<lparr>i_shown := Some (Loaded 0), i_pending := []\<rparr>)"
    using icon_step.other_modify[of "Loaded 0" ?s] by simp
  ultimately have "icons_reach (?s\<lparr>i_shown := Some (Loaded 0), i_pending := []\<rparr>)"
    by (auto simp: icons_reach_def intro: rtranclp.rtrancl_into_rtrancl)
  then show ?thesis by (intro exI conjI) auto
qed

text \<open>The whole \<open>set_icon_path\<close>, alone, is a run of these steps.\<close>

definition shown_after :: "tray_call \<Rightarrow> icon option \<Rightarrow> icon option" where
  "shown_after c h =
     (case c of
        NotifyIcon m d ok \<Rightarrow> if ok then (if m = NimDelete then None else Some (nid_icon d)) else h
      | _ \<Rightarrow> h)"

definition destroyed_by :: "tray_call \<Rightarrow> icon list" where
  "destroyed_by c = (case c of DestroyIcon h \<Rightarrow> [h] | _ \<Rightarrow> [])"

definition icons_of :: "run_pc \<Rightarrow> icon list \<Rightarrow> 'act tray \<Rightarrow> 'act tray_state \<Rightarrow> icons" where
  "icons_of pc leaked t ts = \<lparr>i_icon = ts_icon ts, i_owns = ts_owns ts, i_next = t_next_icon t,
     i_poll = PIdle, i_run = pc, i_shown = fold shown_after (t_calls t) None, i_pending = [],
     i_destroyed = rev (concat (map destroyed_by (t_calls t))), i_leaked = leaked, i_delete_failed = False\<rparr>"

lemmas calls_seen = shown_after_def destroyed_by_def

text \<open>The three legs of a call: load and swap, then the shell accepts or refuses.\<close>

lemma swap_leg:
  assumes "i_poll s = PIdle"
  shows "icon_step\<^sup>*\<^sup>* s (s\<lparr>i_next := Suc (i_next s), i_icon := Loaded (i_next s), i_owns := True,
     i_poll := PBuilt (Loaded (i_next s)) (i_icon s) (i_owns s)\<rparr>)"
proof -
  let ?s1 = "s\<lparr>i_poll := PLoaded (i_next s), i_next := Suc (i_next s)\<rparr>"
  let ?s2 = "?s1\<lparr>i_icon := Loaded (i_next s), i_owns := True, i_poll := PSwapped (i_icon s) (i_owns s)\<rparr>"
  let ?s3 = "?s2\<lparr>i_poll := PBuilt (Loaded (i_next s)) (i_icon s) (i_owns s)\<rparr>"
  have "icon_step s ?s1" using icon_step.load[of s] assms by simp
  moreover have "icon_step ?s1 ?s2" using icon_step.swap[of ?s1 "i_next s"] by simp
  moreover have "icon_step ?s2 ?s3" using icon_step.build[of ?s2] by simp
  ultimately have "icon_step\<^sup>*\<^sup>* s ?s3" by (meson converse_rtranclp_into_rtranclp rtranclp.rtrancl_refl)
  then show ?thesis by simp
qed

lemma refused_leg:
  "i_poll s = PBuilt d h b \<Longrightarrow>
     icon_step s (s\<lparr>i_poll := PIdle, i_leaked := (if b then [h] else []) @ i_leaked s\<rparr>)"
  using icon_step.modify_fails[of s d h b] by (cases b) simp_all

lemma accepted_leg:
  assumes "i_poll s = PBuilt d h b" "i_shown s \<noteq> None"
  shows "icon_step\<^sup>*\<^sup>* s (s\<lparr>i_shown := Some d, i_poll := PIdle,
     i_destroyed := (if b \<and> h \<noteq> NoIcon then [h] else []) @ i_destroyed s\<rparr>)"
proof (cases "b \<and> h \<noteq> NoIcon")
  case True
  let ?s1 = "s\<lparr>i_shown := Some d, i_poll := PFree h\<rparr>"
  have "icon_step s ?s1" using icon_step.modify[OF assms] True by simp
  moreover have "icon_step ?s1 (?s1\<lparr>i_poll := PIdle, i_destroyed := h # i_destroyed s\<rparr>)"
    using icon_step.free[of ?s1] by simp
  ultimately show ?thesis using True by (auto intro: converse_rtranclp_into_rtranclp)
next
  case False
  then show ?thesis using icon_step.modify[OF assms] by auto
qed

lemma load_idle:
  "fst (load_icon_from_file env p t) = Inl e \<Longrightarrow>
     icons_of pc leaked (snd (load_icon_from_file env p t)) ts = icons_of pc leaked t ts"
  by (auto simp: load_icon_from_file_def icons_of_def calls_seen split: sum.splits option.splits)

lemma load_loaded:
  "fst (load_icon_from_file env p t) = Inr h \<Longrightarrow> h = Loaded (t_next_icon t) \<and>
     load_icon_from_file env p t = (Inr h, (logged (LoadImage h) t)\<lparr>t_next_icon := Suc (t_next_icon t)\<rparr>)"
  by (auto simp: load_icon_from_file_def split: sum.splits option.splits)



section \<open>Opening a link\<close>

text \<open>
  \<open>OpenURL\<close> hands a text to the shell only when it parses as a URL whose scheme is exactly
  \<open>https\<close> and has no NUL, and then exactly once and unchanged; otherwise it returns an error and
  calls nothing. It succeeds exactly when the shell reports a code above 32.
\<close>

theorem open_url_https_only:
  "open_url env raw t = (r, t') \<Longrightarrow>
     (t' = t \<and> r \<noteq> None) \<or>
     (\<exists>u w. url_parse raw = Inr u \<and> pu_scheme u = ''https'' \<and> utf16_from_string raw = Inr w \<and>
        t' = logged (ShellOpen w) t \<and> (r = None \<longleftrightarrow> 32 < fst (te_execute env (t_tick t))))"
  by (auto simp: open_url_def split: sum.splits if_splits prod.splits)

theorem open_url_https_only_witness:
  "\<exists>w. utf16_from_string ''https://h/p'' = Inr w \<and>
     open_url quiet_tray ''https://h/p'' (new_tray [] :: nat tray) = (None, logged (ShellOpen w) (new_tray [] :: nat tray))"
proof -
  have u: "url_parse ''https://h/p'' = Inr \<lparr>pu_scheme = ''https'', pu_opaque = [], pu_host = ''h''\<rparr>"
    by code_simp
  obtain r t' where r: "open_url quiet_tray ''https://h/p'' (new_tray [] :: nat tray) = (r, t')" by force
  moreover obtain w where w: "utf16_from_string ''https://h/p'' = Inr w" by (simp add: utf16_from_string_def chr_zero)
  moreover have "te_execute quiet_tray n = (42, Msg [])" for n by (simp add: quiet_tray_def)
  moreover have "r = None" using r u w by (auto simp: open_url_def quiet_tray_def)
  ultimately show ?thesis using open_url_https_only[OF r] by auto
qed

section \<open>Start-up\<close>

text \<open>
  The package's \<open>init\<close>: which of the two DPI calls are made, given whether each entry point exists
  and whether the first succeeds.
\<close>

definition dpi_init :: "bool \<Rightarrow> bool \<Rightarrow> bool \<Rightarrow> string list" where
  "dpi_init has_context context_ok has_aware =
     (if has_context \<and> context_ok then [''SetProcessDpiAwarenessContext'']
      else (if has_context then [''SetProcessDpiAwarenessContext''] else []) @
        (if has_aware then [''SetProcessDPIAware''] else []))"

end
