(* ===== verification/Handlers.thy ===== *)
theory Handlers
  imports Inventory TrayIcon
begin

text \<open>
  From a command envelope to its result: \<open>internal/runtime\<close> (\<open>Dispatch\<close>) and the six handlers of
  \<open>cmd/lightagent/handlers.go\<close> with \<open>decodeArgs\<close> and \<open>emitResult\<close>, and the prompt of
  \<open>prompt.go\<close>. The agent's state is the machine with the manager's fields, the update manager's
  single-flight guard, the tray, the envelopes handed to \<open>send\<close> in order and the dialogs asked for.
  The context holds what a handler reads: the managers' configurations, the environment of the
  machine and of the tray, and the outcomes of \<open>send\<close>, \<open>uuid.New\<close> and the clock.
\<close>

section \<open>State and context\<close>

text \<open>What a click in the tray may start.\<close>

datatype action = ToggleConnection | OpenHiddenBrowser | QuitTray | OpenLink string

record agent =
  ag_machine :: machine
  ag_updating :: bool
  ag_tray :: "action tray"
  ag_sent :: "envelope list"
  ag_prompts :: "(string \<times> string \<times> string) list"

record handler_context =
  cx_env :: sbenv
  cx_paths :: sb_paths
  cx_trust :: trust_calls
  cx_unzip :: "string \<Rightarrow> zip_entry list res"
  cx_abs :: "path \<Rightarrow> path res"
  cx_update :: update_config
  cx_exe :: "path res"
  cx_tray :: trayenv
  cx_tray_seen :: "nat \<Rightarrow> bool"
  cx_has_prompt :: bool
  cx_version :: string
  cx_os_major :: "string res"
  cx_arch :: string
  cx_send :: "nat \<Rightarrow> goerr option"
  cx_fresh :: "nat \<Rightarrow> uuid"
  cx_now :: "nat \<Rightarrow> string"
  cx_elapsed :: int
  cx_elapsed_emit :: int

type_synonym handler = "handler_context \<Rightarrow> envelope \<Rightarrow> agent \<Rightarrow> agent"

definition send :: "handler_context \<Rightarrow> envelope \<Rightarrow> agent \<Rightarrow> goerr option \<times> agent" where
  "send c e s = (cx_send c (length (ag_sent s)), s\<lparr>ag_sent := ag_sent s @ [e]\<rparr>)"

section \<open>Decoding and results\<close>

definition decode_handler_args :: "(json \<Rightarrow> 'a option) \<Rightarrow> command_kind \<Rightarrow> envelope \<Rightarrow> 'a res" where
  "decode_handler_args d want e =
     (case decode_data decode_command_data e of
        Inl err \<Rightarrow> Inl (wrapf ''decode command: '' err)
      | Inr cmd \<Rightarrow>
          if cmd_kind cmd \<noteq> want
          then Inl (Msg (''expected kind ['' @ want @ ''], got '' @ go_quote (cmd_kind cmd)))
          else (case decode_args d cmd of
              Inl err \<Rightarrow> Inl (wrapf (''decode '' @ cmd_kind cmd @ '' args: '') err)
            | Inr x \<Rightarrow> Inr x))"

definition emit_result :: "handler_context \<Rightarrow> uuid \<Rightarrow> result_data \<Rightarrow> agent \<Rightarrow> agent" where
  "emit_result c parent d s =
     (let d' = (if rd_duration d = 0 then d\<lparr>rd_duration := cx_elapsed_emit c\<rparr> else d);
          n = length (ag_sent s)
      in snd (send c (new_envelope (cx_fresh c n) (cx_now c n) MsgResult uuid_nil (Some parent) (Some (result_json d'))) s))"

definition failed_result :: "goerr \<Rightarrow> result_data" where
  "failed_result e = \<lparr>rd_exit_code = -1, rd_duration = 0, rd_output_hash = [], rd_error = err_text e\<rparr>"

definition ok_result :: "int \<Rightarrow> result_data" where
  "ok_result d = \<lparr>rd_exit_code = 0, rd_duration = d, rd_output_hash = [], rd_error = []\<rparr>"

text \<open>The common end of the handlers: \<open>-1\<close> and the error, or \<open>0\<close> and the time taken.\<close>

definition finish :: "handler_context \<Rightarrow> envelope \<Rightarrow> goerr option \<times> agent \<Rightarrow> agent" where
  "finish c e rs =
     (case rs of
        (Some err, s) \<Rightarrow> emit_result c (env_id e) (failed_result err) s
      | (None, s) \<Rightarrow> emit_result c (env_id e) (ok_result (cx_elapsed c)) s)"

section \<open>The handlers\<close>

definition run_inventory_refresh :: handler where
  "run_inventory_refresh c e s =
     (case collect (cx_os_major c) (cx_arch c) (cx_version c) (Some (cx_env c, cx_paths c)) (ag_machine s) of
        (Inl err, m) \<Rightarrow> emit_result c (env_id e) (failed_result (wrapf ''inventory collect: '' err)) (s\<lparr>ag_machine := m\<rparr>)
      | (Inr i, m) \<Rightarrow>
          (let s1 = s\<lparr>ag_machine := m\<rparr>; n = length (ag_sent s1);
               inv = new_envelope (cx_fresh c n) (cx_now c n) MsgInventory uuid_nil (Some (env_id e)) (Some (light_inventory_json i))
           in (case send c inv s1 of
                 (Some err, s2) \<Rightarrow> emit_result c (env_id e) (failed_result (wrapf ''send inventory: '' err)) s2
               | (None, s2) \<Rightarrow> emit_result c (env_id e) (ok_result 0) s2)))"

definition on_machine :: "(machine \<Rightarrow> goerr option \<times> machine) \<Rightarrow> agent \<Rightarrow> goerr option \<times> agent" where
  "on_machine f s = (case f (ag_machine s) of (r, m) \<Rightarrow> (r, s\<lparr>ag_machine := m\<rparr>))"

definition run_start_solarbeam :: handler where
  "run_start_solarbeam c e s =
     (case decode_handler_args decode_start_args CmdStartSolarbeam e of
        Inl err \<Rightarrow> finish c e (Some err, s)
      | Inr a \<Rightarrow>
          if sa_session_id a = [] \<or> sa_machine_id a = [] \<or> sa_bundle_token a = []
          then finish c e (Some (Msg ''start_solarbeam args: session_id, machine_id and bundle_token are required''), s)
          else finish c e (on_machine (manager_start (cx_env c) (cx_paths c) a) s))"

definition run_stop_solarbeam :: handler where
  "run_stop_solarbeam c e s =
     (case decode_handler_args decode_stop_args CmdStopSolarbeam e of
        Inl err \<Rightarrow> finish c e (Some err, s)
      | Inr a \<Rightarrow>
          if st_session_id a = []
          then finish c e (Some (Msg ''stop_solarbeam args: session_id is required''), s)
          else finish c e (on_machine (manager_stop (cx_env c) (cx_paths c) a) s))"

definition run_solarbeam_engine_update :: handler where
  "run_solarbeam_engine_update c e s =
     (case decode_handler_args decode_engine_update_args CmdSolarbeamEngineUpdate e of
        Inl err \<Rightarrow> finish c e (Some err, s)
      | Inr a \<Rightarrow>
          finish c e (on_machine (engine_manager_update (cx_env c) (cx_trust c) (cx_unzip c) (cx_abs c) (cx_paths c) a) s))"

definition severity_from_wire :: "string \<Rightarrow> severity" where
  "severity_from_wire s =
     (if s = ''warning'' then NotifyWarning else if s = ''error'' then NotifyError else NotifyInfo)"

definition connection_request_kind :: string where
  "connection_request_kind = ''connection_request''"

text \<open>\<open>showConnectionRequest\<close> starts the goroutine that puts up the dialog; here it is recorded.\<close>

definition show_connection_request :: "string \<Rightarrow> string \<Rightarrow> string \<Rightarrow> agent \<Rightarrow> agent" where
  "show_connection_request title body url s = s\<lparr>ag_prompts := ag_prompts s @ [(title, body, url)]\<rparr>"

text \<open>
  That goroutine: the link is opened when the mentor continued and there is one. The result of
  \<open>OpenURL\<close> is only logged.
\<close>

definition answer_prompt :: "trayenv \<Rightarrow> bool \<Rightarrow> string \<Rightarrow> action tray \<Rightarrow> action tray" where
  "answer_prompt env continued url t =
     (if \<not> continued \<or> url = [] then t else snd (open_url env url t))"

definition run_show_notification :: handler where
  "run_show_notification c e s =
     (case decode_handler_args decode_notify_args CmdShowNotification e of
        Inl err \<Rightarrow> finish c e (Some err, s)
      | Inr a \<Rightarrow>
          if na_kind a = [] \<or> na_title a = [] \<or> na_body a = []
          then finish c e (Some (Msg ''show_notification args: kind, title and body are required''), s)
          else if na_kind a = connection_request_kind \<and> cx_has_prompt c
          then finish c e (None, show_connection_request (na_title a) (na_body a) (na_url a) s)
          else (case notify (cx_tray c) (cx_tray_seen c) (na_title a) (na_body a)
                  (severity_from_wire (na_severity a)) (if na_url a = [] then None else Some (OpenLink (na_url a))) (ag_tray s) of
              (r, t) \<Rightarrow> finish c e (r, s\<lparr>ag_tray := t\<rparr>)))"

text \<open>\<open>SessionActiveFn\<close> asks the manager for its status; its effect on the machine is one tick.\<close>

definition session_active :: "handler_context \<Rightarrow> machine \<Rightarrow> bool" where
  "session_active c m = es_running (fst (manager_status (cx_env c) (cx_paths c) m))"

definition run_self_update :: handler where
  "run_self_update c e s =
     (case decode_handler_args decode_update_args CmdUpdate e of
        Inl err \<Rightarrow> finish c e (Some err, s)
      | Inr a \<Rightarrow>
          (case manager_update (host (cx_env c)) (cx_update c)
                  (Some (apply_light_update (host (cx_env c)) (cx_trust c) (cx_exe c)))
                  (Some (session_active c)) a (ag_updating s, ag_machine s) of
             (r, fl, m) \<Rightarrow> finish c e (r, s\<lparr>ag_updating := fl, ag_machine := m\<rparr>)))"

section \<open>Dispatch\<close>

definition light_handlers :: "command_kind \<Rightarrow> handler option" where
  "light_handlers =
     [CmdInventoryRefresh \<mapsto> run_inventory_refresh, CmdStartSolarbeam \<mapsto> run_start_solarbeam,
      CmdStopSolarbeam \<mapsto> run_stop_solarbeam, CmdSolarbeamEngineUpdate \<mapsto> run_solarbeam_engine_update,
      CmdUpdate \<mapsto> run_self_update, CmdShowNotification \<mapsto> run_show_notification]"

definition unsupported_result :: "command_kind \<Rightarrow> result_data" where
  "unsupported_result k = \<lparr>rd_exit_code = -1, rd_duration = 0, rd_output_hash = [],
     rd_error = ''command kind not supported: '' @ k\<rparr>"

definition dispatch_command :: "(command_kind \<Rightarrow> handler option) \<Rightarrow> handler" where
  "dispatch_command handlers c e s =
     (case decode_data decode_command_data e of
        Inl err \<Rightarrow> s
      | Inr cmd \<Rightarrow>
          (case handlers (cmd_kind cmd) of
             Some h \<Rightarrow> h c e s
           | None \<Rightarrow>
               (let n = length (ag_sent s)
                in snd (send c (new_envelope (cx_fresh c n) (cx_now c n) MsgResult (env_id e) (Some (env_id e))
                     (Some (result_json (unsupported_result (cmd_kind cmd))))) s))))"

section \<open>Every command is answered once\<close>

definition answers :: "envelope \<Rightarrow> envelope \<Rightarrow> bool" where
  "answers e r \<longleftrightarrow> env_type r = MsgResult \<and> env_reply r = Some (env_id e) \<and> (\<exists>d. env_data r = Some (result_json d))"

definition is_inventory :: "envelope \<Rightarrow> bool" where
  "is_inventory m \<longleftrightarrow> env_type m = MsgInventory \<and> (\<exists>i. env_data m = Some (light_inventory_json i))"

definition is_result :: "envelope \<Rightarrow> bool" where
  "is_result m \<longleftrightarrow> env_type m = MsgResult"

lemma inventory_not_result: "is_inventory m \<Longrightarrow> \<not> is_result m"
  by (simp add: is_inventory_def is_result_def message_types)

text \<open>
  The contract of a handler, \<open>runtime.Handler\<close>: it must emit a final \<open>MsgResult\<close>. Here: whatever
  it sends before, its last message answers the command and no other is a result.
\<close>

locale command_handler =
  fixes accepts :: "envelope \<Rightarrow> bool"
    and h :: "envelope \<Rightarrow> 's \<Rightarrow> 's"
    and sent :: "'s \<Rightarrow> envelope list"
  assumes replies: "accepts e \<Longrightarrow>
    \<exists>pre r. sent (h e s) = sent s @ pre @ [r] \<and> list_all is_inventory pre \<and> answers e r"
begin

primrec serve :: "envelope list \<Rightarrow> 's \<Rightarrow> 's" where
  "serve [] s = s"
| "serve (e # es) s = serve es (h e s)"

lemma serve_answers:
  "list_all accepts es \<Longrightarrow>
     \<exists>ms. sent (serve es s) = sent s @ ms \<and> map env_reply (filter is_result ms) = map (Some \<circ> env_id) es \<and>
       list_all (\<lambda>m. is_result m \<or> is_inventory m) ms"
proof (induction es arbitrary: s)
  case (Cons e es)
  then obtain pre r where r: "sent (h e s) = sent s @ pre @ [r]" "list_all is_inventory pre" "answers e r"
    using replies[of e s] by auto
  obtain ms where ms: "sent (serve es (h e s)) = sent (h e s) @ ms"
      "map env_reply (filter is_result ms) = map (Some \<circ> env_id) es" "list_all (\<lambda>m. is_result m \<or> is_inventory m) ms"
    using Cons.IH[of "h e s"] Cons.prems by auto
  have "filter is_result pre = []"
    using r(2) inventory_not_result by (auto simp: filter_empty_conv list_all_iff)
  moreover have "is_result r \<and> env_reply r = Some (env_id e)" using r(3) by (simp add: answers_def is_result_def)
  ultimately show ?case using r ms by (intro exI[of _ "pre @ [r] @ ms"]) (auto simp: list_all_iff)
qed simp

end

lemma new_envelope_simps [simp, agent_simps]:
  "env_type (new_envelope f n t i r d) = t" "env_reply (new_envelope f n t i r d) = r"
  "env_data (new_envelope f n t i r d) = d"
  by (simp_all add: new_envelope_def)

lemma emit_result_sent:
  "\<exists>r d'. ag_sent (emit_result c p d s) = ag_sent s @ [r] \<and> env_type r = MsgResult \<and> env_reply r = Some p \<and>
     env_data r = Some (result_json d') \<and> rd_exit_code d' = rd_exit_code d \<and> rd_error d' = rd_error d"
  by (intro exI[of _ "new_envelope (cx_fresh c (length (ag_sent s))) (cx_now c (length (ag_sent s))) MsgResult uuid_nil (Some p)
        (Some (result_json (if rd_duration d = 0 then d\<lparr>rd_duration := cx_elapsed_emit c\<rparr> else d)))"]
      exI[of _ "if rd_duration d = 0 then d\<lparr>rd_duration := cx_elapsed_emit c\<rparr> else d"])
     (simp add: emit_result_def send_def Let_def)

lemma emit_result_rest [simp]:
  "ag_machine (emit_result c p d s) = ag_machine s" "ag_updating (emit_result c p d s) = ag_updating s"
  "ag_tray (emit_result c p d s) = ag_tray s" "ag_prompts (emit_result c p d s) = ag_prompts s"
  by (simp_all add: emit_result_def send_def Let_def)

lemma finish_sent:
  "\<exists>r d. ag_sent (finish c e (res, s)) = ag_sent s @ [r] \<and> answers e r \<and> env_data r = Some (result_json d) \<and>
     (rd_exit_code d = 0 \<longleftrightarrow> res = None) \<and> (rd_exit_code d = -1 \<longleftrightarrow> res \<noteq> None) \<and>
     rd_error d = (case res of None \<Rightarrow> [] | Some err \<Rightarrow> err_text err)"
  using emit_result_sent[of c "env_id e" "ok_result (cx_elapsed c)" s]
    emit_result_sent[of c "env_id e" "case res of Some err \<Rightarrow> failed_result err | None \<Rightarrow> ok_result 0" s]
  by (cases res) (fastforce simp: finish_def answers_def failed_result_def ok_result_def)+

lemma finish_rest [simp]:
  "ag_machine (finish c e (res, s)) = ag_machine s" "ag_updating (finish c e (res, s)) = ag_updating s"
  "ag_tray (finish c e (res, s)) = ag_tray s" "ag_prompts (finish c e (res, s)) = ag_prompts s"
  by (simp_all add: finish_def split: option.splits)

lemma finish_replies:
  "ag_sent (snd rs) = ag_sent s \<Longrightarrow>
     \<exists>pre r. ag_sent (finish c e rs) = ag_sent s @ pre @ [r] \<and> list_all is_inventory pre \<and> answers e r"
  using finish_sent[of c e "fst rs" "snd rs"] by (cases rs) fastforce

lemma on_machine_rest [simp]:
  "ag_sent (snd (on_machine f s)) = ag_sent s" "ag_updating (snd (on_machine f s)) = ag_updating s"
  "ag_tray (snd (on_machine f s)) = ag_tray s" "ag_prompts (snd (on_machine f s)) = ag_prompts s"
  "ag_machine (snd (on_machine f s)) = snd (f (ag_machine s))" "fst (on_machine f s) = fst (f (ag_machine s))"
  by (simp_all add: on_machine_def split: prod.splits)

text \<open>Each of the six keeps the contract, and so does the dispatcher for what it can decode.\<close>

interpretation start_handler: command_handler "\<lambda>e. True" "run_start_solarbeam c" ag_sent for c
  by unfold_locales
     (auto simp: run_start_solarbeam_def split: sum.splits if_splits intro: finish_replies)

interpretation stop_handler: command_handler "\<lambda>e. True" "run_stop_solarbeam c" ag_sent for c
  by unfold_locales
     (auto simp: run_stop_solarbeam_def split: sum.splits if_splits intro: finish_replies)

interpretation engine_update_handler: command_handler "\<lambda>e. True" "run_solarbeam_engine_update c" ag_sent for c
  by unfold_locales
     (auto simp: run_solarbeam_engine_update_def split: sum.splits intro: finish_replies)

interpretation self_update_handler: command_handler "\<lambda>e. True" "run_self_update c" ag_sent for c
  by unfold_locales
     (auto simp: run_self_update_def split: sum.splits prod.splits intro: finish_replies)

interpretation notification_handler: command_handler "\<lambda>e. True" "run_show_notification c" ag_sent for c
  by unfold_locales
     (auto simp: run_show_notification_def show_connection_request_def split: sum.splits prod.splits if_splits
      intro: finish_replies)

lemma emit_answers:
  "\<exists>r. ag_sent (emit_result c (env_id e) d s) = ag_sent s @ [r] \<and> answers e r"
  using emit_result_sent[of c "env_id e" d s] by (auto simp: answers_def)

lemma inventory_refresh_sent:
  "\<exists>pre r. ag_sent (run_inventory_refresh c e s) = ag_sent s @ pre @ [r] \<and> answers e r \<and>
     list_all (\<lambda>m. is_inventory m \<and> env_reply m = Some (env_id e)) pre \<and>
     length pre \<le> 1"
proof (cases "collect (cx_os_major c) (cx_arch c) (cx_version c) (Some (cx_env c, cx_paths c)) (ag_machine s)")
  case (Pair r m)
  show ?thesis
  proof (cases r)
    case (Inl err)
    obtain q where "ag_sent (run_inventory_refresh c e s) = ag_sent s @ [q]" "answers e q"
      using emit_answers[of c e "failed_result (wrapf ''inventory collect: '' err)" "s\<lparr>ag_machine := m\<rparr>"]
      by (auto simp: run_inventory_refresh_def Pair Inl)
    then show ?thesis by (intro exI[of _ "[]"] exI[of _ q]) simp
  next
    case (Inr i)
    let ?n = "length (ag_sent s)"
    let ?inv = "new_envelope (cx_fresh c ?n) (cx_now c ?n) MsgInventory uuid_nil (Some (env_id e)) (Some (light_inventory_json i))"
    let ?d = "case cx_send c ?n of None \<Rightarrow> ok_result 0 | Some err \<Rightarrow> failed_result (wrapf ''send inventory: '' err)"
    have d: "run_inventory_refresh c e s =
        emit_result c (env_id e) ?d (s\<lparr>ag_machine := m, ag_sent := ag_sent s @ [?inv]\<rparr>)"
      by (cases "cx_send c ?n") (simp_all add: run_inventory_refresh_def Pair Inr send_def Let_def)
    obtain q where "ag_sent (run_inventory_refresh c e s) = (ag_sent s @ [?inv]) @ [q]" "answers e q"
      using emit_answers[of c e ?d "s\<lparr>ag_machine := m, ag_sent := ag_sent s @ [?inv]\<rparr>"] by (auto simp: d)
    then show ?thesis by (intro exI[of _ "[?inv]"] exI[of _ q]) (auto simp: is_inventory_def)
  qed
qed

interpretation inventory_handler: command_handler "\<lambda>e. True" "run_inventory_refresh c" ag_sent for c
proof
  fix e s
  obtain pre r where "ag_sent (run_inventory_refresh c e s) = ag_sent s @ pre @ [r]" "answers e r"
      "list_all (\<lambda>m. is_inventory m \<and> env_reply m = Some (env_id e)) pre"
    using inventory_refresh_sent by blast
  then show "\<exists>pre r. ag_sent (run_inventory_refresh c e s) = ag_sent s @ pre @ [r] \<and>
      list_all is_inventory pre \<and> answers e r"
    by (intro exI[of _ pre] exI[of _ r]) (simp add: list_all_iff)
qed

definition decodable :: "envelope \<Rightarrow> bool" where
  "decodable e \<longleftrightarrow> (\<exists>cmd. decode_data decode_command_data e = Inr cmd)"

lemma unsupported_answers:
  "answers e (new_envelope f n MsgResult i (Some (env_id e)) (Some (result_json d)))"
  by (auto simp: answers_def)

lemma light_handlers_cases:
  "light_handlers k = Some h \<Longrightarrow>
     (k = CmdInventoryRefresh \<and> h = run_inventory_refresh) \<or> (k = CmdStartSolarbeam \<and> h = run_start_solarbeam) \<or>
     (k = CmdStopSolarbeam \<and> h = run_stop_solarbeam) \<or>
     (k = CmdSolarbeamEngineUpdate \<and> h = run_solarbeam_engine_update) \<or>
     (k = CmdUpdate \<and> h = run_self_update) \<or> (k = CmdShowNotification \<and> h = run_show_notification)"
  by (auto simp: light_handlers_def split: if_splits)

interpretation dispatcher: command_handler decodable "dispatch_command light_handlers c" ag_sent for c
proof
  fix e s assume "decodable e"
  then obtain cmd where cmd: "decode_data decode_command_data e = Inr cmd" by (auto simp: decodable_def)
  show "\<exists>pre r. ag_sent (dispatch_command light_handlers c e s) = ag_sent s @ pre @ [r] \<and>
      list_all is_inventory pre \<and> answers e r"
  proof (cases "light_handlers (cmd_kind cmd)")
    case None
    then show ?thesis
      using unsupported_answers by (fastforce simp: dispatch_command_def cmd send_def Let_def)
  next
    case (Some h)
    then have run: "dispatch_command light_handlers c e s = h c e s" by (simp add: dispatch_command_def cmd)
    from light_handlers_cases[OF Some] show ?thesis unfolding run
      using start_handler.replies stop_handler.replies engine_update_handler.replies
        self_update_handler.replies notification_handler.replies inventory_handler.replies by blast
  qed
qed

text \<open>Serving a sequence of commands one after the other, in the order they arrive.\<close>

definition serve_commands :: "handler_context \<Rightarrow> envelope list \<Rightarrow> agent \<Rightarrow> agent" where
  "serve_commands c es s = fold (dispatch_command light_handlers c) es s"

lemma undecodable_dropped: "\<not> decodable e \<Longrightarrow> dispatch_command hs c e s = s"
  by (auto simp: decodable_def dispatch_command_def split: sum.splits)

lemma serve_commands_filter:
  "serve_commands c es s = dispatcher.serve c (filter decodable es) s"
  by (induction es arbitrary: s) (simp_all add: serve_commands_def undecodable_dropped)

text \<open>
  The agent answers every command it can decode with exactly one result, in the order of the
  commands and each replying to its own, whatever the kinds, arguments and outcomes; undecodable
  messages are dropped. Everything else it sends on its own account is the six-field inventory.
\<close>

theorem commands_answered:
  "\<exists>ms. ag_sent (serve_commands c es s) = ag_sent s @ ms \<and>
     map env_reply (filter is_result ms) = map (Some \<circ> env_id) (filter decodable es) \<and>
     list_all (\<lambda>m. is_result m \<or> is_inventory m) ms"
  using dispatcher.serve_answers[of "filter decodable es" c s]
  by (simp add: serve_commands_filter list_all_iff)

section \<open>Refused commands\<close>

text \<open>
  What a handler requires of its command. For kinds outside the six there is nothing it accepts.
\<close>

definition well_formed :: "envelope \<Rightarrow> bool" where
  "well_formed e \<longleftrightarrow>
     (\<exists>cmd. decode_data decode_command_data e = Inr cmd \<and>
       (cmd_kind cmd = CmdInventoryRefresh \<or>
        (\<exists>a. decode_handler_args decode_start_args CmdStartSolarbeam e = Inr a \<and>
             sa_session_id a \<noteq> [] \<and> sa_machine_id a \<noteq> [] \<and> sa_bundle_token a \<noteq> []) \<or>
        (\<exists>a. decode_handler_args decode_stop_args CmdStopSolarbeam e = Inr a \<and> st_session_id a \<noteq> []) \<or>
        (\<exists>a. decode_handler_args decode_engine_update_args CmdSolarbeamEngineUpdate e = Inr a) \<or>
        (\<exists>a. decode_handler_args decode_update_args CmdUpdate e = Inr a) \<or>
        (\<exists>a. decode_handler_args decode_notify_args CmdShowNotification e = Inr a \<and>
             na_kind a \<noteq> [] \<and> na_title a \<noteq> [] \<and> na_body a \<noteq> [])))"

lemma emit_result_only:
  "\<exists>r d'. emit_result c p d s = s\<lparr>ag_sent := ag_sent s @ [r]\<rparr> \<and> env_type r = MsgResult \<and> env_reply r = Some p \<and>
     env_data r = Some (result_json d') \<and> rd_exit_code d' = rd_exit_code d \<and> rd_error d' = rd_error d"
proof -
  let ?n = "length (ag_sent s)" and ?d = "if rd_duration d = 0 then d\<lparr>rd_duration := cx_elapsed_emit c\<rparr> else d"
  let ?r = "new_envelope (cx_fresh c ?n) (cx_now c ?n) MsgResult uuid_nil (Some p) (Some (result_json ?d))"
  have "emit_result c p d s = s\<lparr>ag_sent := ag_sent s @ [?r]\<rparr>"
    by (simp add: emit_result_def send_def Let_def)
  then show ?thesis by (intro exI[of _ ?r] exI[of _ ?d]) simp
qed

definition refusal :: "envelope \<Rightarrow> agent \<Rightarrow> agent \<Rightarrow> bool" where
  "refusal e s s' \<longleftrightarrow>
     (\<exists>r d. s' = s\<lparr>ag_sent := ag_sent s @ [r]\<rparr> \<and> env_type r = MsgResult \<and> env_reply r = Some (env_id e) \<and>
        env_data r = Some (result_json d) \<and> rd_exit_code d = -1)"

lemma finish_refusal: "refusal e s (finish c e (Some err, s))"
  using emit_result_only[of c "env_id e" "failed_result err" s]
  by (auto simp: finish_def refusal_def failed_result_def)

text \<open>
  C22. A decodable command that is not well-formed is refused with no effect: of an unknown kind, of
  the wrong kind for its handler, with arguments that do not decode, or with a required one empty,
  it changes nothing of the agent but for one result with exit code \<open>-1\<close>.
\<close>

theorem refused_commands_inert:
  assumes "decodable e" "\<not> well_formed e"
  shows "refusal e s (dispatch_command light_handlers c e s)"
proof -
  obtain cmd where cmd: "decode_data decode_command_data e = Inr cmd" using assms(1) by (auto simp: decodable_def)
  show ?thesis
  proof (cases "light_handlers (cmd_kind cmd)")
    case None
    let ?n = "length (ag_sent s)"
    let ?r = "new_envelope (cx_fresh c ?n) (cx_now c ?n) MsgResult (env_id e) (Some (env_id e))
        (Some (result_json (unsupported_result (cmd_kind cmd))))"
    have "dispatch_command light_handlers c e s = s\<lparr>ag_sent := ag_sent s @ [?r]\<rparr>"
      using None by (simp add: dispatch_command_def cmd send_def Let_def)
    moreover have "rd_exit_code (unsupported_result (cmd_kind cmd)) = -1" by (simp add: unsupported_result_def)
    ultimately show ?thesis unfolding refusal_def
      by (intro exI[of _ ?r] exI[of _ "unsupported_result (cmd_kind cmd)"]) simp
  next
    case (Some h)
    have run: "dispatch_command light_handlers c e s = h c e s" using Some by (simp add: dispatch_command_def cmd)
    have not: "cmd_kind cmd \<noteq> CmdInventoryRefresh" using assms(2) cmd by (auto simp: well_formed_def)
    with light_handlers_cases[OF Some] show ?thesis using assms(2) finish_refusal unfolding run
      by (auto simp: well_formed_def cmd run_start_solarbeam_def run_stop_solarbeam_def run_self_update_def
          run_solarbeam_engine_update_def run_show_notification_def split: sum.splits)
  qed
qed

definition bare_command :: "command_kind \<Rightarrow> json \<Rightarrow> envelope" where
  "bare_command k a = \<lparr>env_id = ''c1'', env_type = MsgCommand, env_reply = None, env_ts = [],
     env_data = Some (command_json \<lparr>cmd_kind = k, cmd_args = Some a\<rparr>)\<rparr>"

lemma bare_command_decodes [simp]:
  "decode_data decode_command_data (bare_command k a) = Inr \<lparr>cmd_kind = k, cmd_args = Some a\<rparr>"
  "env_id (bare_command k a) = ''c1''"
  by (simp_all add: bare_command_def decode_data_def)

lemma decode_handler_bare:
  "decode_handler_args d k (bare_command k a) =
     (case d a of None \<Rightarrow> Inl (wrapf (''decode '' @ k @ '' args: '') (Msg ''json: cannot unmarshal'')) | Some x \<Rightarrow> Inr x)"
  by (simp add: decode_handler_args_def decode_args_def split: option.splits)

theorem refused_commands_inert_witness:
  "\<forall>c s. refusal (bare_command ''shell'' JNull) s
     (dispatch_command light_handlers c (bare_command ''shell'' JNull) s)"
proof (intro allI, rule refused_commands_inert)
  show "decodable (bare_command ''shell'' JNull)" by (simp add: decodable_def)
  show "\<not> well_formed (bare_command ''shell'' JNull)"
    by (simp add: well_formed_def decode_handler_args_def command_kinds)
qed

section \<open>The update command\<close>


definition update_context :: handler_context where
  "update_context = \<lparr>cx_env = hostenv.extend sample_net
       \<lparr>se_query = (\<lambda>n. Inr Stopped), se_query_time = (\<lambda>n. 0), se_dial = (\<lambda>n. None), se_dial_time = (\<lambda>n. 0),
        se_file_version = (\<lambda>p. Inr (0x00010002, 0x00030000))\<rparr>,
     cx_paths = session_paths, cx_trust = sample_trust None, cx_unzip = (\<lambda>s. Inr []), cx_abs = Inr,
     cx_update = swap_cfg, cx_exe = Inr ''a.exe'', cx_tray = quiet_tray, cx_tray_seen = (\<lambda>n. True),
     cx_has_prompt = True, cx_version = ''2'', cx_os_major = Inr ''11'', cx_arch = ''amd64'',
     cx_send = (\<lambda>n. None), cx_fresh = (\<lambda>n. ''f''), cx_now = (\<lambda>n. ''t''), cx_elapsed = 1, cx_elapsed_emit = 1\<rparr>"

definition update_machine :: machine where
  "update_machine = session_machine\<lparr>w_fs := [''a.exe'' \<mapsto> File ''v1''], w_tick := 0, w_log := []\<rparr>"

definition update_agent :: agent where
  "update_agent = \<lparr>ag_machine = update_machine, ag_updating = False, ag_tray = new_tray [], ag_sent = [], ag_prompts = []\<rparr>"

lemma update_context_host: "host (cx_env update_context) = sample_net"
  by (simp add: update_context_def hostenv.defs)

lemma update_idle: "m_engine_proc m = None \<Longrightarrow> \<not> session_active update_context m"
  by (simp add: session_active_def manager_status_def status_fn_def update_context_def session_paths_def
      engine_process_running_def Let_def)

lemma update_machine_downloads:
  "download_verified sample_net (update_download swap_cfg swap_args) update_machine =
     (Inr (''D'' @ [CHR 0x5C] @ ''fleet-agent-update-*.exe''),
      update_machine\<lparr>w_fs := (w_fs update_machine)(''D'' @ [CHR 0x5C] @ ''fleet-agent-update-*.exe'' \<mapsto> File ''MZ''),
                w_tick := 5\<rparr>)"
  by (simp add: download_verified_def http_get_def update_download_def swap_cfg_def swap_args_def
      sample_update_cfg_def sample_update_args_def sample_url sample_net_def quiet_env_def
      update_machine_def session_machine_def world.defs engine_world_def host_calls Let_def verify_sha256_def tick_def put_def toy_sha_def
      max_download_bytes_def)

lemma update_machine_runs:
  "\<exists>m. manager_update sample_net swap_cfg (Some (apply_light_update sample_net (sample_trust None) (Inr ''a.exe'')))
     (Some (session_active update_context)) swap_args (False, update_machine) = (None, False, m)"
proof -
  have val: "update_validate swap_cfg swap_args = None" using swap_acceptable by (simp add: update_validate_iff)
  have fields: "ua_version swap_args = ''2''" "ua_signer_fingerprint swap_args = hex_encode (toy_sha ''der'')"
    by (simp_all add: swap_args_def sample_update_args_def)
  have env: "he_sha256 sample_net = toy_sha" by (simp add: sample_net_def)
  let ?m1 = "update_machine\<lparr>w_fs := (w_fs update_machine)(''D'' @ [CHR 0x5C] @ ''fleet-agent-update-*.exe'' \<mapsto> File ''MZ''),
                w_tick := 5\<rparr>"
  have idle: "\<not> session_active update_context update_machine" "\<not> session_active update_context ?m1"
    by (rule update_idle; simp add: update_machine_def session_machine_def world.defs)+
  obtain w' where "apply_light_update sample_net (sample_trust None) (Inr ''a.exe'')
      (''D'' @ [CHR 0x5C] @ ''fleet-agent-update-*.exe'') ''2'' (hex_encode (toy_sha ''der'')) ?m1 = (None, w')"
    by (simp add: apply_light_update_def env sample_authenticode outcome_error_def)
       (simp add: host_calls sample_net_def quiet_env_def update_machine_def old_path_def
        tick_def put_def drop_path_def log_effect_def)
  then have "update_body sample_net swap_cfg (Some (apply_light_update sample_net (sample_trust None) (Inr ''a.exe'')))
      (Some (session_active update_context)) swap_args update_machine = (None, w')"
    using fields idle by (simp add: update_body_def val session_says_def update_machine_downloads apply_staged_def)
  then show ?thesis by (simp add: manager_update_def try_begin_def end_flight_def)
qed


end
