(* ===== verification/Config.thy ===== *)
theory Config
  imports Proto Host GoPath
begin

text \<open>
  The agent's configuration file, \<open>internal/config\<close>: \<open>json.MarshalIndent\<close> with two spaces, the
  decoder with the legacy key, \<open>Load\<close>, \<open>Save\<close> and the test for being enrolled.
\<close>

section \<open>Indented JSON\<close>

definition newline :: "nat \<Rightarrow> string" where
  "newline d = CHR 0x0A # replicate (2 * d) (CHR '' '')"

fun json_indent :: "nat \<Rightarrow> json \<Rightarrow> string"
  and indent_elems :: "nat \<Rightarrow> json list \<Rightarrow> string"
  and indent_members :: "nat \<Rightarrow> (string \<times> json) list \<Rightarrow> string" where
  "json_indent d JNull = ''null''"
| "json_indent d (JBool b) = (if b then ''true'' else ''false'')"
| "json_indent d (JNum l) = l"
| "json_indent d (JStr s) = print_str s"
| "json_indent d (JArr vs) = (if vs = [] then ''[]'' else CHR ''['' # newline (Suc d) @ indent_elems d vs)"
| "json_indent d (JObj ms) = (if ms = [] then ''{}'' else CHR ''{'' # newline (Suc d) @ indent_members d ms)"
| "indent_elems d [] = []"
| "indent_elems d [v] = json_indent (Suc d) v @ newline d @ '']''"
| "indent_elems d (v # w # vs) = json_indent (Suc d) v @ CHR '','' # newline (Suc d) @ indent_elems d (w # vs)"
| "indent_members d [] = []"
| "indent_members d [(k, v)] = print_str k @ '': '' @ json_indent (Suc d) v @ newline d @ ''}''"
| "indent_members d ((k, v) # m # ms) =
     print_str k @ '': '' @ json_indent (Suc d) v @ CHR '','' # newline (Suc d) @ indent_members d (m # ms)"

lemma skip_spaces [simp]: "skip_ws (CHR '' '' # s) = skip_ws s"
  by (simp add: skip_ws_def is_ws_def)

lemma skip_newline [simp]: "skip_ws (newline d @ s) = skip_ws s"
proof -
  have "skip_ws (replicate n (CHR '' '') @ s) = skip_ws s" for n by (induction n) simp_all
  then show ?thesis by (simp add: newline_def skip_ws_def is_ws_def)
qed

text \<open>The scanner skips blanks before a value, a list of elements and a list of members.\<close>

lemma jval_skip: "skip_ws s = skip_ws t \<Longrightarrow> jval n s = jval n t"
  by (cases n) simp_all

lemma jelems_skip: "skip_ws s = skip_ws t \<Longrightarrow> jelems n s = jelems n t"
proof (cases n)
  case (Suc m)
  assume "skip_ws s = skip_ws t"
  then have "jval m s = jval m t" by (rule jval_skip)
  then show ?thesis using Suc by simp
qed simp

lemma jmembers_skip: "skip_ws s = skip_ws t \<Longrightarrow> jmembers n s = jmembers n t"
  by (cases n) simp_all

lemma json_indent_head:
  "json_wf v \<Longrightarrow> \<exists>c t. json_indent d v = c # t \<and> \<not> is_ws c \<and> c \<noteq> CHR '']'' \<and> c \<noteq> CHR ''}''"
proof (cases v)
  case (JNum l)
  assume "json_wf v"
  with JNum json_print_head[of v] show ?thesis by simp
qed (auto simp: print_str_def is_ws_def)

lemma indent_elems_head: "list_all json_wf vs \<Longrightarrow> vs \<noteq> [] \<Longrightarrow>
   \<exists>c t. indent_elems d vs = c # t \<and> \<not> is_ws c \<and> c \<noteq> CHR '']''"
  using json_indent_head[of "hd vs" "Suc d"] by (cases vs; cases "tl vs") auto

lemma indent_members_head: "ms \<noteq> [] \<Longrightarrow> \<exists>t. indent_members d ms = quote_byte # t"
  by (cases ms; cases "tl ms") (auto simp: print_str_def)

lemma delim_newline [simp]: "delim_head (newline d @ s)"
  by (simp add: delim_head_def newline_def is_ws_def)

lemma json_indent_roundtrip_aux:
  "json_wf v \<Longrightarrow> delim_head r \<Longrightarrow> length (json_indent d v) \<le> n \<Longrightarrow> jval n (json_indent d v @ r) = Some (v, r)"
  "list_all json_wf vs \<Longrightarrow> vs \<noteq> [] \<Longrightarrow> length (indent_elems d vs) \<le> n \<Longrightarrow>
    jelems n (indent_elems d vs @ r) = Some (vs, r)"
  "list_all (\<lambda>(k, v). json_wf v) ms \<Longrightarrow> ms \<noteq> [] \<Longrightarrow> length (indent_members d ms) \<le> n \<Longrightarrow>
    jmembers n (indent_members d ms @ r) = Some (ms, r)"
proof (induction d v and d vs and d ms arbitrary: r n and r n and r n
    rule: json_indent_indent_elems_indent_members.induct)
  case (2 d b)
  then obtain m where "n = Suc m" by (cases n) (auto split: if_splits)
  with 2 show ?case by (simp add: literal_def has_prefix_def skip_ws_nonws is_ws_def)
next
  case (3 d l)
  then obtain m where "n = Suc m" by (cases n) (auto dest: valid_num_head)
  with jval_num[of l r m] 3 show ?case by simp
next
  case (4 d s)
  then obtain m where n: "n = Suc m" by (cases n) (auto simp: print_str_def)
  show ?case
    using json_str_print_aux[of s r] by (simp add: n print_str_def skip_ws_nonws is_ws_def)
next
  case (5 d vs)
  then obtain m where n: "n = Suc m" by (cases n) (auto split: if_splits)
  show ?case
  proof (cases "vs = []")
    case True
    then show ?thesis by (simp add: n skip_ws_nonws is_ws_def)
  next
    case False
    from 5 have wf: "list_all json_wf vs" by simp
    from indent_elems_head[OF this False]
    obtain c t where ct: "indent_elems d vs = c # t" "\<not> is_ws c" "c \<noteq> CHR '']''" by blast
    have "jelems m (indent_elems d vs @ r) = Some (vs, r)" using 5(1)[OF False wf False] 5(4) n False by simp
    then show ?thesis using ct n False by (simp add: skip_ws_nonws is_ws_def[of "CHR ''[''"])
  qed
next
  case (6 d ms)
  then obtain m where n: "n = Suc m" by (cases n) (auto split: if_splits)
  show ?case
  proof (cases "ms = []")
    case True
    then show ?thesis by (simp add: n skip_ws_nonws is_ws_def)
  next
    case False
    with indent_members_head obtain t where t: "indent_members d ms = quote_byte # t" by blast
    have "jmembers m (indent_members d ms @ r) = Some (ms, r)" using 6(1)[OF False _ False] 6(2,4) n False by simp
    then show ?thesis using t n False by (simp add: skip_ws_nonws is_ws_def)
  qed
next
  case (8 d v)
  then obtain m where n: "n = Suc m" by (cases n) auto
  have "jval m (json_indent (Suc d) v @ newline d @ CHR '']'' # r) = Some (v, newline d @ CHR '']'' # r)"
    using 8 n by simp
  then show ?case using n by (simp add: skip_ws_nonws is_ws_def)
next
  case (9 d v w vs)
  then obtain m where n: "n = Suc m" by (cases n) auto
  have "jval m (json_indent (Suc d) v @ CHR '','' # newline (Suc d) @ indent_elems d (w # vs) @ r) =
      Some (v, CHR '','' # newline (Suc d) @ indent_elems d (w # vs) @ r)"
    using 9 n by (simp add: delim_head_def)
  moreover have "jelems m (newline (Suc d) @ indent_elems d (w # vs) @ r) = Some (w # vs, r)"
    using 9 n jelems_skip[of "newline (Suc d) @ indent_elems d (w # vs) @ r" "indent_elems d (w # vs) @ r" m] by simp
  ultimately show ?case using n by (simp add: skip_ws_nonws is_ws_def)
next
  case (11 d k v)
  then obtain m where n: "n = Suc m" by (cases n) (auto simp: print_str_def)
  have "jval m (CHR '' '' # json_indent (Suc d) v @ newline d @ CHR ''}'' # r) = Some (v, newline d @ CHR ''}'' # r)"
    using 11 n jval_skip[of "CHR '' '' # json_indent (Suc d) v @ newline d @ CHR ''}'' # r"
        "json_indent (Suc d) v @ newline d @ CHR ''}'' # r" m] by simp
  then show ?case using n json_str_print_aux[of k]
    by (simp add: print_str_def skip_ws_nonws is_ws_def)
next
  case (12 d k v m' ms)
  then obtain m where n: "n = Suc m" by (cases n) (auto simp: print_str_def)
  let ?r = "CHR '','' # newline (Suc d) @ indent_members d (m' # ms) @ r"
  have "jval m (CHR '' '' # json_indent (Suc d) v @ ?r) = Some (v, ?r)"
    using 12 n jval_skip[of "CHR '' '' # json_indent (Suc d) v @ ?r" "json_indent (Suc d) v @ ?r" m]
    by (simp add: delim_head_def)
  moreover have "jmembers m (newline (Suc d) @ indent_members d (m' # ms) @ r) = Some (m' # ms, r)"
    using 12 n jmembers_skip[of "newline (Suc d) @ indent_members d (m' # ms) @ r" "indent_members d (m' # ms) @ r" m]
    by simp
  ultimately show ?case using n json_str_print_aux[of k]
    by (simp add: print_str_def skip_ws_nonws is_ws_def)
qed (auto simp: literal_def has_prefix_def skip_ws_nonws is_ws_def Suc_le_eq gr0_conv_Suc elim: less_natE)

lemma json_parse_indent: "json_wf v \<Longrightarrow> json_parse (json_indent d v) = Some v"
  using json_indent_roundtrip_aux(1)[of v "[]" d "Suc (length (json_indent d v))"]
  by (simp add: json_parse_def delim_head_def skip_ws_def)

section \<open>The configuration\<close>

record config =
  cf_server_url :: string
  cf_enrollment_url :: string
  cf_enrollment_secret :: string
  cf_intended_label :: string
  cf_cert_path :: path
  cf_key_path :: path
  cf_ca_path :: path
  cf_machine_id :: string
  cf_venue_id :: string

definition zero_config :: config where
  "zero_config = \<lparr>cf_server_url = [], cf_enrollment_url = [], cf_enrollment_secret = [], cf_intended_label = [],
     cf_cert_path = [], cf_key_path = [], cf_ca_path = [], cf_machine_id = [], cf_venue_id = []\<rparr>"

definition config_json :: "config \<Rightarrow> json" where
  "config_json c = JObj
     (str_member ''server_url'' (cf_server_url c) @ opt_member ''enrollment_url'' (cf_enrollment_url c) @
      opt_member ''enrollment_secret'' (cf_enrollment_secret c) @ opt_member ''intended_label'' (cf_intended_label c) @
      opt_member ''cert_path'' (cf_cert_path c) @ opt_member ''key_path'' (cf_key_path c) @
      opt_member ''ca_path'' (cf_ca_path c) @ opt_member ''machine_id'' (cf_machine_id c) @
      opt_member ''venue_id'' (cf_venue_id c))"

text \<open>
  \<open>Config.UnmarshalJSON\<close> into a zero \<open>Config\<close>: the auxiliary struct has the legacy key beside the
  promoted fields; the legacy value is used when there is no new one.
\<close>

definition decode_config :: "json \<Rightarrow> config option" where
  "decode_config v =
     (case as_members v of
        None \<Rightarrow> None
      | Some ms \<Rightarrow>
          (case (get_str ''venue_api_key'' ms, get_str ''server_url'' ms, get_str ''enrollment_url'' ms,
                 get_str ''enrollment_secret'' ms, get_str ''intended_label'' ms, get_str ''cert_path'' ms,
                 get_str ''key_path'' ms, get_str ''ca_path'' ms, get_str ''machine_id'' ms, get_str ''venue_id'' ms) of
             (Some legacy, Some su, Some eu, Some es, Some il, Some cp, Some kp, Some ca, Some mi, Some vi) \<Rightarrow>
               Some \<lparr>cf_server_url = su, cf_enrollment_url = eu,
                     cf_enrollment_secret = (if es = [] \<and> legacy \<noteq> [] then legacy else es),
                     cf_intended_label = il, cf_cert_path = cp, cf_key_path = kp, cf_ca_path = ca,
                     cf_machine_id = mi, cf_venue_id = vi\<rparr>
           | _ \<Rightarrow> None))"

definition default_path :: "hostenv \<Rightarrow> bool \<Rightarrow> path" where
  "default_path env windows =
     (if windows
      then (let d = he_getenv env ''PROGRAMDATA''
            in path_join (path_join (if d = [] then ''C:'' @ CHR 0x5C # ''ProgramData'' else d) ''fleetmgr'') ''config.json'')
      else ''fleetmgr-config.json'')"

definition load :: "hostenv \<Rightarrow> path \<Rightarrow> 'a world_scheme \<Rightarrow> config res \<times> 'a world_scheme" where
  "load env p w =
     (case os_read_file env p w of
        (Inl e, w1) \<Rightarrow>
          (if errors_is e ErrNotExist then Inr zero_config
           else Inl (wrapf (''agent/config: read '' @ p @ '': '') e), w1)
      | (Inr b, w1) \<Rightarrow>
          (case Option.bind (json_parse b) decode_config of
             None \<Rightarrow> Inl (wrapf (''agent/config: parse '' @ p @ '': '') (Msg ''json: cannot unmarshal''))
           | Some c \<Rightarrow> Inr c, w1))"

text \<open>\<open>Save\<close>: the marshalled text, written to a sibling that then takes the file's place.\<close>

definition config_text :: "config \<Rightarrow> string" where
  "config_text c = json_indent 0 (config_json c)"

definition save_text :: "hostenv \<Rightarrow> path \<Rightarrow> string \<Rightarrow> 'a world_scheme \<Rightarrow> goerr option \<times> 'a world_scheme" where
  "save_text env p b w =
     (case os_write_file env (p @ ''.tmp'') b w of
        (Some e, w1) \<Rightarrow> (Some (wrapf ''agent/config: write tmp: '' e), w1)
      | (None, w1) \<Rightarrow>
          (case os_rename env (p @ ''.tmp'') p w1 of
             (Some e, w2) \<Rightarrow> (Some (wrapf ''agent/config: rename: '' e), w2)
           | (None, w2) \<Rightarrow> (None, w2)))"

definition save :: "hostenv \<Rightarrow> path \<Rightarrow> config \<Rightarrow> 'a world_scheme \<Rightarrow> goerr option \<times> 'a world_scheme" where
  "save env p c w = save_text env p (config_text c) w"

definition is_enrolled :: "config \<Rightarrow> bool" where
  "is_enrolled c \<longleftrightarrow> cf_machine_id c \<noteq> [] \<and> cf_cert_path c \<noteq> [] \<and> cf_key_path c \<noteq> []"

section \<open>Properties\<close>

lemma config_roundtrip: "decode_config (config_json c) = Some c"
  by (simp add: decode_config_def config_json_def struct_decode)

lemma config_json_wf: "json_wf (config_json c)"
  by (simp add: config_json_def)

lemma config_text_reads_back: "Option.bind (json_parse (config_text c)) decode_config = Some c"
  by (simp add: config_text_def json_parse_indent config_json_wf config_roundtrip)

text \<open>The legacy key fills the secret, unless the new key has one.\<close>

lemma legacy_key:
  "decode_config (JObj (str_member ''venue_api_key'' k @ opt_member ''enrollment_secret'' s)) =
     Some (zero_config\<lparr>cf_enrollment_secret := (if s = [] then k else s)\<rparr>)"
  by (simp add: decode_config_def zero_config_def struct_decode)

text \<open>The temporary sibling of a path is another path; writing it and renaming is all or nothing.\<close>

lemma write_rename_laws:
  assumes wr: "os_write_file env (p @ ''.tmp'') c w = (r1, w1)"
    and step: "case r1 of Some e \<Rightarrow> r = Some e \<and> w' = w1 | None \<Rightarrow> os_rename env (p @ ''.tmp'') p w1 = (r, w')"
  shows "(r = None \<longrightarrow> w_fs w' p = Some (File c)) \<and> (r \<noteq> None \<longrightarrow> w_fs w' p = w_fs w p) \<and>
    (\<forall>q. q \<noteq> p \<and> q \<noteq> p @ ''.tmp'' \<longrightarrow> w_fs w' q = w_fs w q)"
proof (cases r1)
  case (Some e)
  then show ?thesis using step os_write_file_frame[OF wr] by auto
next
  case None
  have w1: "w_fs w1 = (w_fs w)(p @ ''.tmp'' \<mapsto> File c)" using os_write_file_None wr None by blast
  have ren: "os_rename env (p @ ''.tmp'') p w1 = (r, w')" using step None by simp
  show ?thesis
  proof (cases r)
    case None
    then show ?thesis using os_rename_None[of env "p @ ''.tmp''" p w1 w'] ren w1 by auto
  next
    case (Some e)
    then have "w_fs w' = w_fs w1" using os_rename_Some ren by blast
    then show ?thesis using Some w1 by auto
  qed
qed

lemma save_text_laws:
  assumes "save_text env p c w = (r, w')"
  shows "(r = None \<longrightarrow> w_fs w' p = Some (File c)) \<and> (r \<noteq> None \<longrightarrow> w_fs w' p = w_fs w p) \<and>
    (\<forall>q. q \<noteq> p \<and> q \<noteq> p @ ''.tmp'' \<longrightarrow> w_fs w' q = w_fs w q)"
proof -
  obtain r1 w1 where wr: "os_write_file env (p @ ''.tmp'') c w = (r1, w1)" by force
  obtain r2 w2 where ren: "os_rename env (p @ ''.tmp'') p w1 = (r2, w2)" by force
  show ?thesis
    using assms wr ren write_rename_laws[OF wr, of "case r1 of Some e \<Rightarrow> Some e | None \<Rightarrow> r2" "case r1 of Some e \<Rightarrow> w1 | None \<Rightarrow> w2"]
    by (auto simp: save_text_def split: option.splits)
qed

interpretation config_writer: atomic_writer "save_text env" w_fs "\<lambda>p. p @ ''.tmp''" for env
  using save_text_laws by unfold_locales blast+

text \<open>
  C29. \<open>Save\<close> and \<open>Load\<close> are inverse on the disk: when \<open>Save\<close> returns nil the file reads back, by the
  agent's own scanner and decoder, as exactly the configuration saved, every field and byte of it;
  when it fails, at whatever call and after however many bytes, the file is what it was before.
\<close>

theorem save_load:
  assumes "save env p c w = (r, w')" and "he_fault env (w_tick w') = None"
  shows "(r = None \<longrightarrow> load env p w' = (Inr c, tick w')) \<and>
    (r \<noteq> None \<longrightarrow> w_fs w' p = w_fs w p) \<and>
    (\<forall>q. q \<noteq> p @ ''.tmp'' \<longrightarrow> w_fs w' q \<in> {w_fs w q, Some (File (config_text c))})"
proof -
  have sv: "save_text env p (config_text c) w = (r, w')" using assms(1) by (simp add: save_def)
  have "r = None \<Longrightarrow> load env p w' = (Inr c, tick w')"
    using config_writer.success[of env p "config_text c" w w'] sv assms(2)
    by (simp add: load_def os_read_file_def config_text_reads_back)
  moreover have "r \<noteq> None \<Longrightarrow> w_fs w' p = w_fs w p"
    using config_writer.failure[of env p "config_text c" w _ w'] sv by auto
  ultimately show ?thesis using config_writer.readers_never_see_part[OF sv] by blast
qed

definition bare_world :: world where
  "bare_world = \<lparr>w_fs = (\<lambda>p. None), w_tick = 0, w_log = []\<rparr>"

lemma save_quiet:
  "\<forall>n. he_fault h n = None \<Longrightarrow> w_fs w p \<noteq> Some Dir \<Longrightarrow> w_fs w (p @ ''.tmp'') \<noteq> Some Dir \<Longrightarrow>
     \<exists>w'. save h p c w = (None, w')"
  by (auto simp: save_def save_text_def host_calls split: option.splits node.splits)

theorem save_load_witness:
  "\<exists>w'. save quiet_env ''c'' (zero_config\<lparr>cf_server_url := ''wss://h''\<rparr>) bare_world = (None, w') \<and>
     load quiet_env ''c'' w' = (Inr (zero_config\<lparr>cf_server_url := ''wss://h''\<rparr>), tick w')"
proof -
  obtain w' where "save quiet_env ''c'' (zero_config\<lparr>cf_server_url := ''wss://h''\<rparr>) bare_world = (None, w')"
    using save_quiet[of quiet_env bare_world "''c''"] by (auto simp: bare_world_def)
  then show ?thesis using save_load[of quiet_env "''c''" _ bare_world None w'] by auto
qed

end
