(* ===== verification/Enroll.thy ===== *)
theory Enroll
  imports Config
begin

text \<open>
  Enrolment, \<open>internal/enroll\<close>: the request, the exchange with the server and the three files.
  Key generation, the certificate request and the PEM texts are \<open>crypto/*\<close>: arguments giving an
  error or the texts. \<open>http.Client.Do\<close> is the environment's answer to the URL and headers.
\<close>

section \<open>Messages\<close>

record snapshot =
  sn_hostname :: string
  sn_os_name :: string
  sn_os_version :: string
  sn_fingerprint :: string
  sn_hardware :: members
  sn_network :: members
  sn_software :: "json list"

definition snapshot_json :: "snapshot \<Rightarrow> json" where
  "snapshot_json s = JObj
     (str_member ''hostname'' (sn_hostname s) @ str_member ''os_name'' (sn_os_name s) @
      str_member ''os_version'' (sn_os_version s) @ opt_member ''hardware_fingerprint'' (sn_fingerprint s) @
      (if sn_hardware s = [] then [] else [(''hardware'', JObj (sn_hardware s))]) @
      (if sn_network s = [] then [] else [(''network'', JObj (sn_network s))]) @
      (if sn_software s = [] then [] else [(''installed_software'', JArr (sn_software s))]))"

record enroll_request =
  rq_csr_pem :: string
  rq_agent_version :: string
  rq_inventory :: snapshot

definition request_json :: "enroll_request \<Rightarrow> json" where
  "request_json r = JObj (str_member ''csr_pem'' (rq_csr_pem r) @
     str_member ''agent_version'' (rq_agent_version r) @ [(''inventory'', snapshot_json (rq_inventory r))])"

record enroll_response =
  rs_machine_id :: string
  rs_venue_id :: string
  rs_cert_pem :: string
  rs_ca_pem :: string
  rs_listen_url :: string

definition decode_response :: "json \<Rightarrow> enroll_response option" where
  "decode_response v =
     (case as_members v of
        None \<Rightarrow> None
      | Some ms \<Rightarrow>
          (case (get_str ''machine_id'' ms, get_str ''venue_id'' ms, get_str ''cert_pem'' ms,
                 get_str ''ca_pem'' ms, get_str ''agent_listen_url'' ms) of
             (Some m, Some ve, Some ce, Some ca, Some l) \<Rightarrow>
               Some \<lparr>rs_machine_id = m, rs_venue_id = ve, rs_cert_pem = ce, rs_ca_pem = ca, rs_listen_url = l\<rparr>
           | _ \<Rightarrow> None))"

record enroll_result =
  er_machine_id :: string
  er_venue_id :: string
  er_listen_url :: string
  er_cert_path :: path
  er_key_path :: path
  er_ca_path :: path

record enroll_options =
  eo_url :: string
  eo_secret :: string
  eo_version :: string
  eo_inventory :: snapshot
  eo_dir :: path
  eo_insecure :: bool

section \<open>The exchange\<close>

text \<open>
  What is sent: the URL, the headers and the body, and whether the server's certificate is verified
  by the client the function builds. \<open>ee_post\<close> is the answer, \<open>Inl\<close> for no response.
\<close>

record http_post =
  po_url :: string
  po_headers :: "(string \<times> string) list"
  po_body :: string
  po_skip_verify :: bool

record enrollenv =
  ee_host :: hostenv
  ee_key :: "string res"
  ee_csr :: "string res"
  ee_new_request :: "string \<Rightarrow> goerr option"
  ee_post :: "http_post \<Rightarrow> http_response res"
  ee_windows :: bool

definition write_restricted :: "hostenv \<Rightarrow> bool \<Rightarrow> path \<Rightarrow> string \<Rightarrow> 'a world_scheme \<Rightarrow> goerr option \<times> 'a world_scheme" where
  "write_restricted env windows p b w =
     (case os_write_file env (p @ ''.tmp'') b w of
        (Some e, w1) \<Rightarrow> (Some e, w1)
      | (None, w1) \<Rightarrow> os_rename env (p @ ''.tmp'') p (if windows then w1 else tick w1))"

definition summarise_body :: "string \<Rightarrow> string" where
  "summarise_body b = (if 256 < length b then take 256 b @ ellipsis else b)"

definition max_response :: nat where "max_response = 1048576"

definition enroll_post :: "enroll_options \<Rightarrow> string \<Rightarrow> http_post" where
  "enroll_post opts csr =
     \<lparr>po_url = eo_url opts,
      po_headers = [(''Authorization'', ''Bearer '' @ eo_secret opts), (''Content-Type'', ''application/json'')],
      po_body = json_print (request_json \<lparr>rq_csr_pem = csr, rq_agent_version = eo_version opts, rq_inventory = eo_inventory opts\<rparr>),
      po_skip_verify = eo_insecure opts\<rparr>"

definition read_response :: "http_response \<Rightarrow> enroll_response res" where
  "read_response h =
     (let body = take max_response (http_body h)
      in if http_status h div 100 \<noteq> 2
         then Inl (Wrap [] (Sentinel ErrServer) ('': status '' @ show_int (http_status h) @ '': '' @ summarise_body body))
         else (case Option.bind (json_parse body) decode_response of
             None \<Rightarrow> Inl (wrapf ''agent/enroll: parse response: '' (Msg ''json: cannot unmarshal''))
           | Some r \<Rightarrow>
               if rs_cert_pem r = [] \<or> rs_ca_pem r = [] \<or> rs_machine_id r = []
               then Inl (Msg ''agent/enroll: server response missing required fields'')
               else Inr r))"

definition material :: "path \<Rightarrow> enroll_response \<Rightarrow> string \<Rightarrow> (path \<times> string) list" where
  "material dir r key_pem =
     [(path_join dir ''client.crt'', rs_cert_pem r), (path_join dir ''client.key'', key_pem),
      (path_join dir ''ca.crt'', rs_ca_pem r)]"

definition persist ::
  "enrollenv \<Rightarrow> enroll_options \<Rightarrow> enroll_response \<Rightarrow> string \<Rightarrow> 'a world_scheme \<Rightarrow> enroll_result res \<times> 'a world_scheme" where
  "persist env opts r key_pem w =
     (case os_mkdir_all (ee_host env) (eo_dir opts) w of
        (Some e, w1) \<Rightarrow> (Inl (wrapf ''agent/enroll: mkdir material dir: '' e), w1)
      | (None, w1) \<Rightarrow>
          (let cert = path_join (eo_dir opts) ''client.crt''; key = path_join (eo_dir opts) ''client.key'';
               ca = path_join (eo_dir opts) ''ca.crt''; wr = write_restricted (ee_host env) (ee_windows env)
           in (case wr cert (rs_cert_pem r) w1 of
                 (Some e, w2) \<Rightarrow> (Inl (wrapf ''agent/enroll: write cert: '' e), w2)
               | (None, w2) \<Rightarrow>
                   (case wr key key_pem w2 of
                      (Some e, w3) \<Rightarrow> (Inl (wrapf ''agent/enroll: write key: '' e), w3)
                    | (None, w3) \<Rightarrow>
                        (case wr ca (rs_ca_pem r) w3 of
                           (Some e, w4) \<Rightarrow> (Inl (wrapf ''agent/enroll: write ca: '' e), w4)
                         | (None, w4) \<Rightarrow>
                             (Inr \<lparr>er_machine_id = rs_machine_id r, er_venue_id = rs_venue_id r,
                                   er_listen_url = rs_listen_url r, er_cert_path = cert, er_key_path = key,
                                   er_ca_path = ca\<rparr>, w4))))))"

definition enroll :: "enrollenv \<Rightarrow> enroll_options \<Rightarrow> 'a world_scheme \<Rightarrow> enroll_result res \<times> 'a world_scheme" where
  "enroll env opts w =
     (if eo_secret opts = [] then (Inl (Sentinel ErrNoBearerSecret), w)
      else if eo_url opts = [] then (Inl (Msg ''agent/enroll: enrollment_url is required''), w)
      else if eo_dir opts = [] then (Inl (Msg ''agent/enroll: material_dir is required''), w)
      else (case ee_key env of
          Inl e \<Rightarrow> (Inl (wrapf ''agent/enroll: keygen: '' e), w)
        | Inr key_pem \<Rightarrow>
            (case ee_csr env of
               Inl e \<Rightarrow> (Inl (wrapf ''agent/enroll: create CSR: '' e), w)
             | Inr csr \<Rightarrow>
                 (case ee_new_request env (eo_url opts) of
                    Some e \<Rightarrow> (Inl (wrapf ''agent/enroll: build request: '' e), w)
                  | None \<Rightarrow>
                      (case ee_post env (enroll_post opts csr) of
                         Inl e \<Rightarrow> (Inl (wrapf ''agent/enroll: post: '' e), w)
                       | Inr h \<Rightarrow>
                           (case read_response h of
                              Inl e \<Rightarrow> (Inl e, w)
                            | Inr r \<Rightarrow> persist env opts r key_pem w))))))"

section \<open>Properties\<close>

lemma write_restricted_laws:
  assumes "write_restricted env windows p c w = (r, w')"
  shows "(r = None \<longrightarrow> w_fs w' p = Some (File c)) \<and> (r \<noteq> None \<longrightarrow> w_fs w' p = w_fs w p) \<and>
    (\<forall>q. q \<noteq> p \<and> q \<noteq> p @ ''.tmp'' \<longrightarrow> w_fs w' q = w_fs w q)"
proof -
  obtain r1 w1 where wr: "os_write_file env (p @ ''.tmp'') c w = (r1, w1)" by force
  show ?thesis
  proof (cases r1)
    case (Some e)
    then show ?thesis using assms wr os_write_file_frame[OF wr] by (auto simp: write_restricted_def)
  next
    case None
    let ?w2 = "if windows then w1 else tick w1"
    have fs: "w_fs ?w2 = (w_fs w)(p @ ''.tmp'' \<mapsto> File c)" using os_write_file_None[of env _ c w w1] wr None by simp
    have ren: "os_rename env (p @ ''.tmp'') p ?w2 = (r, w')" using assms wr None by (simp add: write_restricted_def)
    show ?thesis
    proof (cases r)
      case None
      then show ?thesis using os_rename_None[of env "p @ ''.tmp''" p ?w2 w'] ren fs by auto
    next
      case (Some e)
      then have "w_fs w' = w_fs ?w2" using os_rename_Some ren by blast
      then show ?thesis using Some fs by auto
    qed
  qed
qed

interpretation restricted_writer: atomic_writer "write_restricted env windows" w_fs "\<lambda>p. p @ ''.tmp''" for env windows
  using write_restricted_laws by unfold_locales blast+

text \<open>\<open>persist\<close> is the directory and then the three writes in turn.\<close>

lemma persist_cases:
  assumes "persist env opts r key_pem w = (res, w')"
  obtains (no_dir) e where "res = Inl e" "\<exists>e'. os_mkdir_all (ee_host env) (eo_dir opts) w = (Some e', w')"
  | (written) w1 x where "os_mkdir_all (ee_host env) (eo_dir opts) w = (None, w1)"
      "restricted_writer.write_all (ee_host env) (ee_windows env) (material (eo_dir opts) r key_pem) w1 = (x, w')"
      "case x of None \<Rightarrow> res = Inr \<lparr>er_machine_id = rs_machine_id r, er_venue_id = rs_venue_id r,
           er_listen_url = rs_listen_url r, er_cert_path = path_join (eo_dir opts) ''client.crt'',
           er_key_path = path_join (eo_dir opts) ''client.key'', er_ca_path = path_join (eo_dir opts) ''ca.crt''\<rparr>
         | Some e \<Rightarrow> \<exists>e'. res = Inl e'"
proof (cases "fst (os_mkdir_all (ee_host env) (eo_dir opts) w)")
  case (Some e)
  then show ?thesis using no_dir assms by (auto simp: persist_def split: prod.splits)
next
  case None
  obtain w1 where mk: "os_mkdir_all (ee_host env) (eo_dir opts) w = (None, w1)" using None by (metis prod.collapse)
  obtain x w2 where wa: "restricted_writer.write_all (ee_host env) (ee_windows env) (material (eo_dir opts) r key_pem) w1 = (x, w2)"
    by force
  have "w' = w2 \<and> (case x of None \<Rightarrow> res = Inr \<lparr>er_machine_id = rs_machine_id r, er_venue_id = rs_venue_id r,
           er_listen_url = rs_listen_url r, er_cert_path = path_join (eo_dir opts) ''client.crt'',
           er_key_path = path_join (eo_dir opts) ''client.key'', er_ca_path = path_join (eo_dir opts) ''ca.crt''\<rparr>
         | Some e \<Rightarrow> \<exists>e'. res = Inl e')"
    using assms wa by (auto simp: persist_def mk material_def Let_def split: option.splits prod.splits)
  then show ?thesis using written[OF mk] wa by blast
qed

definition material_dir_ok :: "path \<Rightarrow> bool" where
  "material_dir_ok d \<longleftrightarrow> (\<exists>v ds. canonical v ds d \<and> ds \<noteq> [] \<and> last d \<noteq> CHR '':'')"

lemma material_paths:
  assumes "material_dir_ok d"
  shows "path_join d ''client.crt'' = d @ CHR 0x5C # ''client.crt''"
    "path_join d ''client.key'' = d @ CHR 0x5C # ''client.key''"
    "path_join d ''ca.crt'' = d @ CHR 0x5C # ''ca.crt''"
proof -
  obtain v ds where d: "canonical v ds d" "ds \<noteq> []" "last d \<noteq> CHR '':''" using assms by (auto simp: material_dir_ok_def)
  show "path_join d ''client.crt'' = d @ CHR 0x5C # ''client.crt''"
    "path_join d ''client.key'' = d @ CHR 0x5C # ''client.key''"
    "path_join d ''ca.crt'' = d @ CHR 0x5C # ''ca.crt''"
    by (rule join_plain(1)[OF d]; simp add: plain_elem_def dot_def dotdot_def is_sep_def)+
qed

lemma material_distinct:
  assumes "material_dir_ok d"
  shows "distinct (map fst (material d r k))"
    and "\<forall>pc \<in> set (material d r k). \<forall>qc \<in> set (material d r k). fst pc \<noteq> fst qc @ ''.tmp''"
  using material_paths[OF assms] by (simp_all add: material_def)

lemma enroll_cases:
  assumes "enroll env opts w = (res, w')"
  obtains (refused) e where "res = Inl e" "w' = w"
  | (accepted) csr key_pem h r where "eo_secret opts \<noteq> []" "ee_key env = Inr key_pem" "ee_csr env = Inr csr"
      "ee_post env (enroll_post opts csr) = Inr h" "read_response h = Inr r" "persist env opts r key_pem w = (res, w')"
  using assms by (auto simp: enroll_def split: if_splits sum.splits option.splits)

lemma read_response_Inr:
  "read_response h = Inr r \<Longrightarrow> http_status h div 100 = 2 \<and>
     Option.bind (json_parse (take max_response (http_body h))) decode_response = Some r \<and>
     rs_cert_pem r \<noteq> [] \<and> rs_ca_pem r \<noteq> [] \<and> rs_machine_id r \<noteq> []"
  by (auto simp: read_response_def Let_def split: if_splits option.splits)

definition complete_response :: "enrollenv \<Rightarrow> enroll_options \<Rightarrow> enroll_response \<Rightarrow> bool" where
  "complete_response env opts r \<longleftrightarrow>
     (\<exists>csr h. ee_csr env = Inr csr \<and> ee_post env (enroll_post opts csr) = Inr h \<and> http_status h div 100 = 2 \<and>
        Option.bind (json_parse (take max_response (http_body h))) decode_response = Some r \<and>
        rs_cert_pem r \<noteq> [] \<and> rs_ca_pem r \<noteq> [] \<and> rs_machine_id r \<noteq> [])"

definition material_path :: "path \<Rightarrow> path \<Rightarrow> bool" where
  "material_path d q \<longleftrightarrow> q = d \<or>
     (\<exists>n \<in> {''client.crt'', ''client.key'', ''ca.crt''}. q = path_join d n \<or> q = path_join d n @ ''.tmp'')"

lemma persist_effect:
  assumes ok: "material_dir_ok (eo_dir opts)" and run: "persist env opts r k w = (res, w')"
  shows "(\<forall>x. res = Inr x \<longrightarrow> er_machine_id x = rs_machine_id r \<and> er_venue_id x = rs_venue_id r \<and>
       er_listen_url x = rs_listen_url r \<and> w_fs w' (er_cert_path x) = Some (File (rs_cert_pem r)) \<and>
       w_fs w' (er_key_path x) = Some (File k) \<and> w_fs w' (er_ca_path x) = Some (File (rs_ca_pem r)) \<and>
       er_cert_path x \<noteq> [] \<and> er_key_path x \<noteq> [] \<and> er_ca_path x \<noteq> []) \<and>
    (\<forall>q. \<not> material_path (eo_dir opts) q \<longrightarrow> w_fs w' q = w_fs w q)"
  using run
proof (cases rule: persist_cases)
  case (no_dir e)
  then show ?thesis using os_mkdir_all_frame by (fastforce simp: material_path_def)
next
  case (written w1 x)
  have "\<forall>q. \<not> material_path (eo_dir opts) q \<longrightarrow> w_fs w' q = w_fs w1 q"
    using restricted_writer.write_all_others[OF written(2)]
    by (auto simp: material_path_def material_def)
  then have frame: "\<forall>q. \<not> material_path (eo_dir opts) q \<longrightarrow> w_fs w' q = w_fs w q"
    using os_mkdir_all_frame[OF written(1)] by (auto simp: material_path_def)
  show ?thesis
  proof (cases x)
    case None
    have "\<forall>pc \<in> set (material (eo_dir opts) r k). w_fs w' (fst pc) = Some (File (snd pc))"
      using restricted_writer.write_all_success[OF _ material_distinct(1,2)[OF ok]] written(2) None by blast
    then show ?thesis using frame written(3) None material_paths[OF ok] by (auto simp: material_def)
  next
    case (Some e)
    then show ?thesis using frame written(3) by auto
  qed
qed

lemma enroll_effect:
  assumes ok: "material_dir_ok (eo_dir opts)" and run: "enroll env opts w = (res, w')"
  shows "(\<forall>x. res = Inr x \<longrightarrow> (\<exists>r key_pem. complete_response env opts r \<and> ee_key env = Inr key_pem \<and>
       er_machine_id x = rs_machine_id r \<and> er_venue_id x = rs_venue_id r \<and> er_listen_url x = rs_listen_url r \<and>
       w_fs w' (er_cert_path x) = Some (File (rs_cert_pem r)) \<and> w_fs w' (er_key_path x) = Some (File key_pem) \<and>
       w_fs w' (er_ca_path x) = Some (File (rs_ca_pem r)) \<and>
       er_cert_path x \<noteq> [] \<and> er_key_path x \<noteq> [] \<and> er_ca_path x \<noteq> [])) \<and>
    (w' = w \<or> (\<exists>r. complete_response env opts r)) \<and>
    (\<forall>q. \<not> material_path (eo_dir opts) q \<longrightarrow> w_fs w' q = w_fs w q)"
  using run
proof (cases rule: enroll_cases)
  case refused
  then show ?thesis by simp
next
  case (accepted csr key_pem h r)
  have "complete_response env opts r"
    using accepted(3,4) read_response_Inr[OF accepted(5)] by (auto simp: complete_response_def)
  then show ?thesis using persist_effect[OF ok accepted(6)] accepted(2) by blast
qed

text \<open>
  C23. Enrolment persists exactly what the server issued, and only then: when \<open>Enroll\<close> succeeds the
  server answered 2xx with a certificate, a CA and a machine ID, and the three files at the paths
  returned hold the certificate, the generated key and the CA, byte for byte; with any other answer
  the disk is untouched; and nothing beyond the directory, the three files and their temporary
  siblings is ever written.
\<close>

theorem enroll_material:
  assumes "material_dir_ok (eo_dir opts)" and "enroll env opts w = (res, w')"
  shows "(\<forall>x. res = Inr x \<longrightarrow> (\<exists>r key_pem. complete_response env opts r \<and> ee_key env = Inr key_pem \<and>
       er_machine_id x = rs_machine_id r \<and>
       w_fs w' (er_cert_path x) = Some (File (rs_cert_pem r)) \<and> w_fs w' (er_key_path x) = Some (File key_pem) \<and>
       w_fs w' (er_ca_path x) = Some (File (rs_ca_pem r)))) \<and>
    (w' = w \<or> (\<exists>r. complete_response env opts r)) \<and>
    (\<forall>q. \<not> material_path (eo_dir opts) q \<longrightarrow> w_fs w' q = w_fs w q)"
  using enroll_effect[OF assms] by blast

definition sample_dir :: path where
  "sample_dir = ''C:'' @ CHR 0x5C # ''a''"

lemma sample_dir_ok: "material_dir_ok sample_dir"
  unfolding material_dir_ok_def
  by (rule exI[of _ "''C:''"], rule exI[of _ "[''a'']"])
     (simp add: canonical_def sample_dir_def plain_elem_def dot_def dotdot_def is_sep_def volume_len_def is_upper_def)

definition sample_response :: json where
  "sample_response = JObj (str_member ''machine_id'' ''m'' @ str_member ''venue_id'' ''v'' @
     str_member ''cert_pem'' ''CERT'' @ str_member ''ca_pem'' ''CA'' @ str_member ''agent_listen_url'' [])"

definition sample_enrollenv :: enrollenv where
  "sample_enrollenv = \<lparr>ee_host = quiet_env, ee_key = Inr ''KEY'', ee_csr = Inr ''CSR'', ee_new_request = (\<lambda>u. None),
     ee_post = (\<lambda>r. Inr \<lparr>http_status = 200, http_body = json_print sample_response, http_body_error = None\<rparr>),
     ee_windows = True\<rparr>"

definition sample_options :: enroll_options where
  "sample_options = \<lparr>eo_url = ''https://h/e'', eo_secret = ''rft'', eo_version = ''1'',
     eo_inventory = \<lparr>sn_hostname = [], sn_os_name = ''windows'', sn_os_version = ''11'', sn_fingerprint = [],
       sn_hardware = [], sn_network = [], sn_software = []\<rparr>, eo_dir = sample_dir, eo_insecure = False\<rparr>"

lemma sample_response_read:
  "read_response \<lparr>http_status = 200, http_body = json_print sample_response, http_body_error = None\<rparr> =
     Inr \<lparr>rs_machine_id = ''m'', rs_venue_id = ''v'', rs_cert_pem = ''CERT'', rs_ca_pem = ''CA'', rs_listen_url = []\<rparr>"
proof -
  have "json_wf sample_response" by (simp add: sample_response_def)
  moreover have "length (json_print sample_response) \<le> 200" by code_simp
  then have "length (json_print sample_response) \<le> max_response" by (simp add: max_response_def)
  ultimately have "json_parse (take max_response (json_print sample_response)) = Some sample_response"
    by (simp add: json_parse_print)
  then show ?thesis
    by (simp add: read_response_def Let_def decode_response_def sample_response_def struct_decode)
qed

lemma write_restricted_quiet:
  "\<forall>n. he_fault env n = None \<Longrightarrow> w_fs w p \<noteq> Some Dir \<Longrightarrow> w_fs w (p @ ''.tmp'') \<noteq> Some Dir \<Longrightarrow>
     \<exists>w'. write_restricted env True p c w = (None, w') \<and> w_fs w' = (w_fs w)(p @ ''.tmp'' := None, p \<mapsto> File c)"
  by (auto simp: write_restricted_def host_calls split: option.splits node.splits)

text \<open>Without faults and with nothing in the way, the server's answer is persisted.\<close>

lemma persist_quiet:
  assumes quiet: "\<forall>n. he_fault h n = None" and ok: "material_dir_ok d"
    and free: "\<forall>q. material_path d q \<longrightarrow> w_fs w q = None"
    and opts: "eo_dir opts = d" and env: "ee_host env = h" "ee_windows env"
  shows "\<exists>x w'. persist env opts r k w = (Inr x, w')"
proof -
  let ?w1 = "(tick w)\<lparr>w_fs := (w_fs w)(d \<mapsto> Dir)\<rparr>"
  let ?crt = "path_join d ''client.crt''" and ?key = "path_join d ''client.key''"
    and ?ca = "path_join d ''ca.crt''"
  have none: "w_fs w d = None" "w_fs w ?crt = None" "w_fs w (?crt @ ''.tmp'') = None" "w_fs w ?key = None"
      "w_fs w (?key @ ''.tmp'') = None" "w_fs w ?ca = None" "w_fs w (?ca @ ''.tmp'') = None"
    using free by (simp_all add: material_path_def)
  have mk: "os_mkdir_all h d w = (None, ?w1)" using quiet none(1) by (simp add: os_mkdir_all_def)
  note ps = material_paths[OF ok]
  have ne: "?crt \<noteq> d" "?crt @ ''.tmp'' \<noteq> d" "?key \<noteq> d" "?key @ ''.tmp'' \<noteq> d"
      "?ca \<noteq> d" "?ca @ ''.tmp'' \<noteq> d"
    by (simp_all add: ps)
  obtain w2 where w2: "write_restricted h True ?crt (rs_cert_pem r) ?w1 = (None, w2)"
      "w_fs w2 = (w_fs ?w1)(?crt @ ''.tmp'' := None, ?crt \<mapsto> File (rs_cert_pem r))"
    using write_restricted_quiet[OF quiet, of ?w1 ?crt "rs_cert_pem r"] none ne by auto
  obtain w3 where w3: "write_restricted h True ?key k w2 = (None, w3)"
      "w_fs w3 = (w_fs w2)(?key @ ''.tmp'' := None, ?key \<mapsto> File k)"
    using write_restricted_quiet[OF quiet, of w2 ?key k] none ne w2(2) by (auto simp: ps)
  obtain w4 where w4: "write_restricted h True ?ca (rs_ca_pem r) w3 = (None, w4)"
    using write_restricted_quiet[OF quiet, of w3 ?ca "rs_ca_pem r"] none ne w2(2) w3(2) by (auto simp: ps)
  show ?thesis using mk w2(1) w3(1) w4 opts env by (simp add: persist_def Let_def)
qed

lemma enroll_quiet:
  assumes "\<forall>n. he_fault h n = None" "material_dir_ok d" "\<forall>q. material_path d q \<longrightarrow> w_fs w q = None"
    and "eo_dir opts = d" "eo_secret opts \<noteq> []" "eo_url opts \<noteq> []"
  shows "\<exists>x w'. enroll (sample_enrollenv\<lparr>ee_host := h\<rparr>) opts w = (Inr x, w')"
proof -
  have "d \<noteq> []" using assms(2) by (auto simp: material_dir_ok_def canonical_def)
  moreover have "\<exists>x w'. persist (sample_enrollenv\<lparr>ee_host := h\<rparr>) opts
      \<lparr>rs_machine_id = ''m'', rs_venue_id = ''v'', rs_cert_pem = ''CERT'', rs_ca_pem = ''CA'', rs_listen_url = []\<rparr> ''KEY'' w = (Inr x, w')"
    by (rule persist_quiet[OF assms(1-4)]) (simp_all add: sample_enrollenv_def)
  ultimately show ?thesis
    using assms(4-6) by (simp add: enroll_def sample_enrollenv_def sample_response_read)
qed

theorem enroll_material_witness:
  "\<exists>x w'. enroll sample_enrollenv sample_options bare_world = (Inr x, w') \<and> w_fs w' (er_key_path x) = Some (File ''KEY'')"
proof -
  have "sample_enrollenv\<lparr>ee_host := quiet_env\<rparr> = sample_enrollenv" by (simp add: sample_enrollenv_def)
  then obtain x w' where run: "enroll sample_enrollenv sample_options bare_world = (Inr x, w')"
    using enroll_quiet[of quiet_env sample_dir bare_world sample_options] sample_dir_ok
    by (auto simp: bare_world_def sample_options_def)
  have "material_dir_ok (eo_dir sample_options)" using sample_dir_ok by (simp add: sample_options_def)
  with run enroll_material[OF this run] show ?thesis by (auto simp: sample_enrollenv_def)
qed

end
