(* ===== verification/Payload.thy ===== *)
theory Payload
  imports GoJson Host
begin

text \<open>
  The installer's payload, \<open>internal/lightinstall/payload.go\<close>: one JSON object with the one field
  \<open>enrollment_token\<close>, read token by token with \<open>json.Decoder\<close>.
\<close>

section \<open>The strict decoder\<close>

definition max_payload_bytes :: nat where "max_payload_bytes = 16 * 1024"

definition invalid_payload :: "string \<Rightarrow> goerr" where
  "invalid_payload reason = Msg (''lightinstall: invalid enrollment payload: '' @ reason)"

definition token_byte :: "char \<Rightarrow> bool" where
  "token_byte c \<longleftrightarrow> is_digit c \<or> is_upper c \<or> (97 \<le> ord c \<and> ord c \<le> 122) \<or> c = CHR ''_'' \<or> c = CHR ''-''"

text \<open>The pattern \<open>^rft_[A-Za-z0-9_-]{43}$\<close>.\<close>

definition light_token :: "string \<Rightarrow> bool" where
  "light_token s \<longleftrightarrow> length s = 47 \<and> has_prefix s ''rft_'' \<and> list_all token_byte (drop 4 s)"

record payload = pl_token :: string

text \<open>
  The decoder after the opening brace. \<open>Token\<close> skips blanks, insists on a comma between members and
  a colon after a key; \<open>Decode\<close> into a string takes a string, keeps the field on \<open>null\<close> and fails on
  anything else. A second key, whatever its name, is an error, so the loop of \<open>ParsePayload\<close>
  completes at most one turn: \<open>payload_field\<close> is that turn, \<open>payload_next\<close> what follows it and
  \<open>payload_end\<close> what follows the closing brace.
\<close>

definition payload_end :: "bool \<Rightarrow> string \<Rightarrow> string \<Rightarrow> payload res" where
  "payload_end seen tok s =
     (if skip_ws s \<noteq> [] then Inl (invalid_payload ''trailing data'')
      else if \<not> seen \<or> \<not> light_token tok
      then Inl (invalid_payload ''single-use enrollment token required'')
      else Inr \<lparr>pl_token = tok\<rparr>)"

definition payload_next :: "string \<Rightarrow> string \<Rightarrow> payload res" where
  "payload_next tok s =
     (case skip_ws s of
        [] \<Rightarrow> Inl (invalid_payload ''invalid JSON'')
      | c # t \<Rightarrow>
          if c = CHR ''}'' then payload_end True tok t
          else if c = CHR '','' then
            (case skip_ws t of
               [] \<Rightarrow> Inl (invalid_payload ''invalid JSON'')
             | d # u \<Rightarrow>
                 if d = quote_byte \<and> json_str u \<noteq> None
                 then Inl (invalid_payload ''unexpected or duplicate field'')
                 else Inl (invalid_payload ''invalid JSON''))
          else Inl (invalid_payload ''invalid JSON''))"

definition payload_field :: "string \<Rightarrow> payload res" where
  "payload_field s =
     (case json_str s of
        None \<Rightarrow> Inl (invalid_payload ''invalid JSON'')
      | Some (key, r) \<Rightarrow>
          if key \<noteq> ''enrollment_token'' then Inl (invalid_payload ''unexpected or duplicate field'')
          else (case skip_ws r of
              [] \<Rightarrow> Inl (invalid_payload ''field must be a string'')
            | d # u \<Rightarrow>
                if d \<noteq> CHR '':'' then Inl (invalid_payload ''field must be a string'')
                else (case jval (Suc (length u)) u of
                    Some (JStr v, q) \<Rightarrow> payload_next v q
                  | Some (JNull, q) \<Rightarrow> payload_next [] q
                  | _ \<Rightarrow> Inl (invalid_payload ''field must be a string''))))"

definition parse_payload :: "string \<Rightarrow> payload res" where
  "parse_payload body =
     (if max_payload_bytes < length body then Inl (invalid_payload ''too large'')
      else (case skip_ws body of
          [] \<Rightarrow> Inl (invalid_payload ''invalid JSON'')
        | c # t \<Rightarrow>
            if c \<noteq> CHR ''{'' then Inl (invalid_payload ''invalid JSON'')
            else (case skip_ws t of
                [] \<Rightarrow> Inl (invalid_payload ''invalid JSON'')
              | d # u \<Rightarrow>
                  if d = CHR ''}'' then payload_end False [] u
                  else if d = quote_byte then payload_field u
                  else Inl (invalid_payload ''invalid JSON''))))"

definition load_payload :: "hostenv \<Rightarrow> path \<Rightarrow> 'a world_scheme \<Rightarrow> payload res \<times> 'a world_scheme" where
  "load_payload env p w =
     (case os_stat env p w of
        (Some e, w1) \<Rightarrow> (Inl (invalid_payload ''open''), w1)
      | (None, w1) \<Rightarrow>
          (case os_read_file env p w1 of
             (Inl e, w2) \<Rightarrow> (Inl (invalid_payload ''read''), w2)
           | (Inr body, w2) \<Rightarrow> (parse_payload (take (Suc max_payload_bytes) body), w2)))"

definition remove_payload :: "hostenv \<Rightarrow> path \<Rightarrow> 'a world_scheme \<Rightarrow> goerr option \<times> 'a world_scheme" where
  "remove_payload env p w =
     (case os_remove env p w of
        (Some e, w1) \<Rightarrow> (if errors_is e ErrNotExist then None else Some (wrapf ''lightinstall: remove payload: '' e), w1)
      | (None, w1) \<Rightarrow> (None, w1))"

section \<open>What it accepts\<close>

lemma jval_str_iff:
  "jval (Suc n) u = Some (JStr v, q) \<longleftrightarrow> (\<exists>t. skip_ws u = quote_byte # t \<and> json_str t = Some (v, q))"
  by (auto simp: literal_def split: list.splits if_splits option.splits prod.splits)

lemma payload_end_Inr: "payload_end seen tok s = Inr p \<longleftrightarrow> skip_ws s = [] \<and> seen \<and> light_token tok \<and> p = \<lparr>pl_token = tok\<rparr>"
  by (auto simp: payload_end_def)

lemma payload_next_Inr:
  "payload_next tok s = Inr p \<longleftrightarrow>
     (\<exists>t. skip_ws s = CHR ''}'' # t \<and> skip_ws t = [] \<and> light_token tok \<and> p = \<lparr>pl_token = tok\<rparr>)"
  by (auto simp: payload_next_def payload_end_Inr split: list.splits if_splits)

lemma not_token_empty: "\<not> light_token []"
  by (simp add: light_token_def)

lemma payload_field_Inr:
  "payload_field s = Inr p \<longleftrightarrow>
     (\<exists>r u t q x. json_str s = Some (''enrollment_token'', r) \<and> skip_ws r = CHR '':'' # u \<and>
        skip_ws u = quote_byte # t \<and> json_str t = Some (pl_token p, q) \<and> skip_ws q = CHR ''}'' # x \<and>
        skip_ws x = [] \<and> light_token (pl_token p))"
  (is "?l \<longleftrightarrow> ?r")
proof
  assume ?l
  then obtain r u where r: "json_str s = Some (''enrollment_token'', r)" "skip_ws r = CHR '':'' # u"
    and val: "(case jval (Suc (length u)) u of Some (JStr v, q) \<Rightarrow> payload_next v q
                  | Some (JNull, q) \<Rightarrow> payload_next [] q
                  | _ \<Rightarrow> Inl (invalid_payload ''field must be a string'')) = Inr p"
    by (auto simp: payload_field_def split: option.splits if_splits list.splits)
  then obtain v q where "jval (Suc (length u)) u = Some (JStr v, q)" "payload_next v q = Inr p"
    by (auto simp: payload_next_Inr not_token_empty split: option.splits json.splits prod.splits simp del: jval.simps)
  with r show ?r by (auto simp: jval_str_iff payload_next_Inr simp del: jval.simps)
next
  assume ?r
  then obtain r u t q x where a: "json_str s = Some (''enrollment_token'', r)" "skip_ws r = CHR '':'' # u"
    "skip_ws u = quote_byte # t" "json_str t = Some (pl_token p, q)" "skip_ws q = CHR ''}'' # x"
    "skip_ws x = []" "light_token (pl_token p)" by blast
  then have "jval (Suc (length u)) u = Some (JStr (pl_token p), q)" by (simp add: jval_str_iff del: jval.simps)
  with a show ?l by (simp add: payload_field_def payload_next_Inr del: jval.simps)
qed

text \<open>A one-member object, as the general scanner reads it.\<close>

lemma skip_ws_length: "skip_ws s = c # t \<Longrightarrow> Suc (length t) \<le> length s"
  using length_dropWhile_le[of is_ws s] by (simp add: skip_ws_def)

lemma json_parse_one_member:
  "json_parse body = Some (JObj [(k, JStr v)]) \<longleftrightarrow>
     (\<exists>t u r w s q x. skip_ws body = CHR ''{'' # t \<and> skip_ws t = quote_byte # u \<and> json_str u = Some (k, r) \<and>
        skip_ws r = CHR '':'' # w \<and> skip_ws w = quote_byte # s \<and> json_str s = Some (v, q) \<and>
        skip_ws q = CHR ''}'' # x \<and> skip_ws x = [])" (is "?l \<longleftrightarrow> ?r")
proof
  assume ?l
  then obtain r where j: "jval (Suc (length body)) body = Some (JObj [(k, JStr v)], r)" "skip_ws r = []"
    by (auto simp: json_parse_def split: option.splits prod.splits if_splits simp del: jval.simps)
  from j(1) obtain t d u where t: "skip_ws body = CHR ''{'' # t" "skip_ws t = d # u"
    and m: "jmembers (length body) (d # u) = Some ([(k, JStr v)], r)"
    by (auto simp: literal_def split: list.splits if_splits option.splits prod.splits)
  obtain n where n: "length body = Suc (Suc n)"
    using skip_ws_length[OF t(1)] skip_ws_length[OF t(2)] by (metis Suc_le_D Suc_le_mono le_trans)
  have "skip_ws (d # u) = d # u" using t(2) by (metis dropWhile_idem skip_ws_def)
  with m n obtain r1 w q where d: "d = quote_byte" "json_str u = Some (k, r1)" "skip_ws r1 = CHR '':'' # w"
    "jval (Suc n) w = Some (JStr v, q)" "skip_ws q = CHR ''}'' # r"
    by (auto split: list.splits if_splits option.splits prod.splits simp del: jval.simps)
  then show ?r using t j(2) by (auto simp: jval_str_iff simp del: jval.simps)
next
  assume ?r
  then obtain t u r w s q x where a: "skip_ws body = CHR ''{'' # t" "skip_ws t = quote_byte # u"
      "json_str u = Some (k, r)" "skip_ws r = CHR '':'' # w" "skip_ws w = quote_byte # s" "json_str s = Some (v, q)"
      "skip_ws q = CHR ''}'' # x" "skip_ws x = []" by blast
  obtain n where n: "length body = Suc (Suc n)"
    using skip_ws_length[OF a(1)] skip_ws_length[OF a(2)] by (metis Suc_le_D Suc_le_mono le_trans)
  have val: "jval (Suc n) w = Some (JStr v, q)" using a by (simp add: jval_str_iff del: jval.simps)
  have "skip_ws (quote_byte # u) = quote_byte # u" by (simp add: skip_ws_def is_ws_def)
  then have "jmembers (length body) (quote_byte # u) = Some ([(k, JStr v)], x)"
    using a val by (simp add: n del: jval.simps)
  then have "jval (Suc (length body)) body = Some (JObj [(k, JStr v)], x)" using a by simp
  then show ?l using a(8) by (simp add: json_parse_def del: jval.simps)
qed

text \<open>
  C25. \<open>ParsePayload\<close> accepts exactly this: at most 16 KiB of JSON text whose value is an object with
  the single member \<open>enrollment_token\<close>, spelled so, a string that is \<open>rft_\<close> and 43 letters, digits,
  underscores or dashes; and it returns that token. No duplicate, extra or differently-cased key, no
  other type, no trailing data passes.
\<close>

theorem payload_strict:
  "parse_payload body = Inr p \<longleftrightarrow>
     length body \<le> max_payload_bytes \<and>
     json_parse body = Some (JObj [(''enrollment_token'', JStr (pl_token p))]) \<and> light_token (pl_token p)"
proof -
  have "parse_payload body = Inr p \<longleftrightarrow> length body \<le> max_payload_bytes \<and>
      (\<exists>t u. skip_ws body = CHR ''{'' # t \<and> skip_ws t = quote_byte # u \<and> payload_field u = Inr p)"
    by (auto simp: parse_payload_def payload_end_Inr split: list.splits if_splits)
  then show ?thesis unfolding json_parse_one_member payload_field_Inr by blast
qed

text \<open>What the installer's build embeds is accepted.\<close>

lemma payload_accepts:
  "light_token k \<Longrightarrow> parse_payload (json_print (JObj [(''enrollment_token'', JStr k)])) = Inr \<lparr>pl_token = k\<rparr>"
  if "length (json_print (JObj [(''enrollment_token'', JStr k)])) \<le> max_payload_bytes"
  using that json_parse_print[of "JObj [(''enrollment_token'', JStr k)]"] by (simp add: payload_strict)

end
