(* ===== verification/Install.thy ===== *)
theory Install
  imports Enroll Payload Update
begin

text \<open>
  Installing and removing the light agent, \<open>internal/lightinstall\<close>: \<open>Manager.Install\<close> and
  \<open>Uninstall\<close> over the manager's ten function fields, and the functions \<open>New\<close> puts there.

  Beside the world, the installer's machine has the value of the logon \<open>Run\<close> key, the files whose
  access list was restricted, the agents started and the progress shown. A registry call, \<open>icacls\<close>
  and starting a process are their outcomes at the tick; what the started agent writes to its log is
  the environment's.
\<close>

section \<open>State\<close>

record installer = world +
  in_run_value :: "string option"
  in_restricted :: "path list"
  in_started :: "path list"
  in_progress :: "string list"

record install_paths =
  ip_root :: path
  ip_exe :: path
  ip_config :: path
  ip_key :: path
  ip_log :: path

record install_config =
  ic_paths :: install_paths
  ic_server_url :: string

text \<open>
  \<open>ie_sha256_pin\<close> and \<open>ie_signer_pin\<close> are the two variables the build sets; \<open>ie_log n\<close> is what
  reading the agent's log gives at the poll \<open>n\<close> milliseconds after the wait began; \<open>ie_unlink\<close> is a
  run of the installed agent with \<open>unlink\<close>, its error and output with its effect; \<open>ie_cancel\<close> is when
  the caller's context is done.
\<close>

record instenv =
  ie_enroll :: enrollenv
  ie_trust :: trust_calls
  ie_sha256_pin :: string
  ie_signer_pin :: string
  ie_user :: "string res"
  ie_icacls :: "nat \<Rightarrow> (goerr \<times> string) option"
  ie_registry :: "nat \<Rightarrow> goerr option"
  ie_start :: "nat \<Rightarrow> goerr option"
  ie_log :: "nat \<Rightarrow> string res"
  ie_cancel :: "nat option"
  ie_unlink :: "path \<Rightarrow> installer \<Rightarrow> (goerr \<times> string) option \<times> installer"
  ie_now :: string

abbreviation ie_host :: "instenv \<Rightarrow> hostenv" where
  "ie_host env \<equiv> ee_host (ie_enroll env)"

section \<open>The steps\<close>

definition verify_bundled_agent :: "instenv \<Rightarrow> path \<Rightarrow> installer \<Rightarrow> goerr option \<times> installer" where
  "verify_bundled_agent env exe m =
     (if \<not> valid_lower_hex256 (ie_sha256_pin env) \<or> \<not> valid_lower_hex256 (ie_signer_pin env)
      then (Some (Msg (''build is not properly signed/pinned '' @
              ''(expected_agent_sha256/expected_signer_fingerprint unset)'')), m)
      else (case os_stat (ie_host env) exe m of
          (Some e, m1) \<Rightarrow> (Some (wrapf ''open bundled agent: '' e), m1)
        | (None, m1) \<Rightarrow>
            (case os_read_file (ie_host env) exe m1 of
               (Inl e, m2) \<Rightarrow> (Some (wrapf ''hash bundled agent: '' e), m2)
             | (Inr b, m2) \<Rightarrow>
                 (let got = hex_encode (he_sha256 (ie_host env) b)
                  in if got \<noteq> ie_sha256_pin env
                     then (Some (Msg (''bundled agent sha256 mismatch: got '' @ got @ '' want '' @ ie_sha256_pin env)), m2)
                     else (map_err (wrapf ''authenticode: '')
                             (outcome_error (verify_authenticode (he_sha256 (ie_host env)) (ie_trust env) exe (ie_signer_pin env))),
                           m2)))))"

definition protect_key_acl :: "instenv \<Rightarrow> path \<Rightarrow> installer \<Rightarrow> goerr option \<times> installer" where
  "protect_key_acl env key m =
     (case ie_user env of
        Inl e \<Rightarrow> (Some (wrapf ''resolve current user: '' e), m)
      | Inr u \<Rightarrow>
          (case ie_icacls env (w_tick m) of
             Some (e, out) \<Rightarrow> (Some (Msg (''icacls: '' @ err_text e @ '': '' @ out)), tick m)
           | None \<Rightarrow> (None, (tick m)\<lparr>in_restricted := in_restricted m @ [key]\<rparr>)))"

definition register_logon_startup :: "instenv \<Rightarrow> path \<Rightarrow> installer \<Rightarrow> goerr option \<times> installer" where
  "register_logon_startup env exe m =
     (case ie_registry env (w_tick m) of
        Some e \<Rightarrow> (Some (wrapf ''open Run key: '' e), tick m)
      | None \<Rightarrow>
          (case ie_registry env (w_tick (tick m)) of
             Some e \<Rightarrow> (Some (wrapf ''set Run value: '' e), tick (tick m))
           | None \<Rightarrow>
               (None, (tick (tick m))\<lparr>in_run_value := Some (CHR 0x22 # exe @ [CHR 0x22])\<rparr>)))"

text \<open>
  The key or value may be missing: \<open>registry.ErrNotExist\<close>, compared directly. A missing value is
  an absent one; a missing key is an outcome of the call.
\<close>

definition remove_logon_startup :: "instenv \<Rightarrow> installer \<Rightarrow> goerr option \<times> installer" where
  "remove_logon_startup env m =
     (case ie_registry env (w_tick m) of
        Some e \<Rightarrow> (if e = Sentinel ErrNotExist then None else Some (wrapf ''open Run key: '' e), tick m)
      | None \<Rightarrow>
          (let m1 = tick m; r = (case ie_registry env (w_tick m1) of
                                   None \<Rightarrow> if in_run_value m = None then Some (Sentinel ErrNotExist) else None
                                 | Some e \<Rightarrow> Some e)
           in (case r of
                 None \<Rightarrow> (None, (tick m1)\<lparr>in_run_value := None\<rparr>)
               | Some e \<Rightarrow> (if e = Sentinel ErrNotExist then None else Some (wrapf ''delete Run value: '' e), tick m1))))"

definition strip_scheme :: "string \<Rightarrow> string" where
  "strip_scheme s =
     (if has_prefix s ''wss://'' then drop 6 s else if has_prefix s ''ws://'' then drop 5 s
      else if has_prefix s ''https://'' then drop 8 s else if has_prefix s ''http://'' then drop 7 s else s)"

definition installer_enrollment_url :: "string \<Rightarrow> string" where
  "installer_enrollment_url url = ''https://'' @ cut_at (strip_scheme url) (CHR ''/'') @ ''/enroll/v1/redeem''"

definition empty_snapshot :: snapshot where
  "empty_snapshot = \<lparr>sn_hostname = [], sn_os_name = [], sn_os_version = [], sn_fingerprint = [],
     sn_hardware = [], sn_network = [], sn_software = []\<rparr>"

definition enrolled_config :: "string \<Rightarrow> enroll_result \<Rightarrow> config" where
  "enrolled_config url r = zero_config\<lparr>cf_server_url := (if er_listen_url r \<noteq> [] then er_listen_url r else url),
     cf_machine_id := er_machine_id r, cf_venue_id := er_venue_id r, cf_cert_path := er_cert_path r,
     cf_key_path := er_key_path r, cf_ca_path := er_ca_path r\<rparr>"

definition light_options :: "install_config \<Rightarrow> payload \<Rightarrow> enroll_options" where
  "light_options cfg p = \<lparr>eo_url = installer_enrollment_url (ic_server_url cfg), eo_secret = pl_token p,
     eo_version = [], eo_inventory = empty_snapshot, eo_dir = ip_root (ic_paths cfg), eo_insecure = False\<rparr>"

definition enroll_light :: "instenv \<Rightarrow> install_config \<Rightarrow> payload \<Rightarrow> installer \<Rightarrow> goerr option \<times> installer" where
  "enroll_light env cfg p m =
     (case enroll (ie_enroll env) (light_options cfg p) m of
        (Inl e, m1) \<Rightarrow> (Some e, m1)
      | (Inr r, m1) \<Rightarrow>
          save (ie_host env) (ip_config (ic_paths cfg)) (enrolled_config (ic_server_url cfg) r) m1)"

definition start_agent_once :: "instenv \<Rightarrow> path \<Rightarrow> installer \<Rightarrow> goerr option \<times> installer" where
  "start_agent_once env exe m =
     (case ie_start env (w_tick m) of
        Some e \<Rightarrow> (Some (wrapf ''start agent: '' e), tick m)
      | None \<Rightarrow> (None, (tick m)\<lparr>in_started := in_started m @ [exe]\<rparr>))"

definition connected_log_marker :: string where
  "connected_log_marker = CHR 0x22 # ''msg'' @ [CHR 0x22, CHR '':'', CHR 0x22] @ ''agent connected'' @ [CHR 0x22]"

definition log_shows_connected :: "instenv \<Rightarrow> nat \<Rightarrow> bool" where
  "log_shows_connected env n =
     (case ie_log env n of Inl e \<Rightarrow> False | Inr b \<Rightarrow> contains_bytes b connected_log_marker)"

text \<open>
  The wait polls at once and at every tick of 300 ms, until the deadline or the cancellation comes
  before the next tick.
\<close>

function wait_for_agent_connected :: "instenv \<Rightarrow> nat \<Rightarrow> nat \<Rightarrow> bool" where
  "wait_for_agent_connected env timeout elapsed =
     (if log_shows_connected env elapsed then True
      else if timeout < elapsed + 300 \<or> (case ie_cancel env of None \<Rightarrow> False | Some t \<Rightarrow> t < elapsed + 300) then False
      else wait_for_agent_connected env timeout (elapsed + 300))"
  by pat_completeness auto
termination
  by (relation "measure (\<lambda>(env, timeout, elapsed). Suc timeout - elapsed)") auto

declare wait_for_agent_connected.simps [simp del]

definition confirm_connection :: "instenv \<Rightarrow> path \<Rightarrow> nat \<Rightarrow> installer \<Rightarrow> goerr option \<times> installer" where
  "confirm_connection env log_path timeout m =
     (if wait_for_agent_connected env timeout 0 then None
      else Some (Msg (''agent did not report a successful connection within '' @ show_nat (timeout div 1000) @
             ''s (check '' @ log_path @ '')'')), m)"

definition unlink_online :: "instenv \<Rightarrow> path \<Rightarrow> installer \<Rightarrow> goerr option \<times> installer" where
  "unlink_online env exe m =
     (case ie_unlink env exe m of
        (Some (e, out), m1) \<Rightarrow> (Some (Msg (''lightagent unlink: '' @ err_text e @ '': '' @ out)), m1)
      | (None, m1) \<Rightarrow> (None, m1))"

definition remove_install_dir :: "instenv \<Rightarrow> path \<Rightarrow> installer \<Rightarrow> goerr option \<times> installer" where
  "remove_install_dir env root m =
     (case os_remove_all (ie_host env) root m of
        (Some e, m1) \<Rightarrow> (Some (wrapf (''remove '' @ root @ '': '') e), m1)
      | (None, m1) \<Rightarrow> (None, m1))"

definition tombstone_path :: "path \<Rightarrow> path" where
  "tombstone_path root = path_join root ''pending-unlink.tombstone''"

definition write_tombstone :: "instenv \<Rightarrow> path \<Rightarrow> installer \<Rightarrow> goerr option \<times> installer" where
  "write_tombstone env root m =
     (case os_mkdir_all (ie_host env) root m of
        (Some e, m1) \<Rightarrow> (Some (wrapf (''ensure '' @ root @ '': '') e), m1)
      | (None, m1) \<Rightarrow> os_write_file (ie_host env) (tombstone_path root) (ie_now env @ [CHR 0x0A]) m1)"

section \<open>The manager\<close>

text \<open>The function fields of \<open>Manager\<close>, and what \<open>New\<close> assigns to them.\<close>

record manager =
  mg_verify_agent :: "path \<Rightarrow> installer \<Rightarrow> goerr option \<times> installer"
  mg_protect_key :: "path \<Rightarrow> installer \<Rightarrow> goerr option \<times> installer"
  mg_register_task :: "path \<Rightarrow> installer \<Rightarrow> goerr option \<times> installer"
  mg_remove_task :: "installer \<Rightarrow> goerr option \<times> installer"
  mg_enroll :: "install_config \<Rightarrow> payload \<Rightarrow> installer \<Rightarrow> goerr option \<times> installer"
  mg_start_agent :: "path \<Rightarrow> installer \<Rightarrow> goerr option \<times> installer"
  mg_wait_connected :: "path \<Rightarrow> nat \<Rightarrow> installer \<Rightarrow> goerr option \<times> installer"
  mg_unlink_online :: "path \<Rightarrow> installer \<Rightarrow> goerr option \<times> installer"
  mg_remove_all :: "path \<Rightarrow> installer \<Rightarrow> goerr option \<times> installer"
  mg_write_tombstone :: "path \<Rightarrow> installer \<Rightarrow> goerr option \<times> installer"

definition new_manager :: "instenv \<Rightarrow> manager" where
  "new_manager env = \<lparr>mg_verify_agent = verify_bundled_agent env, mg_protect_key = protect_key_acl env,
     mg_register_task = register_logon_startup env, mg_remove_task = remove_logon_startup env,
     mg_enroll = enroll_light env, mg_start_agent = start_agent_once env,
     mg_wait_connected = confirm_connection env, mg_unlink_online = unlink_online env,
     mg_remove_all = remove_install_dir env, mg_write_tombstone = write_tombstone env\<rparr>"

definition progress :: "string \<Rightarrow> installer \<Rightarrow> installer" where
  "progress label m = m\<lparr>in_progress := in_progress m @ [label]\<rparr>"

text \<open>A stage: the label shown, the prefix of its error, the call. The first failure ends the run.\<close>

type_synonym stage = "string \<times> string \<times> (installer \<Rightarrow> goerr option \<times> installer)"

primrec run_stages :: "stage list \<Rightarrow> installer \<Rightarrow> goerr option \<times> installer" where
  "run_stages [] m = (None, m)"
| "run_stages (s # ss) m =
     (case snd (snd s) (progress (fst s) m) of
        (Some e, m1) \<Rightarrow> (Some (wrapf (fst (snd s)) e), m1)
      | (None, m1) \<Rightarrow> run_stages ss m1)"

definition connect_timeout :: nat where "connect_timeout = 20000"

definition install_stages :: "manager \<Rightarrow> install_config \<Rightarrow> payload \<Rightarrow> stage list" where
  "install_stages mg cfg p =
     [(''Verifying the agent's signature and integrity'' @ ellipsis, ''lightinstall: verify agent: '',
       mg_verify_agent mg (ip_exe (ic_paths cfg))),
      (''Enrolling with ReadyFleet'' @ ellipsis, ''lightinstall: enroll: '', mg_enroll mg cfg p),
      (''Securing local credentials'' @ ellipsis, ''lightinstall: protect key: '', mg_protect_key mg (ip_key (ic_paths cfg))),
      (''Registering the startup entry'' @ ellipsis, ''lightinstall: register logon startup: '',
       mg_register_task mg (ip_exe (ic_paths cfg))),
      (''Starting the agent'' @ ellipsis, ''lightinstall: start agent: '', mg_start_agent mg (ip_exe (ic_paths cfg))),
      (''Confirming it can reach ReadyFleet'' @ ellipsis, ''lightinstall: confirm connection: '',
       mg_wait_connected mg (ip_log (ic_paths cfg)) connect_timeout)]"

definition install :: "manager \<Rightarrow> install_config \<Rightarrow> payload \<Rightarrow> installer \<Rightarrow> goerr option \<times> installer" where
  "install mg cfg p m = run_stages (install_stages mg cfg p) m"

definition uninstall :: "manager \<Rightarrow> install_config \<Rightarrow> installer \<Rightarrow> goerr option \<times> installer" where
  "uninstall mg cfg m =
     (case mg_unlink_online mg (ip_exe (ic_paths cfg)) m of
        (unlinked, m1) \<Rightarrow>
          (case (case unlinked of
                   None \<Rightarrow> (None, m1)
                 | Some e \<Rightarrow>
                     (case mg_write_tombstone mg (ip_root (ic_paths cfg)) m1 of
                        (None, m2) \<Rightarrow> (None, m2)
                      | (Some te, m2) \<Rightarrow>
                          (Some (wrapf (''lightinstall: unlink failed ('' @ err_text e @
                             '') and could not record a pending tombstone: '') te), m2))) of
             (Some err, m2) \<Rightarrow> (Some err, m2)
           | (None, m2) \<Rightarrow>
               (case mg_remove_task mg m2 of
                  (Some e, m3) \<Rightarrow> (Some (wrapf ''lightinstall: remove logon startup: '' e), m3)
                | (None, m3) \<Rightarrow> mg_remove_all mg (ip_root (ic_paths cfg)) m3)))"

section \<open>Frames\<close>

text \<open>Calls on the world keep the installer's own fields.\<close>

lemma calls_more:
  "os_read_file env p w = (r1, w') \<Longrightarrow> world.more w' = world.more w"
  "os_write_file env p c w = (r2, w') \<Longrightarrow> world.more w' = world.more w"
  "os_rename env p q w = (r2, w') \<Longrightarrow> world.more w' = world.more w"
  "os_mkdir_all env p w = (r2, w') \<Longrightarrow> world.more w' = world.more w"
  "os_stat env p w = (r2, w') \<Longrightarrow> world.more w' = world.more w"
  "os_remove_all env p w = (r2, w') \<Longrightarrow> world.more w' = world.more w"
  by (auto simp: host_calls split: if_splits option.splits node.splits nat.splits)

lemma write_restricted_more: "write_restricted env b p c w = (r, w') \<Longrightarrow> world.more w' = world.more w"
  by (auto simp: write_restricted_def dest!: calls_more split: option.splits prod.splits if_splits)

lemma persist_more: "persist env opts rs k w = (r, w') \<Longrightarrow> world.more w' = world.more w"
  by (auto simp: persist_def Let_def dest!: calls_more write_restricted_more split: option.splits prod.splits)

lemma enroll_more: "enroll env opts w = (r, w') \<Longrightarrow> world.more w' = world.more w"
  by (erule enroll_cases) (auto dest: persist_more)

lemma save_more: "save env p c w = (r, w') \<Longrightarrow> world.more w' = world.more w"
  by (auto simp: save_def save_text_def dest!: calls_more split: option.splits prod.splits)

lemma installer_fields:
  "world.more m' = world.more m \<Longrightarrow> in_run_value m' = in_run_value m \<and> in_restricted m' = in_restricted m \<and>
     in_started m' = in_started m \<and> in_progress m' = in_progress m"
  by (cases m; cases m') simp

lemma enroll_light_fields:
  assumes "enroll_light env cfg p m = (r, m')"
  shows "in_run_value m' = in_run_value m \<and> in_restricted m' = in_restricted m \<and>
     in_started m' = in_started m \<and> in_progress m' = in_progress m"
proof -
  have "world.more m' = world.more m"
    using assms by (auto simp: enroll_light_def dest!: enroll_more save_more split: sum.splits prod.splits)
  then show ?thesis by (rule installer_fields)
qed

lemma verify_bundled_agent_fields:
  assumes "verify_bundled_agent env exe m = (r, m')"
  shows "in_run_value m' = in_run_value m \<and> in_restricted m' = in_restricted m \<and>
     in_started m' = in_started m \<and> in_progress m' = in_progress m"
proof -
  have "world.more m' = world.more m"
    using assms by (auto simp: verify_bundled_agent_def Let_def dest!: calls_more
        split: sum.splits prod.splits option.splits if_splits)
  then show ?thesis by (rule installer_fields)
qed

text \<open>What each step has done when it succeeds.\<close>

definition agent_verified :: "instenv \<Rightarrow> path \<Rightarrow> (path \<Rightarrow> node option) \<Rightarrow> bool" where
  "agent_verified env exe fs \<longleftrightarrow>
     (\<exists>b. fs exe = Some (File b) \<and> hex_encode (he_sha256 (ie_host env) b) = ie_sha256_pin env \<and>
        valid_lower_hex256 (ie_signer_pin env) \<and>
        verify_authenticode (he_sha256 (ie_host env)) (ie_trust env) exe (ie_signer_pin env) = Returns None)"

lemma os_stat_ticks: "os_stat env p w = (r, w') \<Longrightarrow> w' = tick w"
  by (auto simp: os_stat_def split: option.splits)

lemma os_read_file_ok: "os_read_file env p w = (Inr c, w') \<Longrightarrow> w_fs w p = Some (File c) \<and> w' = tick w"
  using os_read_file_Inr os_read_file_frame by blast

lemma outcome_error_None: "outcome_error r = None \<longleftrightarrow> r = Returns None"
  by (simp add: outcome_error_def split: outcome.splits)

lemma verify_bundled_agent_None:
  assumes "verify_bundled_agent env exe m = (None, m')"
  shows "agent_verified env exe (w_fs m) \<and> w_fs m' = w_fs m"
  using assms
  by (auto simp: verify_bundled_agent_def agent_verified_def Let_def outcome_error_None
      dest!: os_stat_ticks os_read_file_ok split: if_splits option.splits prod.splits sum.splits)

lemma run_stages_Cons:
  "run_stages (s # ss) m = (r, m') \<Longrightarrow>
     \<exists>r1 m1. snd (snd s) (progress (fst s) m) = (r1, m1) \<and>
       (case r1 of Some e \<Rightarrow> r = Some (wrapf (fst (snd s)) e) \<and> m' = m1 | None \<Rightarrow> run_stages ss m1 = (r, m'))"
  by (auto split: prod.splits option.splits)

lemma progress_fields [simp]:
  "w_fs (progress l m) = w_fs m" "in_run_value (progress l m) = in_run_value m"
  "in_restricted (progress l m) = in_restricted m" "in_started (progress l m) = in_started m"
  "in_progress (progress l m) = in_progress m @ [l]" "w_tick (progress l m) = w_tick m"
  by (simp_all add: progress_def)

definition config_saved :: "instenv \<Rightarrow> install_config \<Rightarrow> payload \<Rightarrow> (path \<Rightarrow> node option) \<Rightarrow> bool" where
  "config_saved env cfg p fs \<longleftrightarrow>
     (\<exists>c r. fs (ip_config (ic_paths cfg)) = Some (File (config_text c)) \<and> is_enrolled c \<and>
        complete_response (ie_enroll env) (light_options cfg p) r \<and> cf_machine_id c = rs_machine_id r \<and>
        cf_enrollment_secret c = [] \<and>
        cf_server_url c = (if rs_listen_url r \<noteq> [] then rs_listen_url r else ic_server_url cfg))"

definition layout_ok :: "install_config \<Rightarrow> bool" where
  "layout_ok cfg \<longleftrightarrow>
     material_dir_ok (ip_root (ic_paths cfg)) \<and>
     \<not> material_path (ip_root (ic_paths cfg)) (ip_exe (ic_paths cfg)) \<and>
     ip_exe (ic_paths cfg) \<noteq> ip_config (ic_paths cfg) \<and>
     ip_exe (ic_paths cfg) \<noteq> ip_config (ic_paths cfg) @ ''.tmp''"

lemma enroll_light_effect:
  assumes ok: "layout_ok cfg" and run: "enroll_light env cfg p m = (r, m')"
  shows "w_fs m' (ip_exe (ic_paths cfg)) = w_fs m (ip_exe (ic_paths cfg)) \<and>
    (r = None \<longrightarrow> config_saved env cfg p (w_fs m'))"
proof -
  let ?opts = "light_options cfg p"
  have dir: "eo_dir ?opts = ip_root (ic_paths cfg)" by (simp add: light_options_def)
  obtain res m1 where en: "enroll (ie_enroll env) ?opts m = (res, m1)" by force
  have eff: "(\<forall>x. res = Inr x \<longrightarrow> (\<exists>r. complete_response (ie_enroll env) ?opts r \<and>
       er_machine_id x = rs_machine_id r \<and> er_listen_url x = rs_listen_url r \<and>
       er_cert_path x \<noteq> [] \<and> er_key_path x \<noteq> [])) \<and>
      (\<forall>q. \<not> material_path (ip_root (ic_paths cfg)) q \<longrightarrow> w_fs m1 q = w_fs m q)"
    using enroll_effect[OF _ en] ok dir by (auto simp: layout_ok_def)
  show ?thesis
  proof (cases res)
    case (Inl e)
    then show ?thesis using run en eff ok by (auto simp: enroll_light_def layout_ok_def)
  next
    case (Inr x)
    let ?c = "enrolled_config (ic_server_url cfg) x"
    have sv: "save_text (ie_host env) (ip_config (ic_paths cfg)) (config_text ?c) m1 = (r, m')"
      using run en Inr by (simp add: enroll_light_def save_def)
    have "w_fs m' (ip_exe (ic_paths cfg)) = w_fs m (ip_exe (ic_paths cfg))"
      using config_writer.others[OF sv] ok eff by (auto simp: layout_ok_def)
    moreover have "config_saved env cfg p (w_fs m')" if "r = None"
    proof -
      obtain q where q: "complete_response (ie_enroll env) ?opts q" "er_machine_id x = rs_machine_id q"
          "er_listen_url x = rs_listen_url q" "er_cert_path x \<noteq> []" "er_key_path x \<noteq> []"
        using eff Inr by blast
      have "rs_machine_id q \<noteq> []" using q(1) by (auto simp: complete_response_def)
      then have "is_enrolled ?c" using q by (simp add: is_enrolled_def enrolled_config_def)
      moreover have "w_fs m' (ip_config (ic_paths cfg)) = Some (File (config_text ?c))"
        using config_writer.success[of "ie_host env" _ _ m1 m'] sv that by blast
      ultimately show ?thesis
        unfolding config_saved_def using q by (intro exI[of _ ?c] exI[of _ q]) (simp add: enrolled_config_def zero_config_def)
    qed
    ultimately show ?thesis by blast
  qed
qed

text \<open>Once saved, the configuration and the key's protection stay: the later stages write no file.\<close>

lemma later_steps_fs:
  "protect_key_acl env k m = (r, m') \<Longrightarrow> w_fs m' = w_fs m \<and> in_started m' = in_started m \<and> in_run_value m' = in_run_value m"
  "register_logon_startup env x m = (r, m') \<Longrightarrow> w_fs m' = w_fs m \<and> in_started m' = in_started m \<and> in_restricted m' = in_restricted m"
  "start_agent_once env x m = (r, m') \<Longrightarrow> w_fs m' = w_fs m \<and> in_run_value m' = in_run_value m \<and> in_restricted m' = in_restricted m"
  "confirm_connection env l t m = (r, m') \<Longrightarrow> m' = m"
  by (auto simp: protect_key_acl_def register_logon_startup_def start_agent_once_def confirm_connection_def tick_def
      split: sum.splits option.splits)

lemma later_steps_None:
  "protect_key_acl env k m = (None, m') \<Longrightarrow> in_restricted m' = in_restricted m @ [k]"
  "register_logon_startup env x m = (None, m') \<Longrightarrow> in_run_value m' = Some (CHR 0x22 # x @ [CHR 0x22])"
  "start_agent_once env x m = (r, m') \<Longrightarrow> in_started m' = in_started m @ (if r = None then [x] else [])"
  by (auto simp: protect_key_acl_def register_logon_startup_def start_agent_once_def tick_def
      split: sum.splits option.splits)

lemma confirm_connection_None:
  "confirm_connection env l t m = (r, m') \<Longrightarrow> r = None \<longleftrightarrow> wait_for_agent_connected env t 0"
  by (cases "wait_for_agent_connected env t 0") (auto simp: confirm_connection_def)

lemma wait_for_agent_connected_iff:
  "wait_for_agent_connected env t e \<Longrightarrow> \<exists>n. e \<le> n \<and> n \<le> max t e \<and> log_shows_connected env n"
proof (induction env t e rule: wait_for_agent_connected.induct)
  case (1 env t e)
  show ?case
  proof (cases "log_shows_connected env e")
    case False
    have guard: "\<not> (t < e + 300 \<or> (case ie_cancel env of None \<Rightarrow> False | Some t \<Rightarrow> t < e + 300))"
      using 1(2) False by (subst (asm) wait_for_agent_connected.simps) (auto split: if_splits)
    then have "wait_for_agent_connected env t (e + 300)"
      using 1(2) False by (subst (asm) wait_for_agent_connected.simps) simp
    from 1(1)[OF False guard this] guard show ?thesis by auto (meson le_add1 le_trans)
  qed auto
qed

lemma wait_for_agent_connected_stale: "log_shows_connected env e \<Longrightarrow> wait_for_agent_connected env t e"
  by (subst wait_for_agent_connected.simps) simp

section \<open>What an installation guarantees\<close>

text \<open>
  A triple for calls that may fail: from \<open>pre\<close>, success leads to \<open>post\<close> and failure to \<open>bad\<close>. The
  stages compose.
\<close>

definition triple ::
  "('m \<Rightarrow> bool) \<Rightarrow> ('m \<Rightarrow> goerr option \<times> 'm) \<Rightarrow> ('m \<Rightarrow> bool) \<Rightarrow> ('m \<Rightarrow> bool) \<Rightarrow> bool" where
  "triple pre act post bad \<longleftrightarrow>
     (\<forall>m r m'. pre m \<and> act m = (r, m') \<longrightarrow> (r = None \<longrightarrow> post m') \<and> (r \<noteq> None \<longrightarrow> bad m'))"

lemma tripleI:
  "(\<And>m m'. pre m \<Longrightarrow> act m = (None, m') \<Longrightarrow> post m') \<Longrightarrow>
   (\<And>m e m'. pre m \<Longrightarrow> act m = (Some e, m') \<Longrightarrow> bad m') \<Longrightarrow> triple pre act post bad"
  unfolding triple_def by (metis option.exhaust)

lemma triple_stages_Nil: "(\<And>m. pre m \<Longrightarrow> post m) \<Longrightarrow> triple pre (run_stages []) post bad"
  by (simp add: triple_def)

lemma triple_stages_Cons:
  assumes "triple pre (\<lambda>m. act (progress l m)) mid bad" "triple mid (run_stages ss) post bad"
  shows "triple pre (run_stages ((l, w, act) # ss)) post bad"
  unfolding triple_def
proof (intro allI impI)
  fix m r m' assume run: "pre m \<and> run_stages ((l, w, act) # ss) m = (r, m')"
  obtain r1 m1 where 1: "act (progress l m) = (r1, m1)" by force
  show "(r = None \<longrightarrow> post m') \<and> (r \<noteq> None \<longrightarrow> bad m')"
  proof (cases r1)
    case None
    then have "mid m1" "run_stages ss m1 = (r, m')" using assms(1) run 1 by (auto simp: triple_def)
    then show ?thesis using assms(2) unfolding triple_def by blast
  next
    case (Some e)
    then show ?thesis using assms(1) run 1 unfolding triple_def by fastforce
  qed
qed

text \<open>The assertions between the stages of an installation that began with the agents \<open>s0\<close> running.\<close>

definition prepared :: "instenv \<Rightarrow> install_config \<Rightarrow> payload \<Rightarrow> installer \<Rightarrow> bool" where
  "prepared env cfg p m \<longleftrightarrow> agent_verified env (ip_exe (ic_paths cfg)) (w_fs m) \<and> config_saved env cfg p (w_fs m)"

definition secured :: "install_config \<Rightarrow> installer \<Rightarrow> bool" where
  "secured cfg m \<longleftrightarrow> ip_key (ic_paths cfg) \<in> set (in_restricted m)"

definition registered :: "install_config \<Rightarrow> installer \<Rightarrow> bool" where
  "registered cfg m \<longleftrightarrow> in_run_value m = Some (CHR 0x22 # ip_exe (ic_paths cfg) @ [CHR 0x22])"

definition started :: "instenv \<Rightarrow> install_config \<Rightarrow> payload \<Rightarrow> path list \<Rightarrow> installer \<Rightarrow> bool" where
  "started env cfg p s0 m \<longleftrightarrow> in_started m = s0 @ [ip_exe (ic_paths cfg)] \<and> prepared env cfg p m \<and> secured cfg m \<and>
     registered cfg m"

definition unstarted_or :: "instenv \<Rightarrow> install_config \<Rightarrow> payload \<Rightarrow> path list \<Rightarrow> installer \<Rightarrow> bool" where
  "unstarted_or env cfg p s0 m \<longleftrightarrow> in_started m = s0 \<or> started env cfg p s0 m"

lemmas assertions = prepared_def secured_def registered_def started_def unstarted_or_def

lemma install_triple:
  assumes ok: "layout_ok cfg"
  shows "triple (\<lambda>m. in_started m = s0) (install (new_manager env) cfg p)
    (\<lambda>m. started env cfg p s0 m \<and> wait_for_agent_connected env connect_timeout 0) (unstarted_or env cfg p s0)"
  unfolding install_def[abs_def] install_stages_def new_manager_def manager.simps
proof (rule triple_stages_Cons[where mid = "\<lambda>m. in_started m = s0 \<and> agent_verified env (ip_exe (ic_paths cfg)) (w_fs m)"],
    goal_cases)
  case 1
  show ?case
    by (rule tripleI; frule verify_bundled_agent_fields; (drule verify_bundled_agent_None)?; simp add: unstarted_or_def)
next
  case 2
  show ?case
  proof (rule triple_stages_Cons[where mid = "\<lambda>m. in_started m = s0 \<and> prepared env cfg p m"], goal_cases)
    case 1
    show ?case
      by (rule tripleI; frule enroll_light_fields; drule enroll_light_effect[OF ok])
         (simp_all add: assertions agent_verified_def)
  next
    case 2
    show ?case
    proof (rule triple_stages_Cons[where mid = "\<lambda>m. in_started m = s0 \<and> prepared env cfg p m \<and> secured cfg m"], goal_cases)
      case 1
      show ?case
        by (rule tripleI; frule later_steps_fs(1); (drule later_steps_None(1))?; simp add: assertions)
    next
      case 2
      show ?case
      proof (rule triple_stages_Cons[where mid = "\<lambda>m. in_started m = s0 \<and> prepared env cfg p m \<and> secured cfg m \<and> registered cfg m"], goal_cases)
        case 1
        show ?case
          by (rule tripleI; frule later_steps_fs(2); (drule later_steps_None(2))?; simp add: assertions)
      next
        case 2
        show ?case
        proof (rule triple_stages_Cons[where mid = "started env cfg p s0"], goal_cases)
          case 1
          show ?case
            by (rule tripleI; frule later_steps_fs(3); drule later_steps_None(3); simp add: assertions)
        next
          case 2
          show ?case
          proof (rule triple_stages_Cons[where mid = "\<lambda>m. started env cfg p s0 m \<and> wait_for_agent_connected env connect_timeout 0"], goal_cases)
            case 1
            show ?case
              by (rule tripleI; frule later_steps_fs(4); drule confirm_connection_None; simp add: assertions)
          qed (rule triple_stages_Nil)
        qed
      qed
    qed
  qed
qed

text \<open>A binary that does not verify ends the installation at its first stage.\<close>

lemma verify_bundled_agent_fs: "verify_bundled_agent env exe m = (r, m') \<Longrightarrow> w_fs m' = w_fs m"
  by (auto simp: verify_bundled_agent_def Let_def dest!: os_stat_ticks os_read_file_frame
      split: if_splits option.splits prod.splits sum.splits)

lemma install_unverified:
  assumes "\<not> agent_verified env (ip_exe (ic_paths cfg)) (w_fs m)" "install (new_manager env) cfg p m = (r, m')"
  shows "r \<noteq> None \<and> w_fs m' = w_fs m \<and> in_started m' = in_started m \<and> in_run_value m' = in_run_value m \<and>
      in_restricted m' = in_restricted m"
proof -
  obtain l act ss where st: "install_stages (new_manager env) cfg p =
      (l, ''lightinstall: verify agent: '', verify_bundled_agent env (ip_exe (ic_paths cfg))) # ss"
    by (simp add: install_stages_def new_manager_def)
  obtain r1 m1 where v: "verify_bundled_agent env (ip_exe (ic_paths cfg)) (progress l m) = (r1, m1)" by force
  have "r1 \<noteq> None" using verify_bundled_agent_None[of env _ "progress l m" m1] v assms(1) by (cases r1) auto
  then have "r \<noteq> None \<and> m' = m1" using assms(2) v by (auto simp: install_def st)
  then show ?thesis using verify_bundled_agent_fields[OF v] verify_bundled_agent_fs[OF v] by simp
qed

text \<open>
  C3. The installer starts the agent only when everything before succeeded: if an agent was started
  at all, then once, and the bundled binary had the pinned SHA-256 and passed Authenticode for the
  pinned signer, the server had issued the machine its identity and the saved configuration says so
  with the secret gone, the key's access list was restricted and the logon entry names the binary.
  \<open>Install\<close> returns nil only if moreover the log showed a connection within 20 s. When the binary
  does not verify, no file, registry value or process is touched.
\<close>

theorem install_gated:
  assumes "layout_ok cfg" and "install (new_manager env) cfg p m = (r, m')"
  shows "(in_started m' \<noteq> in_started m \<longrightarrow>
      in_started m' = in_started m @ [ip_exe (ic_paths cfg)] \<and>
      agent_verified env (ip_exe (ic_paths cfg)) (w_fs m') \<and> config_saved env cfg p (w_fs m') \<and>
      ip_key (ic_paths cfg) \<in> set (in_restricted m') \<and>
      in_run_value m' = Some (CHR 0x22 # ip_exe (ic_paths cfg) @ [CHR 0x22])) \<and>
    (r = None \<longrightarrow> in_started m' \<noteq> in_started m \<and> (\<exists>n \<le> connect_timeout. log_shows_connected env n)) \<and>
    (\<not> agent_verified env (ip_exe (ic_paths cfg)) (w_fs m) \<longrightarrow>
      r \<noteq> None \<and> w_fs m' = w_fs m \<and> in_started m' = in_started m \<and> in_run_value m' = in_run_value m \<and>
      in_restricted m' = in_restricted m)"
proof -
  have t: "(r = None \<longrightarrow> started env cfg p (in_started m) m' \<and> wait_for_agent_connected env connect_timeout 0) \<and>
      (r \<noteq> None \<longrightarrow> unstarted_or env cfg p (in_started m) m')"
    using install_triple[OF assms(1), of "in_started m" env p] assms(2) unfolding triple_def by blast
  have "unstarted_or env cfg p (in_started m) m'" using t by (auto simp: unstarted_or_def)
  moreover have "r = None \<Longrightarrow> \<exists>n \<le> connect_timeout. log_shows_connected env n"
    using t wait_for_agent_connected_iff[of env connect_timeout 0] by auto
  moreover have "r = None \<Longrightarrow> in_started m' \<noteq> in_started m" using t by (auto simp: started_def)
  ultimately show ?thesis
    using install_unverified[OF _ assms(2)] by (auto simp: assertions)
qed

section \<open>A quiet installation\<close>

definition pinned_env :: hostenv where
  "pinned_env = quiet_env\<lparr>he_sha256 := toy_sha\<rparr>"

definition sample_instenv :: instenv where
  "sample_instenv = \<lparr>ie_enroll = sample_enrollenv\<lparr>ee_host := pinned_env\<rparr>, ie_trust = sample_trust None,
     ie_sha256_pin = hex_encode (toy_sha ''MZ''), ie_signer_pin = hex_encode (toy_sha ''der''),
     ie_user = Inr ''u'', ie_icacls = (\<lambda>n. None), ie_registry = (\<lambda>n. None), ie_start = (\<lambda>n. None),
     ie_log = (\<lambda>n. Inr connected_log_marker), ie_cancel = None,
     ie_unlink = (\<lambda>p m. (Some (Msg ''exit status 1'', []), m)), ie_now = ''t''\<rparr>"

definition sample_exe :: path where "sample_exe = ''x.exe''"

definition sample_layout :: install_config where
  "sample_layout = \<lparr>ic_paths = \<lparr>ip_root = sample_dir, ip_exe = sample_exe, ip_config = ''c.json'',
      ip_key = ''k'', ip_log = ''l''\<rparr>, ic_server_url = ''wss://h/agent''\<rparr>"

definition sample_installer :: installer where
  "sample_installer = world.extend (bare_world\<lparr>w_fs := [sample_exe \<mapsto> File ''MZ'']\<rparr>)
     \<lparr>in_run_value = None, in_restricted = [], in_started = [], in_progress = []\<rparr>"

lemma pinned_quiet: "\<forall>n. he_fault pinned_env n = None"
  by (simp add: pinned_env_def quiet_env_def)

lemma sample_material: "material_path sample_dir q \<Longrightarrow> q \<noteq> sample_exe \<and> q \<noteq> ''c.json'' \<and> q \<noteq> ''c.json.tmp''"
  using material_paths[OF sample_dir_ok] by (auto simp: material_path_def sample_dir_def sample_exe_def)

lemma sample_layout_ok: "layout_ok sample_layout"
  using sample_dir_ok sample_material[of sample_exe]
  by (auto simp: layout_ok_def sample_layout_def sample_exe_def)

lemma sample_verifies:
  assumes "w_fs m sample_exe = Some (File ''MZ'')"
  shows "verify_bundled_agent sample_instenv sample_exe m = (None, tick (tick m))"
proof -
  have "valid_lower_hex256 (hex_encode (toy_sha s))" for s
    by (simp add: valid_hex_iff list_all_iff hex_encode_lower)
  moreover have "\<not> CHR 0x00 \<in> set sample_exe" by (simp add: sample_exe_def)
  ultimately show ?thesis
    using assms pinned_quiet
    by (simp add: verify_bundled_agent_def sample_instenv_def os_stat_def os_read_file_def Let_def
        sample_authenticode outcome_error_def pinned_env_def quiet_env_def)
qed

lemma sample_enrolls:
  fixes m :: installer
  assumes "w_fs m = [sample_exe \<mapsto> File ''MZ'']"
  shows "\<exists>m'. enroll_light sample_instenv sample_layout \<lparr>pl_token = ''rft''\<rparr> m = (None, m')"
proof -
  let ?opts = "light_options sample_layout \<lparr>pl_token = ''rft''\<rparr>"
  have env: "ie_enroll sample_instenv = sample_enrollenv\<lparr>ee_host := pinned_env\<rparr>" by (simp add: sample_instenv_def)
  have dir: "eo_dir ?opts = sample_dir" by (simp add: light_options_def sample_layout_def)
  have free: "\<forall>q. material_path sample_dir q \<longrightarrow> w_fs m q = None" using assms sample_material by auto
  obtain x m1 where en: "enroll (ie_enroll sample_instenv) ?opts m = (Inr x, m1)"
    using enroll_quiet[OF pinned_quiet sample_dir_ok free dir]
    by (auto simp: env light_options_def sample_layout_def installer_enrollment_url_def)
  have "\<forall>q. \<not> material_path sample_dir q \<longrightarrow> w_fs m1 q = w_fs m q"
    using enroll_effect[OF _ en] sample_dir_ok dir by simp
  moreover have "\<not> material_path sample_dir ''c.json''" "\<not> material_path sample_dir ''c.json.tmp''"
    using sample_material by blast+
  ultimately have "w_fs m1 ''c.json'' = None" "w_fs m1 ''c.json.tmp'' = None"
    using assms by (simp_all add: sample_exe_def)
  then have "\<exists>m'. save pinned_env ''c.json'' c m1 = (None, m')" for c
    by (intro save_quiet pinned_quiet) simp_all
  then show ?thesis
    using en by (simp add: enroll_light_def) (simp add: sample_instenv_def sample_layout_def)
qed

lemma sample_install_runs:
  "\<exists>m'. install (new_manager sample_instenv) sample_layout \<lparr>pl_token = ''rft''\<rparr> sample_installer = (None, m')"
proof -
  have conf: "wait_for_agent_connected sample_instenv t 0" for t
    by (rule wait_for_agent_connected_stale)
       (simp add: log_shows_connected_def sample_instenv_def contains_bytes_iff, metis append_Nil append_Nil2)
  have paths: "ip_exe (ic_paths sample_layout) = sample_exe" by (simp add: sample_layout_def)
  define m1 where "m1 l = tick (tick (progress l sample_installer))" for l
  have fs: "w_fs (progress k (m1 l)) = [sample_exe \<mapsto> File ''MZ'']" for k l
    by (simp add: m1_def sample_installer_def world.defs)
  obtain f where en: "enroll_light sample_instenv sample_layout \<lparr>pl_token = ''rft''\<rparr> (progress k (m1 l)) = (None, f k l)" for k l
    using sample_enrolls[OF fs] by metis
  have ver: "verify_bundled_agent sample_instenv sample_exe (progress l sample_installer) = (None, m1 l)" for l
    unfolding m1_def by (rule sample_verifies) (simp add: sample_installer_def world.defs)
  have seams: "ie_user sample_instenv = Inr ''u''" "ie_icacls sample_instenv n = None"
      "ie_registry sample_instenv n = None" "ie_start sample_instenv n = None" for n
    by (simp_all add: sample_instenv_def)
  show ?thesis
    by (simp add: install_def install_stages_def new_manager_def paths ver en conf seams protect_key_acl_def
        register_logon_startup_def start_agent_once_def confirm_connection_def)
qed

theorem install_gated_witness:
  "\<exists>m'. install (new_manager sample_instenv) sample_layout \<lparr>pl_token = ''rft''\<rparr> sample_installer = (None, m') \<and>
     in_started m' = [sample_exe] \<and> config_saved sample_instenv sample_layout \<lparr>pl_token = ''rft''\<rparr> (w_fs m')"
proof -
  obtain m' where run: "install (new_manager sample_instenv) sample_layout \<lparr>pl_token = ''rft''\<rparr> sample_installer = (None, m')"
    using sample_install_runs by blast
  have "in_started sample_installer = []" "ip_exe (ic_paths sample_layout) = sample_exe"
    by (simp_all add: sample_installer_def world.defs sample_layout_def)
  then show ?thesis using install_gated[OF sample_layout_ok run] run by auto
qed

section \<open>Uninstalling\<close>

lemma not_under_survives: "os_remove_all env root w = (None, w') \<Longrightarrow> is_under root q \<Longrightarrow> w_fs w' q = None"
  by (auto simp: os_remove_all_def split: option.splits)

lemma uninstall_None:
  assumes "uninstall (new_manager env) cfg m = (None, m')"
  shows "\<exists>m1. os_remove_all (ie_host env) (ip_root (ic_paths cfg)) m1 = (None, m')"
  using assms
  by (auto simp: uninstall_def new_manager_def remove_install_dir_def split: prod.splits option.splits)

text \<open>
  A successful uninstall leaves nothing below the install root; so the tombstone of an uninstall whose
  unlink failed, written into that very directory a moment before, is gone too.
\<close>

theorem uninstall_leaves_nothing:
  assumes "uninstall (new_manager env) cfg m = (None, m')" and "material_dir_ok (ip_root (ic_paths cfg))"
  shows "(\<forall>q. is_under (ip_root (ic_paths cfg)) q \<longrightarrow> w_fs m' q = None) \<and>
    w_fs m' (tombstone_path (ip_root (ic_paths cfg))) = None"
proof -
  obtain v ds where d: "canonical v ds (ip_root (ic_paths cfg))" "ds \<noteq> []" "last (ip_root (ic_paths cfg)) \<noteq> CHR '':''"
    using assms(2) by (auto simp: material_dir_ok_def)
  have "tombstone_path (ip_root (ic_paths cfg)) = ip_root (ic_paths cfg) @ CHR 0x5C # ''pending-unlink.tombstone''"
    unfolding tombstone_path_def by (rule join_plain(1)[OF d]) (simp add: plain_elem_def dot_def dotdot_def is_sep_def)
  then have "is_under (ip_root (ic_paths cfg)) (tombstone_path (ip_root (ic_paths cfg)))"
    by (simp add: is_under_def has_prefix_def)
  moreover have "\<forall>q. is_under (ip_root (ic_paths cfg)) q \<longrightarrow> w_fs m' q = None"
    using uninstall_None[OF assms(1)] not_under_survives by blast
  ultimately show ?thesis by blast
qed

end
