(* ===== verification/Conn.thy ===== *)
theory Conn
  imports Proto
begin

text \<open>
  One live connection of \<open>transport/client.go\<close>: \<open>persistentConn\<close>, its bounded send queue and the
  three pumps \<open>readLoop\<close>, \<open>writeLoop\<close> and \<open>pingLoop\<close>.

  A Go \<open>select\<close> with several ready cases takes any of them, so a function that selects returns the
  list of its possible outcomes; no ready case is the empty list, and the goroutine blocks. The
  WebSocket library (\<open>gorilla/websocket\<close>) is not under \<open>src/\<close>: the outcome of a write and what a
  read delivers are arguments.
\<close>

section \<open>The connection\<close>

definition read_deadline :: int where "read_deadline = 75 * second"
definition ping_interval :: int where "ping_interval = 25 * second"
definition send_capacity :: nat where "send_capacity = 32"
definition read_limit :: nat where "read_limit = 2 * 1024 * 1024"

record pconn =
  pc_send :: "string list"
  pc_closed :: bool
  pc_read_deadline :: int
  pc_ping_interval :: int

definition new_persistent_conn :: pconn where
  "new_persistent_conn =
     \<lparr>pc_send = [], pc_closed = False, pc_read_deadline = read_deadline,
      pc_ping_interval = ping_interval\<rparr>"

definition marshal :: "envelope \<Rightarrow> string" where
  "marshal e = json_print (envelope_json e)"

text \<open>
  \<open>Send\<close>: the cases in the order of the source, each listed when it is ready. \<open>ctx\<close> is
  \<open>ctx.Err()\<close>; it is not \<open>None\<close> exactly when \<open>ctx.Done()\<close> is closed.
\<close>

definition send_outcomes :: "goerr option \<Rightarrow> envelope \<Rightarrow> pconn \<Rightarrow> (goerr option \<times> pconn) list" where
  "send_outcomes ctx env p =
     (if pc_closed p then [(Some (Msg ''transport: connection closed''), p)] else []) @
     (case ctx of None \<Rightarrow> [] | Some e \<Rightarrow> [(Some e, p)]) @
     (if length (pc_send p) < send_capacity
      then [(None, p\<lparr>pc_send := pc_send p @ [marshal env]\<rparr>)] else [])"

text \<open>\<open>Close\<close> (its \<open>Once\<close> makes a second close of the channel harmless).\<close>

definition close_conn :: "pconn \<Rightarrow> pconn" where
  "close_conn p = p\<lparr>pc_closed := True\<rparr>"

text \<open>
  One turn of \<open>writeLoop\<close>. \<open>Inl r\<close>: the loop returns \<open>r\<close>; \<open>Inr ()\<close>: it goes round. The frame
  handed to \<open>WriteMessage\<close> is the third component.
\<close>

definition write_turn ::
  "goerr option \<Rightarrow> (string \<Rightarrow> goerr option) \<Rightarrow> pconn \<Rightarrow> ((goerr option + unit) \<times> pconn \<times> string option) list" where
  "write_turn ctx write_message p =
     (case ctx of None \<Rightarrow> [] | Some e \<Rightarrow> [(Inl (Some e), p, None)]) @
     (if pc_closed p then [(Inl None, p, None)] else []) @
     (case pc_send p of
        [] \<Rightarrow> []
      | b # q \<Rightarrow>
          [((case write_message b of Some e \<Rightarrow> Inl (Some e) | None \<Rightarrow> Inr ()),
            p\<lparr>pc_send := q\<rparr>, Some b)])"

text \<open>One turn of \<open>pingLoop\<close>; \<open>tick\<close> says the ticker has fired.\<close>

definition ping_turn :: "goerr option \<Rightarrow> bool \<Rightarrow> goerr option \<Rightarrow> pconn \<Rightarrow> (goerr option + unit) list" where
  "ping_turn ctx tick write_control p =
     (case ctx of None \<Rightarrow> [] | Some e \<Rightarrow> [Inl (Some e)]) @
     (if pc_closed p then [Inl None] else []) @
     (if tick then [case write_control of Some e \<Rightarrow> Inl (Some e) | None \<Rightarrow> Inr ()] else [])"

text \<open>Nobody in the package calls \<open>Close\<close>, so a pump that returns returns an error.\<close>

lemma write_turn_returns_error:
  "\<not> pc_closed p \<Longrightarrow> (Inl r, p', w) \<in> set (write_turn ctx wm p) \<Longrightarrow> r \<noteq> None"
  by (auto simp: write_turn_def split: option.splits list.splits)

lemma ping_turn_returns_error:
  "\<not> pc_closed p \<Longrightarrow> Inl r \<in> set (ping_turn ctx tick wc p) \<Longrightarrow> r \<noteq> None"
  by (auto simp: ping_turn_def split: option.splits if_splits)

text \<open>The fate of a \<open>Send\<close> on a fresh connection, as \<open>connectAndServe\<close> uses it for the hello.\<close>

lemma send_outcomes_ready:
  "\<not> pc_closed p \<Longrightarrow> length (pc_send p) < send_capacity \<Longrightarrow>
     send_outcomes None env p = [(None, p\<lparr>pc_send := pc_send p @ [marshal env]\<rparr>)]"
  by (simp add: send_outcomes_def)

lemma send_outcomes_frame:
  "(r, p') \<in> set (send_outcomes ctx env p) \<Longrightarrow>
     pc_closed p' = pc_closed p \<and>
     pc_send p' = pc_send p @ (if r = None then [marshal env] else []) \<and>
     (length (pc_send p) \<le> send_capacity \<longrightarrow> length (pc_send p') \<le> send_capacity)"
  by (auto simp: send_outcomes_def split: option.splits if_splits)

text \<open>
  \<open>Send\<close> on a connection that nobody closed blocks exactly when the queue is full and the
  context is live; otherwise each of its outcomes either queues the marshalled envelope, once and at
  the end of the queue, and returns nil, or leaves the queue alone and returns the context's error.
  The queue never exceeds 32 frames.
\<close>

theorem send_contract:
  assumes "\<not> pc_closed p" and "length (pc_send p) \<le> send_capacity"
  shows "(send_outcomes ctx env p = [] \<longleftrightarrow> ctx = None \<and> length (pc_send p) = 32) \<and>
    (\<forall>(r, p') \<in> set (send_outcomes ctx env p).
       length (pc_send p') \<le> 32 \<and>
       (r = None \<and> pc_send p' = pc_send p @ [marshal env] \<or>
        r \<noteq> None \<and> r = ctx \<and> p' = p))"
  using assms by (auto simp: send_outcomes_def send_capacity_def split: option.splits if_splits)

theorem send_contract_witness:
  "send_outcomes None \<lparr>env_id = ''a'', env_type = ''pong'', env_reply = None, env_ts = ''t'', env_data = None\<rparr>
     new_persistent_conn \<noteq> []"
  using send_contract[of new_persistent_conn None
      "\<lparr>env_id = ''a'', env_type = ''pong'', env_reply = None, env_ts = ''t'', env_data = None\<rparr>"]
  by (simp add: new_persistent_conn_def send_capacity_def)

text \<open>
  The comment on \<open>Send\<close> says it errors once the connection has been closed; the \<open>select\<close> may as
  well take the queue when both are ready.
\<close>

lemma send_after_close_may_queue:
  "pc_closed p \<Longrightarrow> length (pc_send p) < send_capacity \<Longrightarrow>
     (None, p\<lparr>pc_send := pc_send p @ [marshal env]\<rparr>) \<in> set (send_outcomes ctx env p)"
  by (simp add: send_outcomes_def)

section \<open>Delivery order\<close>

text \<open>
  The connection with the concurrent callers of \<open>Send\<close> and the writer: \<open>accepted\<close> are the
  envelopes whose \<open>Send\<close> returned nil, \<open>wire\<close> the frames written, \<open>failed\<close> the one whose write
  failed, after which the writer has returned (\<open>writer = Some r\<close>).
\<close>

record delivery =
  d_conn :: pconn
  d_accepted :: "envelope list"
  d_wire :: "string list"
  d_failed :: "string list"
  d_writer :: "goerr option option"

definition delivery_start :: delivery where
  "delivery_start =
     \<lparr>d_conn = new_persistent_conn, d_accepted = [], d_wire = [], d_failed = [], d_writer = None\<rparr>"

inductive delivery_step :: "delivery \<Rightarrow> delivery \<Rightarrow> bool" where
  send_takes: "(r, p') \<in> set (send_outcomes ctx env (d_conn d)) \<Longrightarrow>
    delivery_step d (d\<lparr>d_conn := p',
      d_accepted := (if r = None then d_accepted d @ [env] else d_accepted d)\<rparr>)"
| write_takes: "d_writer d = None \<Longrightarrow> (Inr u, p', Some b) \<in> set (write_turn ctx wm (d_conn d)) \<Longrightarrow>
    delivery_step d (d\<lparr>d_conn := p', d_wire := d_wire d @ [b]\<rparr>)"
| write_fails: "d_writer d = None \<Longrightarrow> (Inl r, p', Some b) \<in> set (write_turn ctx wm (d_conn d)) \<Longrightarrow>
    delivery_step d (d\<lparr>d_conn := p', d_failed := [b], d_writer := Some r\<rparr>)"
| writer_stops: "d_writer d = None \<Longrightarrow> (Inl r, p', None) \<in> set (write_turn ctx wm (d_conn d)) \<Longrightarrow>
    delivery_step d (d\<lparr>d_conn := p', d_writer := Some r\<rparr>)"
| closes: "delivery_step d (d\<lparr>d_conn := close_conn (d_conn d)\<rparr>)"

inductive_cases delivery_stepE: "delivery_step d d'"

inductive delivery_reach :: "delivery \<Rightarrow> bool" where
  reach_start: "delivery_reach delivery_start"
| reach_step: "delivery_reach d \<Longrightarrow> delivery_step d d' \<Longrightarrow> delivery_reach d'"

definition delivery_ok :: "delivery \<Rightarrow> bool" where
  "delivery_ok d \<longleftrightarrow>
     map marshal (d_accepted d) = d_wire d @ d_failed d @ pc_send (d_conn d) \<and>
     length (pc_send (d_conn d)) \<le> send_capacity \<and>
     (d_failed d \<noteq> [] \<longrightarrow> (\<exists>e. d_writer d = Some (Some e))) \<and> length (d_failed d) \<le> 1"

lemma write_turn_frame:
  "(x, p', Some b) \<in> set (write_turn ctx wm p) \<Longrightarrow> pc_send p = b # pc_send p'"
  "(x, p', None) \<in> set (write_turn ctx wm p) \<Longrightarrow> p' = p"
  "(Inl r, p', Some b) \<in> set (write_turn ctx wm p) \<Longrightarrow> \<exists>e. r = Some e"
  by (auto simp: write_turn_def split: option.splits list.splits if_splits)

lemma delivery_ok_start: "delivery_ok delivery_start"
  by (simp add: delivery_ok_def delivery_start_def new_persistent_conn_def)

lemma delivery_ok_step: "delivery_ok d \<Longrightarrow> delivery_step d d' \<Longrightarrow> delivery_ok d'"
proof (erule delivery_stepE, goal_cases)
  case (1 r p' ctx env)
  then show ?case using send_outcomes_frame[of r p' ctx env "d_conn d"]
    by (auto simp: delivery_ok_def)
next
  case (2 p' b ctx wm)
  then show ?case using write_turn_frame(1)[of "Inr ()" p' b ctx wm "d_conn d"]
    by (auto simp: delivery_ok_def)
next
  case (3 r p' b ctx wm)
  then show ?case
    using write_turn_frame(1)[of "Inl r" p' b ctx wm "d_conn d"]
      write_turn_frame(3)[of r p' b ctx wm "d_conn d"]
    by (auto simp: delivery_ok_def)
next
  case (4 r p' ctx wm)
  then show ?case using write_turn_frame(2)[of "Inl r" p' ctx wm "d_conn d"]
    by (auto simp: delivery_ok_def)
next
  case 5
  then show ?case by (simp add: delivery_ok_def close_conn_def)
qed

lemma delivery_reach_ok: "delivery_reach d \<Longrightarrow> delivery_ok d"
  by (induction rule: delivery_reach.induct) (simp_all add: delivery_ok_start delivery_ok_step)

text \<open>
  C18. Frames leave in the order their \<open>Send\<close> calls were accepted, none duplicated, none invented:
  at every moment, under every interleaving of senders, the writer and \<open>Close\<close>, the wire is the
  marshalled prefix of the accepted envelopes, what is missing is the at most 32 frames still queued
  and at most one frame whose write failed, and in that case the writer has returned the error.
\<close>

theorem delivery_fifo:
  assumes "delivery_reach d"
  shows "\<exists>rest. map marshal (d_accepted d) = d_wire d @ rest \<and>
    length rest \<le> 33 \<and> (d_writer d = None \<longrightarrow> rest = pc_send (d_conn d) \<and> length rest \<le> 32)"
  using delivery_reach_ok[OF assms]
  by (intro exI[of _ "d_failed d @ pc_send (d_conn d)"]) (auto simp: delivery_ok_def send_capacity_def)

lemma delivery_reach_hello:
  "delivery_reach (delivery_start\<lparr>d_conn := new_persistent_conn\<lparr>pc_send := [marshal h]\<rparr>, d_accepted := [h]\<rparr>)"
proof -
  have "delivery_step delivery_start
      (delivery_start\<lparr>d_conn := new_persistent_conn\<lparr>pc_send := [marshal h]\<rparr>,
        d_accepted := (if (None :: goerr option) = None then d_accepted delivery_start @ [h]
                       else d_accepted delivery_start)\<rparr>)"
    by (rule delivery_step.send_takes[where ctx = None])
       (simp add: send_outcomes_def delivery_start_def new_persistent_conn_def send_capacity_def)
  then have "delivery_reach (delivery_start\<lparr>d_conn := new_persistent_conn\<lparr>pc_send := [marshal h]\<rparr>,
        d_accepted := (if (None :: goerr option) = None then d_accepted delivery_start @ [h]
                       else d_accepted delivery_start)\<rparr>)"
    by (rule reach_step[OF reach_start])
  then show ?thesis by (simp add: delivery_start_def)
qed

theorem delivery_fifo_witness:
  "\<exists>rest. map marshal [\<lparr>env_id = ''a'', env_type = ''hello'', env_reply = None, env_ts = ''t'', env_data = None\<rparr>] =
     [] @ rest \<and> length rest \<le> 33"
  using delivery_fifo[OF delivery_reach_hello[of
      "\<lparr>env_id = ''a'', env_type = ''hello'', env_reply = None, env_ts = ''t'', env_data = None\<rparr>"]]
  by (auto simp: delivery_start_def)

end
