(* ===== verification/Liveness.thy ===== *)
theory Liveness
  imports Conn
begin

text \<open>
  The read pump of \<open>transport/client.go\<close> with its deadline: \<open>persistentConn.readLoop\<close> over a
  timeline of what the peer sends. Times are nanoseconds. An event is listed with the time at which
  \<open>ReadMessage\<close> takes it from the connection, so handling it takes no time of its own here; the
  handlers that may take long run in goroutines of their own.
\<close>

section \<open>The read loop\<close>

datatype read_event = Frame string | PongFrame

datatype read_end = Silent | FailsAt int goerr

definition io_timeout :: goerr where "io_timeout = Msg ''i/o timeout''"
definition limit_error :: goerr where "limit_error = Msg ''websocket: read limit exceeded''"

definition unmarshal_envelope :: "(string \<Rightarrow> uuid option) \<Rightarrow> string \<Rightarrow> envelope option" where
  "unmarshal_envelope parse raw = Option.bind (json_parse raw) (decode_envelope parse)"

text \<open>A frame that is not an envelope is logged and skipped; a handler's error is only logged.\<close>

definition handle_frame ::
  "(string \<Rightarrow> uuid option) \<Rightarrow> (envelope \<Rightarrow> 's \<Rightarrow> goerr option \<times> 's) \<Rightarrow> string \<Rightarrow> 's \<Rightarrow> 's" where
  "handle_frame parse on raw s =
     (case unmarshal_envelope parse raw of None \<Rightarrow> s | Some env \<Rightarrow> snd (on env s))"

text \<open>
  \<open>dl\<close> is the armed deadline. The loop returns at a time, with an error, and with the handlers'
  state.
\<close>

fun read_loop ::
  "(string \<Rightarrow> uuid option) \<Rightarrow> int \<Rightarrow> (envelope \<Rightarrow> 's \<Rightarrow> goerr option \<times> 's) \<Rightarrow> int \<Rightarrow>
   (int \<times> read_event) list \<Rightarrow> read_end \<Rightarrow> 's \<Rightarrow> int \<times> goerr \<times> 's" where
  "read_loop parse rd on dl [] Silent s = (dl, io_timeout, s)"
| "read_loop parse rd on dl [] (FailsAt t e) s = (if t \<le> dl then (t, e, s) else (dl, io_timeout, s))"
| "read_loop parse rd on dl ((t, PongFrame) # evs) fin s =
     (if dl < t then (dl, io_timeout, s) else read_loop parse rd on (t + rd) evs fin s)"
| "read_loop parse rd on dl ((t, Frame raw) # evs) fin s =
     (if dl < t then (dl, io_timeout, s)
      else if read_limit < length raw then (t, limit_error, s)
      else read_loop parse rd on (t + rd) evs fin (handle_frame parse on raw s))"

text \<open>\<open>readLoop\<close> itself arms the deadline on entry, at time \<open>t0\<close>.\<close>

definition start_read_loop ::
  "(string \<Rightarrow> uuid option) \<Rightarrow> pconn \<Rightarrow> (envelope \<Rightarrow> 's \<Rightarrow> goerr option \<times> 's) \<Rightarrow> int \<Rightarrow>
   (int \<times> read_event) list \<Rightarrow> read_end \<Rightarrow> 's \<Rightarrow> int \<times> goerr \<times> 's" where
  "start_read_loop parse p on t0 evs fin s =
     read_loop parse (pc_read_deadline p) on (t0 + pc_read_deadline p) evs fin s"

text \<open>
  C40. What one side marshals for the wire the other side's read loop decodes to the same envelope:
  identifiers (those the UUID parser reads back), type, reply reference, timestamp and the whole
  nested JSON of the data survive \<open>json.Marshal\<close> followed by \<open>json.Unmarshal\<close>.
\<close>

theorem wire_roundtrip:
  assumes "parse (env_id e) = Some (env_id e)"
    and "\<forall>r. env_reply e = Some r \<longrightarrow> parse r = Some r"
    and "rfc3339_ok (env_ts e)"
    and "\<forall>v. env_data e = Some v \<longrightarrow> json_wf v"
  shows "unmarshal_envelope parse (marshal e) = Some e"
  using assms
  by (simp add: unmarshal_envelope_def marshal_def json_parse_print envelope_json_wf envelope_roundtrip)

definition sample_envelope :: envelope where
  "sample_envelope =
     \<lparr>env_id = ''7'', env_type = MsgResult, env_reply = Some ''9'', env_ts = ''2026-01-02T03:04:05Z'',
      env_data = Some (result_json \<lparr>rd_exit_code = -1, rd_duration = 250, rd_output_hash = [], rd_error = ''failed, again''\<rparr>)\<rparr>"

theorem wire_roundtrip_witness:
  "unmarshal_envelope Some (marshal sample_envelope) = Some sample_envelope"
proof (rule wire_roundtrip)
  show "rfc3339_ok (env_ts sample_envelope)" by (simp add: sample_envelope_def) code_simp
qed (simp_all add: sample_envelope_def)

section \<open>The deadline\<close>

definition within_limit :: "(int \<times> read_event) list \<Rightarrow> bool" where
  "within_limit evs \<longleftrightarrow> (\<forall>(t, e) \<in> set evs. \<forall>raw. e = Frame raw \<longrightarrow> length raw \<le> read_limit)"

lemma within_limit_Cons [simp]:
  "within_limit ((t, e) # evs) \<longleftrightarrow> (\<forall>raw. e = Frame raw \<longrightarrow> length raw \<le> read_limit) \<and> within_limit evs"
  by (auto simp: within_limit_def)

definition handle_event ::
  "(string \<Rightarrow> uuid option) \<Rightarrow> (envelope \<Rightarrow> 's \<Rightarrow> goerr option \<times> 's) \<Rightarrow> int \<times> read_event \<Rightarrow> 's \<Rightarrow> 's" where
  "handle_event parse on x s = (case snd x of PongFrame \<Rightarrow> s | Frame raw \<Rightarrow> handle_frame parse on raw s)"

lemma read_loop_cons:
  "read_loop parse rd on dl (x # evs) fin s =
     (if dl < fst x then (dl, io_timeout, s)
      else if \<exists>raw. snd x = Frame raw \<and> read_limit < length raw then (fst x, limit_error, s)
      else read_loop parse rd on (fst x + rd) evs fin (handle_event parse on x s))"
  by (cases x; cases "snd x") (auto simp: handle_event_def)

text \<open>The number of events read before the deadline passes, and the last sign of life before it.\<close>

fun alive_prefix :: "int \<Rightarrow> int \<Rightarrow> (int \<times> read_event) list \<Rightarrow> nat" where
  "alive_prefix rd t0 [] = 0"
| "alive_prefix rd t0 (x # evs) = (if t0 + rd < fst x then 0 else Suc (alive_prefix rd (fst x) evs))"

definition last_life :: "int \<Rightarrow> (int \<times> read_event) list \<Rightarrow> int" where
  "last_life t0 evs = (if evs = [] then t0 else fst (last evs))"

lemma alive_prefix_le: "alive_prefix rd t0 evs \<le> length evs"
  by (induction rd t0 evs rule: alive_prefix.induct) auto

lemma alive_prefix_gap:
  "alive_prefix rd t0 evs < length evs \<Longrightarrow>
     last_life t0 (take (alive_prefix rd t0 evs) evs) + rd < fst (evs ! alive_prefix rd t0 evs)"
proof (induction rd t0 evs rule: alive_prefix.induct)
  case (2 rd t0 x evs)
  then show ?case
    by (cases "take (alive_prefix rd (fst x) evs) evs") (auto simp: last_life_def split: if_splits)
qed simp

lemma alive_prefix_all:
  "\<forall>i < length evs. fst (evs ! i) \<le> last_life t0 (take i evs) + rd \<Longrightarrow> alive_prefix rd t0 evs = length evs"
  by (meson alive_prefix_gap alive_prefix_le le_neq_implies_less not_le)

lemma read_loop_silent:
  "within_limit evs \<Longrightarrow>
   read_loop parse rd on (t0 + rd) evs Silent s =
     (let k = alive_prefix rd t0 evs
      in (last_life t0 (take k evs) + rd, io_timeout, fold (handle_event parse on) (take k evs) s))"
proof (induction evs arbitrary: t0 s)
  case (Cons x evs)
  obtain t e where x: "x = (t, e)" by force
  show ?case
  proof (cases "t0 + rd < t")
    case True
    then show ?thesis by (simp add: x read_loop_cons last_life_def)
  next
    case False
    have "read_loop parse rd on (t0 + rd) (x # evs) Silent s =
      read_loop parse rd on (t + rd) evs Silent (handle_event parse on x s)"
      using False Cons.prems by (auto simp: x read_loop_cons)
    with Cons.IH[of t "handle_event parse on x s"] Cons.prems False show ?thesis
      by (cases "take (alive_prefix rd t evs) evs") (auto simp: x Let_def last_life_def)
  qed
qed (simp add: last_life_def)

text \<open>
  C20. A link that goes silent is declared dead, and never before its time: whatever the peer sends
  (frames within the read limit), once it sends nothing more the read loop returns an i/o timeout
  exactly 75 seconds after the last message or pong it read; no sign of life arrived in that
  window; and the handlers have run on exactly the frames read until then, in order.
\<close>

theorem silent_link_times_out:
  assumes "within_limit evs"
  shows "\<exists>k \<le> length evs. let life = last_life t0 (take k evs) in
    start_read_loop parse new_persistent_conn on t0 evs Silent s =
      (life + 75 * second, io_timeout, fold (handle_event parse on) (take k evs) s) \<and>
    (k = length evs \<or> life + 75 * second < fst (evs ! k))"
  using assms alive_prefix_le[of "75 * second" t0 evs] alive_prefix_gap[of "75 * second" t0 evs]
  by (intro exI[of _ "alive_prefix (75 * second) t0 evs"])
     (auto simp: start_read_loop_def new_persistent_conn_def read_deadline_def read_loop_silent
        Let_def le_less)

theorem silent_link_times_out_witness:
  "\<exists>k \<le> (1::nat). start_read_loop Some new_persistent_conn (\<lambda>e s. (None, s @ [env_type e])) 0
     [(second, PongFrame)] Silent [] =
     (last_life 0 (take k [(second, PongFrame)]) + 75 * second, io_timeout,
      fold (handle_event Some (\<lambda>e s. (None, s @ [env_type e]))) (take k [(second, PongFrame)]) [])"
  using silent_link_times_out[of "[(second, PongFrame)]" 0 Some "\<lambda>e s. (None, s @ [env_type e])" "[]"]
  by (auto simp: Let_def within_limit_def)

text \<open>Any peer: the loop returns, and no later than 75 seconds after the last event.\<close>

lemma read_loop_returns_by:
  assumes "\<forall>x \<in> set evs. fst x \<le> t" "t0 \<le> t" "0 \<le> rd"
  shows "fst (read_loop parse rd on (t0 + rd) evs fin s) \<le> t + rd"
  using assms(1,2)
proof (induction evs arbitrary: t0 s)
  case Nil
  then show ?case using assms(3) by (cases fin) auto
next
  case (Cons x evs)
  then show ?case using Cons.IH[of "fst x"] assms(3) by (auto simp: read_loop_cons)
qed

section \<open>Healthy idle links\<close>

text \<open>The agent's ping \<open>k\<close> leaves at \<open>t0 + 25 s * (k + 1)\<close>; its pong arrives \<open>rtt k\<close> later.\<close>

definition pong_timeline :: "int \<Rightarrow> (nat \<Rightarrow> int) \<Rightarrow> nat \<Rightarrow> (int \<times> read_event) list" where
  "pong_timeline t0 rtt n = map (\<lambda>k. (t0 + ping_interval * (int k + 1) + rtt k, PongFrame)) [0..<n]"

text \<open>
  C36. An idle link whose peer answers every control ping in under 50 seconds never times out: after
  any number \<open>n\<close> of answered pings the read loop is still waiting, and if the peer then disappears
  it times out 75 seconds after the last pong.
\<close>

theorem healthy_link_survives:
  assumes "\<forall>k. 0 \<le> rtt k \<and> rtt k < 50 * second"
  shows "start_read_loop parse new_persistent_conn on t0 (pong_timeline t0 rtt n) Silent s =
    ((if n = 0 then t0 else t0 + ping_interval * int n + rtt (n - 1)) + 75 * second, io_timeout, s)"
proof -
  let ?evs = "pong_timeline t0 rtt n" and ?rd = "75 * second"
  have nth: "?evs ! i = (t0 + ping_interval * (int i + 1) + rtt i, PongFrame)" if "i < n" for i
    using that by (simp add: pong_timeline_def)
  have len: "length ?evs = n" by (simp add: pong_timeline_def)
  have lastk: "last_life t0 (take i ?evs) =
      (if i = 0 then t0 else t0 + ping_interval * int i + rtt (i - 1))" if "i \<le> n" for i
  proof (cases i)
    case (Suc j)
    then have "take i ?evs = take j ?evs @ [?evs ! j]" using that len by (simp add: take_Suc_conv_app_nth)
    then show ?thesis using Suc that nth[of j] by (simp add: last_life_def)
  qed (simp add: last_life_def)
  have "fst (?evs ! i) \<le> last_life t0 (take i ?evs) + ?rd" if "i < n" for i
  proof -
    have "0 \<le> rtt (i - 1)" "rtt i < 50 * second" using assms by auto
    moreover have "0 \<le> rtt i" using assms by auto
    ultimately show ?thesis
      using that lastk[of i] nth[of i] by (cases i) (auto simp: ping_interval_def second_def algebra_simps)
  qed
  then have all: "alive_prefix ?rd t0 ?evs = n" using alive_prefix_all[of ?evs t0 ?rd] len by simp
  have "within_limit ?evs" by (auto simp: within_limit_def pong_timeline_def)
  moreover have "fold (handle_event parse on) ?evs s = s"
    by (induction n) (simp_all add: pong_timeline_def handle_event_def)
  ultimately show ?thesis
    using lastk[of n] len
    by (simp add: start_read_loop_def new_persistent_conn_def read_deadline_def read_loop_silent all Let_def)
qed

theorem healthy_link_survives_witness:
  "start_read_loop Some new_persistent_conn (\<lambda>e s. (None, s)) 0 (pong_timeline 0 (\<lambda>k. 49 * second) 4) Silent ()
     = (224 * second, io_timeout, ())"
  using healthy_link_survives[of "\<lambda>k. 49 * second" Some "\<lambda>e s. (None, s)" 0 4 "()"]
  by (simp add: second_def ping_interval_def)

end
