(* ===== verification/Client.thy ===== *)
theory Client
  imports Liveness GoUrl
begin

text \<open>
  The client's configuration and what it does with a message (\<open>transport/client.go\<close>): \<open>Config\<close>,
  \<open>tlsConfig\<close>, the dial headers, \<open>dispatch\<close>, \<open>sendInventory\<close> and \<open>telemetryLoop\<close>. The handler
  and provider functions of the configuration are callbacks; the record says which are installed, and
  what a provider returns is an argument of the code that calls it. Loading a key pair and parsing a
  certificate bundle are \<open>crypto/tls\<close> and \<open>crypto/x509\<close> calls, arguments too.
\<close>

section \<open>Configuration\<close>

record client_config =
  cc_server_url :: string
  cc_cert_file :: string
  cc_key_file :: string
  cc_ca_file :: string
  cc_machine_id :: string
  cc_agent_version :: string
  cc_os :: string
  cc_os_version :: string
  cc_inventory_provider :: bool
  cc_telemetry_provider :: bool
  cc_telemetry_interval :: int
  cc_command_handler :: bool
  cc_terminal_handler :: bool
  cc_screen_handler :: bool
  cc_insecure :: bool

record ('c, 'p) tls_settings =
  tls_skip_verify :: bool
  tls_certificate :: "'c option"
  tls_root_cas :: "'p option"
  tls_min_12 :: bool

definition tls_config ::
  "(path \<Rightarrow> path \<Rightarrow> 'c res) \<Rightarrow> (path \<Rightarrow> string res) \<Rightarrow> (string \<Rightarrow> 'p option) \<Rightarrow>
   client_config \<Rightarrow> ('c, 'p) tls_settings res" where
  "tls_config load_keypair read_file append_certs cfg =
     (if cc_insecure cfg then
        Inr \<lparr>tls_skip_verify = True, tls_certificate = None, tls_root_cas = None, tls_min_12 = False\<rparr>
      else if cc_cert_file cfg = [] \<or> cc_key_file cfg = [] \<or> cc_ca_file cfg = [] then
        Inl (Msg ''transport: cert/key/ca paths required when not in insecure mode'')
      else (case load_keypair (cc_cert_file cfg) (cc_key_file cfg) of
          Inl e \<Rightarrow> Inl (wrapf ''load keypair: '' e)
        | Inr cert \<Rightarrow>
            (case read_file (cc_ca_file cfg) of
               Inl e \<Rightarrow> Inl (wrapf ''read CA: '' e)
             | Inr ca \<Rightarrow>
                 (case append_certs ca of
                    None \<Rightarrow> Inl (Msg ''transport: CA file did not contain a usable certificate'')
                  | Some pool \<Rightarrow>
                      Inr \<lparr>tls_skip_verify = False, tls_certificate = Some cert,
                           tls_root_cas = Some pool, tls_min_12 = True\<rparr>))))"

definition dial_headers :: "client_config \<Rightarrow> (string \<times> string) list" where
  "dial_headers cfg =
     (if cc_insecure cfg \<and> cc_machine_id cfg \<noteq> []
      then [(''X-Dev-Machine-Id'', cc_machine_id cfg)] else [])"

definition hello_envelope :: "uuid \<Rightarrow> string \<Rightarrow> client_config \<Rightarrow> envelope" where
  "hello_envelope fresh ts cfg =
     new_envelope fresh ts MsgHello uuid_nil None
       (Some (hello_json \<lparr>he_protocol_version = ProtocolVersion, he_agent_version = cc_agent_version cfg,
          he_machine_id = cc_machine_id cfg, he_os = cc_os cfg, he_os_version = cc_os_version cfg,
          he_inventory_checksum = []\<rparr>))"

text \<open>
  Server verification is only ever off in the explicit insecure mode: \<open>tlsConfig\<close> returns a
  configuration that skips verification exactly when \<open>Insecure\<close> is set, and otherwise every
  configuration it returns carries the client certificate of the configured pair, the pool of the
  configured CA file and the TLS 1.2 floor. The development header naming the machine is never sent
  outside that mode.
\<close>

theorem tls_never_silently_insecure:
  assumes "tls_config load_keypair read_file append_certs cfg = Inr t"
  shows "tls_skip_verify t = cc_insecure cfg \<and>
    (\<not> cc_insecure cfg \<longrightarrow>
       dial_headers cfg = [] \<and> tls_min_12 t \<and>
       (\<exists>cert ca pool. load_keypair (cc_cert_file cfg) (cc_key_file cfg) = Inr cert \<and>
          read_file (cc_ca_file cfg) = Inr ca \<and> append_certs ca = Some pool \<and>
          tls_certificate t = Some cert \<and> tls_root_cas t = Some pool))"
  using assms
  by (auto simp: tls_config_def dial_headers_def split: if_splits sum.splits option.splits)

definition sample_client :: client_config where
  "sample_client =
     \<lparr>cc_server_url = ''wss://fleet.example/agent'', cc_cert_file = ''c.pem'', cc_key_file = ''k.pem'',
      cc_ca_file = ''ca.pem'', cc_machine_id = ''m-1'', cc_agent_version = ''1.2.3'',
      cc_os = ''windows'', cc_os_version = [], cc_inventory_provider = True,
      cc_telemetry_provider = True, cc_telemetry_interval = 0, cc_command_handler = True,
      cc_terminal_handler = False, cc_screen_handler = False, cc_insecure = False\<rparr>"

theorem tls_never_silently_insecure_witness:
  "tls_config (\<lambda>c k. Inr (c, k)) Inr Some sample_client =
     Inr \<lparr>tls_skip_verify = False, tls_certificate = Some (''c.pem'', ''k.pem''),
          tls_root_cas = Some ''ca.pem'', tls_min_12 = True\<rparr> \<and> dial_headers sample_client = []"
  using tls_never_silently_insecure[of "\<lambda>c k. Inr (c, k)" Inr Some sample_client
      "\<lparr>tls_skip_verify = False, tls_certificate = Some (''c.pem'', ''k.pem''),
        tls_root_cas = Some ''ca.pem'', tls_min_12 = True\<rparr>"]
  by (simp add: tls_config_def sample_client_def)

section \<open>Dispatch\<close>

text \<open>A goroutine the dispatcher starts.\<close>

datatype task =
    SendInventory
  | RunCommand envelope
  | RunTerminal envelope
  | RunScreen envelope

definition dispatch ::
  "client_config \<Rightarrow> uuid \<Rightarrow> string \<Rightarrow> goerr option \<Rightarrow> envelope \<Rightarrow> pconn \<Rightarrow>
   (goerr option \<times> task option \<times> pconn) list" where
  "dispatch cfg fresh ts ctx env p =
     (if env_type env = MsgHelloAck then
        (case decode_data decode_hello_ack env of
           Inl e \<Rightarrow> [(Some e, None, p)]
         | Inr ack \<Rightarrow>
             [(None, if ha_needs_inventory ack \<and> cc_inventory_provider cfg then Some SendInventory
                     else None, p)])
      else if env_type env = MsgPing then
        map (\<lambda>(r, p'). (r, None, p'))
          (send_outcomes ctx (new_envelope fresh ts MsgPong uuid_nil (Some (env_id env)) None) p)
      else if env_type env = MsgCommand then
        [(None, if cc_command_handler cfg then Some (RunCommand env) else None, p)]
      else if env_type env \<in> {MsgTerminalOpen, MsgTerminalInput, MsgTerminalResize, MsgTerminalClose} then
        [(None, if cc_terminal_handler cfg then Some (RunTerminal env) else None, p)]
      else if env_type env \<in> {MsgScreenStart, MsgScreenStop} then
        [(None, if cc_screen_handler cfg then Some (RunScreen env) else None, p)]
      else [(None, None, p)])"

text \<open>\<open>sendInventory\<close>; the provider's result \<open>snapshot\<close> is \<open>None\<close> when no provider is installed.\<close>

definition send_inventory ::
  "uuid \<Rightarrow> string \<Rightarrow> goerr option \<Rightarrow> inventory_data res option \<Rightarrow> pconn \<Rightarrow> pconn list" where
  "send_inventory fresh ts ctx snapshot p =
     (case snapshot of
        Some (Inr d) \<Rightarrow>
          map snd (send_outcomes ctx
            (new_envelope fresh ts MsgInventory uuid_nil None (Some (inventory_json d))) p)
      | _ \<Rightarrow> [p])"

text \<open>
  \<open>telemetryLoop\<close>: the interval, and one turn of the loop. Without a provider the loop only waits
  for the context. A provider error skips the tick, a failed send ends the loop.
\<close>

definition default_telemetry_interval :: int where
  "default_telemetry_interval = 15 * second"

definition telemetry_interval :: "client_config \<Rightarrow> int" where
  "telemetry_interval cfg =
     (if cc_telemetry_interval cfg \<le> 0 then default_telemetry_interval else cc_telemetry_interval cfg)"

definition telemetry_turn ::
  "client_config \<Rightarrow> uuid \<Rightarrow> string \<Rightarrow> goerr option \<Rightarrow> bool \<Rightarrow> json res \<Rightarrow> pconn \<Rightarrow>
   ((goerr option + unit) \<times> pconn) list" where
  "telemetry_turn cfg fresh ts ctx tick sample p =
     (case ctx of None \<Rightarrow> [] | Some e \<Rightarrow> [(Inl (Some e), p)]) @
     (if cc_telemetry_provider cfg \<and> tick then
        (case sample of
           Inl e \<Rightarrow> [(Inr (), p)]
         | Inr d \<Rightarrow>
             map (\<lambda>(r, p'). (case r of Some e \<Rightarrow> Inl (Some e) | None \<Rightarrow> Inr (), p'))
               (send_outcomes ctx (new_envelope fresh ts MsgTelemetry uuid_nil None (Some d)) p))
      else [])"

lemma telemetry_turn_returns_error:
  "(Inl r, p') \<in> set (telemetry_turn cfg fresh ts ctx tick sample p) \<Longrightarrow> r \<noteq> None"
  by (auto simp: telemetry_turn_def split: option.splits sum.splits if_splits)

text \<open>
  What an inbound message can cause, for every type and configuration: the only frame the
  dispatcher itself queues is the pong answering a ping, tied to it by \<open>in_reply_to\<close>; a handler
  goroutine starts exactly for a message of its types when that handler is installed, the inventory
  goroutine exactly for a decodable hello_ack that asks for it; everything else is dropped, and an
  error is returned only for an undecodable hello_ack or a failed pong.
\<close>

theorem dispatch_effects:
  assumes "(r, t, p') \<in> set (dispatch cfg fresh ts ctx env p)"
  shows "(p' \<noteq> p \<longrightarrow> env_type env = MsgPing \<and> r = None \<and>
      p' = p\<lparr>pc_send := pc_send p @
        [marshal (new_envelope fresh ts MsgPong uuid_nil (Some (env_id env)) None)]\<rparr>) \<and>
    (t = Some (RunCommand e) \<longleftrightarrow> e = env \<and> env_type env = MsgCommand \<and> cc_command_handler cfg) \<and>
    (t = Some (RunTerminal e) \<longleftrightarrow> e = env \<and> cc_terminal_handler cfg \<and>
       env_type env \<in> {MsgTerminalOpen, MsgTerminalInput, MsgTerminalResize, MsgTerminalClose}) \<and>
    (t = Some (RunScreen e) \<longleftrightarrow> e = env \<and> cc_screen_handler cfg \<and>
       env_type env \<in> {MsgScreenStart, MsgScreenStop}) \<and>
    (t = Some SendInventory \<longleftrightarrow> env_type env = MsgHelloAck \<and> cc_inventory_provider cfg \<and>
       (\<exists>ack. decode_data decode_hello_ack env = Inr ack \<and> ha_needs_inventory ack)) \<and>
    (r \<noteq> None \<longrightarrow> env_type env = MsgHelloAck \<or> env_type env = MsgPing)"
proof (cases "env_type env = MsgHelloAck")
  case True
  with assms show ?thesis
    by (auto simp: dispatch_def message_types split: sum.splits if_splits)
next
  case False
  then show ?thesis
  proof (cases "env_type env = MsgPing")
    case True
    with assms show ?thesis
      by (auto simp: dispatch_def message_types send_outcomes_def split: option.splits if_splits)
  next
    case False
    with \<open>env_type env \<noteq> MsgHelloAck\<close> assms show ?thesis
      by (auto simp: dispatch_def message_types split: if_splits)
  qed
qed

definition sample_ping :: envelope where
  "sample_ping = \<lparr>env_id = ''p1'', env_type = MsgPing, env_reply = None, env_ts = ''t'', env_data = None\<rparr>"

theorem dispatch_effects_witness:
  "\<exists>p'. (None, None, p') \<in> set (dispatch sample_client ''f'' ''t'' None sample_ping new_persistent_conn) \<and>
     p' \<noteq> new_persistent_conn \<and>
     p' = new_persistent_conn\<lparr>pc_send :=
       [marshal (new_envelope ''f'' ''t'' MsgPong uuid_nil (Some ''p1'') None)]\<rparr>"
proof -
  let ?p = "new_persistent_conn\<lparr>pc_send :=
    [marshal (new_envelope ''f'' ''t'' MsgPong uuid_nil (Some ''p1'') None)]\<rparr>"
  have mem: "(None, None, ?p) \<in> set (dispatch sample_client ''f'' ''t'' None sample_ping new_persistent_conn)"
    by (simp add: dispatch_def sample_ping_def message_types send_outcomes_def new_persistent_conn_def
        send_capacity_def)
  have "?p \<noteq> new_persistent_conn" by (simp add: new_persistent_conn_def)
  with dispatch_effects[OF mem] mem show ?thesis by blast
qed

text \<open>A pong is always possible on a live connection with room; the dispatcher cannot get stuck then.\<close>

lemma dispatch_progress:
  "length (pc_send p) < send_capacity \<Longrightarrow> dispatch cfg fresh ts ctx env p \<noteq> []"
  by (simp add: dispatch_def send_outcomes_def split: sum.splits)

end
