(* ===== verification/Backoff.thy ===== *)
theory Backoff
  imports Prelude
begin

text \<open>
  The reconnect schedule of \<open>transport/client.go\<close>: \<open>Backoff\<close>, \<open>NewBackoff\<close>, \<open>Next\<close> and
  \<open>Reset\<close>. Durations are nanoseconds in 64-bit two's complement, so the doubling wraps.
\<close>

section \<open>Model\<close>

record backoff =
  b_min :: int
  b_max :: int
  b_cur :: int

definition new_backoff :: "int \<Rightarrow> int \<Rightarrow> backoff" where
  "new_backoff mn mx =
     (let mn' = (if mn \<le> 0 then second else mn);
          mx' = (if mx \<le> 0 \<or> mx < mn' then 60 * second else mx)
      in \<lparr>b_min = mn', b_max = mx', b_cur = 0\<rparr>)"

definition next_delay :: "backoff \<Rightarrow> int \<times> backoff" where
  "next_delay b =
     (if b_cur b = 0 then (b_min b, b\<lparr>b_cur := b_min b\<rparr>)
      else let d = wrap64 (b_cur b * 2);
               d' = (if b_max b < d then b_max b else d)
           in (d', b\<lparr>b_cur := d'\<rparr>))"

definition reset_backoff :: "backoff \<Rightarrow> backoff" where
  "reset_backoff b = b\<lparr>b_cur := 0\<rparr>"

text \<open>The delays of \<open>n\<close> successive calls.\<close>

primrec delays :: "nat \<Rightarrow> backoff \<Rightarrow> int list" where
  "delays 0 b = []"
| "delays (Suc n) b = fst (next_delay b) # delays n (snd (next_delay b))"

section \<open>The schedule\<close>

definition sane_backoff :: "backoff \<Rightarrow> bool" where
  "sane_backoff b \<longleftrightarrow> 0 < b_min b \<and> b_min b \<le> b_max b \<and> b_max b < 2 ^ 62 \<and>
     (b_cur b = 0 \<or> b_min b \<le> b_cur b \<and> b_cur b \<le> b_max b)"

lemma new_backoff_valid:
  "0 < mn \<Longrightarrow> mn \<le> mx \<Longrightarrow> new_backoff mn mx = \<lparr>b_min = mn, b_max = mx, b_cur = 0\<rparr>"
  by (simp add: new_backoff_def)

lemma double_no_wrap: "0 \<le> c \<Longrightarrow> c < 2 ^ 62 \<Longrightarrow> wrap64 (c * 2) = c * 2"
  by (rule wrap64_id) (simp add: in_int64_def)

lemma next_delay_sane:
  assumes "sane_backoff b"
  shows "sane_backoff (snd (next_delay b))"
    and "b_min b \<le> fst (next_delay b)" and "fst (next_delay b) \<le> b_max b"
    and "b_cur (snd (next_delay b)) = fst (next_delay b)"
  using assms double_no_wrap[of "b_cur b"]
  by (auto simp: sane_backoff_def next_delay_def Let_def)

lemma delays_from_current:
  assumes "0 < mn" "mn \<le> c" "c \<le> mx" "mx < 2 ^ 62"
  shows "delays n \<lparr>b_min = mn, b_max = mx, b_cur = c\<rparr> = map (\<lambda>k. min (c * 2 ^ Suc k) mx) [0..<n]"
  using assms(2,3)
proof (induction n arbitrary: c)
  case (Suc n)
  let ?d = "min (c * 2) mx"
  have nd: "next_delay \<lparr>b_min = mn, b_max = mx, b_cur = c\<rparr> = (?d, \<lparr>b_min = mn, b_max = mx, b_cur = ?d\<rparr>)"
    using Suc.prems assms(1,4) double_no_wrap[of c] by (auto simp: next_delay_def Let_def)
  have step: "min (?d * 2 ^ Suc k) mx = min (c * 2 ^ Suc (Suc k)) mx" for k
  proof (cases "c * 2 \<le> mx")
    case False
    have "(1::int) \<le> 2 ^ Suc k" and "(1::int) \<le> 2 ^ Suc k" by (simp_all only: one_le_power)
    then have "mx * 1 \<le> mx * 2 ^ Suc k" "(c * 2) * 1 \<le> (c * 2) * 2 ^ Suc k"
      using Suc.prems assms(1) by (auto intro: mult_left_mono simp del: power_Suc)
    with False show ?thesis by (simp add: min_def)
  qed (simp add: min_def)
  have "mn \<le> ?d" "?d \<le> mx" using Suc.prems assms(1) by auto
  from Suc.IH[OF this] show ?case
    by (simp add: nd step map_upt_Suc del: upt_Suc power_Suc)
qed simp

lemma delays_new:
  assumes "0 < mn" "mn \<le> mx" "mx < 2 ^ 62"
  shows "delays n (new_backoff mn mx) = map (\<lambda>k. min (mn * 2 ^ k) mx) [0..<n]"
proof (cases n)
  case (Suc m)
  have "next_delay (new_backoff mn mx) = (mn, \<lparr>b_min = mn, b_max = mx, b_cur = mn\<rparr>)"
    using assms by (simp add: new_backoff_valid next_delay_def)
  with assms Suc show ?thesis
    by (simp add: delays_from_current map_upt_Suc del: upt_Suc power_Suc)
qed simp

text \<open>
  The reconnect schedule is the documented one: for any bounds with \<open>0 < min \<le> max\<close> whose
  doubling stays in 64 bits, the \<open>k\<close>-th call of \<open>Next\<close> (from 0) returns \<open>min * 2^k\<close> capped at
  \<open>max\<close>; and \<open>Reset\<close> rewinds it, so the delays start over from \<open>min\<close> wherever the schedule was.
\<close>

theorem backoff_schedule:
  assumes "0 < mn" "mn \<le> mx" "mx < 2 ^ 62"
  shows "delays n (new_backoff mn mx) = map (\<lambda>k. min (mn * 2 ^ k) mx) [0..<n] \<and>
    delays n (reset_backoff ((new_backoff mn mx)\<lparr>b_cur := c\<rparr>)) = map (\<lambda>k. min (mn * 2 ^ k) mx) [0..<n]"
proof -
  have "reset_backoff ((new_backoff mn mx)\<lparr>b_cur := c\<rparr>) = new_backoff mn mx"
    by (simp add: reset_backoff_def new_backoff_def Let_def)
  with delays_new[OF assms, of n] show ?thesis by simp
qed

text \<open>The client's own bounds: one second doubling to a minute.\<close>

theorem backoff_schedule_witness:
  "delays 8 (new_backoff second (60 * second)) = map ((*) second) [1, 2, 4, 8, 16, 32, 60, 60]"
  using backoff_schedule[of second "60 * second" 8 0] by (simp add: second_def upt_rec)

text \<open>
  Outside those bounds \<open>NewBackoff\<close> and \<open>Next\<close> do not keep \<open>Max\<close>: a minimum above a minute with
  no valid maximum is returned as it is by the first call, and a current delay of \<open>2^62\<close> wraps.
\<close>

lemma new_backoff_min_above_default:
  assumes "60 * second < mn" "mx \<le> 0"
  shows "b_max (new_backoff mn mx) < fst (next_delay (new_backoff mn mx))"
  using assms by (auto simp: new_backoff_def next_delay_def Let_def second_def)

lemma next_delay_wraps:
  "fst (next_delay \<lparr>b_min = 1, b_max = 2 ^ 62, b_cur = 2 ^ 62\<rparr>) = - (2 ^ 63)"
  by (simp add: next_delay_def wrap64_def Let_def)

end
