(* ===== verification/ClientRun.thy ===== *)
theory ClientRun
  imports Client Backoff
begin

text \<open>
  The reconnect loop of \<open>transport/client.go\<close>: \<open>Client\<close>, \<open>Run\<close>, \<open>connectAndServe\<close> with its
  deferred function, \<open>SetPaused\<close>, \<open>Stats\<close> and \<open>Paused\<close>, as a state machine. The goroutine
  running \<open>Run\<close> advances through the program points of \<open>run_pc\<close>, one step per critical section or
  blocking operation; between any two of its steps other goroutines may call \<open>SetPaused\<close> and the
  caller may cancel the context.
\<close>

section \<open>State\<close>

text \<open>
  The program points of \<open>Run\<close> and, within an attempt, of \<open>connectAndServe\<close>. \<open>RunWait g\<close> holds
  the generation of the wake channel captured at the pause check; \<open>AttemptClear\<close> and
  \<open>AttemptCancel\<close> are the two halves of the deferred function, before and after \<open>cancel()\<close>.
\<close>

datatype run_pc =
    RunTop
  | RunCheck
  | RunWait nat
  | AttemptRegister
  | AttemptTLS
  | AttemptDial
  | AttemptHello
  | AttemptMark
  | AttemptServe
  | AttemptClear "goerr option"
  | AttemptCancel "goerr option"
  | RunStats "goerr option"
  | RunBranch "goerr option"
  | RunSleep int
  | RunReturned "goerr option"

record conn_stats =
  s_connected :: bool
  s_connected_since :: "int option"
  s_connect_count :: nat
  s_last_error :: string

text \<open>
  \<open>c_wake\<close> numbers the current wake channel: the channels of smaller numbers have been closed.
  \<open>c_cancel_current\<close> says \<open>cancelCurrent\<close> is set, which is then the cancel function of the running
  attempt. \<open>c_attempt_cancelled\<close> is the state of \<open>attemptCtx\<close> apart from its parent. The last two
  fields only record what happened: the dials started, and the delays slept.
\<close>

record client =
  c_running :: bool
  c_stats :: conn_stats
  c_paused :: bool
  c_wake :: nat
  c_cancel_current :: bool
  c_attempt_cancelled :: bool
  c_ctx_done :: bool
  c_backoff :: backoff
  c_pc :: run_pc
  c_dials :: nat
  c_delays :: "int list"

definition zero_stats :: conn_stats where
  "zero_stats = \<lparr>s_connected = False, s_connected_since = None, s_connect_count = 0, s_last_error = []\<rparr>"

text \<open>\<open>NewClient\<close> followed by \<open>Run\<close>'s entry: the run goroutine stands at the top of its loop.\<close>

definition run_start :: client where
  "run_start =
     \<lparr>c_running = True, c_stats = zero_stats, c_paused = False, c_wake = 0, c_cancel_current = False,
      c_attempt_cancelled = False, c_ctx_done = False,
      c_backoff = new_backoff second (60 * second), c_pc = RunTop, c_dials = 0, c_delays = []\<rparr>"

text \<open>A second \<open>Run\<close> on the same client.\<close>

definition run_entry :: "bool \<Rightarrow> goerr option \<times> bool" where
  "run_entry running = (if running then (Some (Sentinel ErrAlreadyRunning), running) else (None, True))"

definition set_paused :: "bool \<Rightarrow> client \<Rightarrow> client" where
  "set_paused b c =
     c\<lparr>c_paused := b,
       c_attempt_cancelled := (c_attempt_cancelled c \<or> b \<and> c_cancel_current c),
       c_wake := Suc (c_wake c)\<rparr>"

definition attempt_err :: "client \<Rightarrow> goerr option" where
  "attempt_err c = (if c_ctx_done c \<or> c_attempt_cancelled c then Some (Sentinel ErrCanceled) else None)"

definition outer_err :: "client \<Rightarrow> goerr option" where
  "outer_err c = (if c_ctx_done c then Some (Sentinel ErrCanceled) else None)"

section \<open>Steps\<close>

text \<open>
  What the run goroutine meets at a step: nothing (\<open>Go\<close>), a ready case of the \<open>select\<close> it is in,
  the result of \<open>tlsConfig\<close> and of the dial, or the time of day.
\<close>

datatype run_event =
    Go
  | CtxDone
  | Woken
  | TLSResult "goerr option"
  | DialResult "goerr option"
  | MarkedAt int
  | PumpReturned goerr
  | TimerFired

definition deferred_result :: "client \<Rightarrow> goerr option \<Rightarrow> goerr option" where
  "deferred_result c r =
     (if r \<noteq> None \<and> outer_err c = None \<and> attempt_err c \<noteq> None
      then Some (Sentinel ErrPausedMidConnection) else r)"

text \<open>The pumps share one channel each; the hello goes through \<open>Send\<close> on the fresh connection.\<close>

definition hello_outcomes :: "client_config \<Rightarrow> client \<Rightarrow> goerr option list" where
  "hello_outcomes cfg c =
     map fst (send_outcomes (attempt_err c) (hello_envelope uuid_nil zero_time cfg) new_persistent_conn)"

fun run_step :: "client_config \<Rightarrow> run_event \<Rightarrow> client \<Rightarrow> client option" where
  "run_step cfg ev c =
     (case c_pc c of
        RunTop \<Rightarrow>
          (if ev = Go then Some (c\<lparr>c_pc := (if c_ctx_done c then RunReturned None else RunCheck)\<rparr>) else None)
      | RunCheck \<Rightarrow>
          (if ev = Go
           then Some (c\<lparr>c_pc := (if c_paused c then RunWait (c_wake c) else AttemptRegister)\<rparr>) else None)
      | RunWait g \<Rightarrow>
          (if ev = CtxDone \<and> c_ctx_done c then Some (c\<lparr>c_pc := RunReturned None\<rparr>)
           else if ev = Woken \<and> g < c_wake c then Some (c\<lparr>c_pc := RunTop\<rparr>) else None)
      | AttemptRegister \<Rightarrow>
          (if ev = Go
           then Some (c\<lparr>c_cancel_current := True, c_attempt_cancelled := False, c_pc := AttemptTLS\<rparr>)
           else None)
      | AttemptTLS \<Rightarrow>
          (case ev of
             TLSResult (Some e) \<Rightarrow> Some (c\<lparr>c_pc := AttemptClear (Some (wrapf ''tls: '' e))\<rparr>)
           | TLSResult None \<Rightarrow>
               (case url_parse (cc_server_url cfg) of
                  Inl e \<Rightarrow> Some (c\<lparr>c_pc := AttemptClear (Some (wrapf ''parse url: '' e))\<rparr>)
                | Inr u \<Rightarrow> Some (c\<lparr>c_pc := AttemptDial, c_dials := Suc (c_dials c)\<rparr>))
           | _ \<Rightarrow> None)
      | AttemptDial \<Rightarrow>
          (case ev of
             DialResult (Some e) \<Rightarrow> Some (c\<lparr>c_pc := AttemptClear (Some (wrapf ''dial: '' e))\<rparr>)
           | DialResult None \<Rightarrow> Some (c\<lparr>c_pc := AttemptHello\<rparr>)
           | _ \<Rightarrow> None)
      | AttemptHello \<Rightarrow>
          (if ev = Go \<and> None \<in> set (hello_outcomes cfg c) then Some (c\<lparr>c_pc := AttemptMark\<rparr>)
           else if ev = CtxDone \<and> Some (Sentinel ErrCanceled) \<in> set (hello_outcomes cfg c)
           then Some (c\<lparr>c_pc := AttemptClear (Some (wrapf ''send hello: '' (Sentinel ErrCanceled)))\<rparr>)
           else None)
      | AttemptMark \<Rightarrow>
          (case ev of
             MarkedAt t \<Rightarrow>
               Some (c\<lparr>c_stats := (c_stats c)\<lparr>s_connected := True, s_connected_since := Some t,
                         s_connect_count := Suc (s_connect_count (c_stats c))\<rparr>,
                       c_pc := AttemptServe\<rparr>)
           | _ \<Rightarrow> None)
      | AttemptServe \<Rightarrow>
          (case ev of
             PumpReturned e \<Rightarrow> Some (c\<lparr>c_pc := AttemptClear (Some e)\<rparr>)
           | CtxDone \<Rightarrow>
               (if c_ctx_done c then Some (c\<lparr>c_pc := AttemptClear (outer_err c)\<rparr>) else None)
           | _ \<Rightarrow> None)
      | AttemptClear r \<Rightarrow>
          (if ev = Go then Some (c\<lparr>c_cancel_current := False, c_pc := AttemptCancel r\<rparr>) else None)
      | AttemptCancel r \<Rightarrow>
          (if ev = Go
           then (let c' = c\<lparr>c_attempt_cancelled := True\<rparr>
                 in Some (c'\<lparr>c_pc := RunStats (deferred_result c' r)\<rparr>))
           else None)
      | RunStats r \<Rightarrow>
          (if ev = Go
           then Some (c\<lparr>c_stats := (c_stats c)\<lparr>s_connected := False, s_connected_since := None,
                          s_last_error := (case r of None \<Rightarrow> s_last_error (c_stats c)
                                                   | Some e \<Rightarrow> err_text e)\<rparr>,
                        c_pc := RunBranch r\<rparr>)
           else None)
      | RunBranch r \<Rightarrow>
          (if ev \<noteq> Go then None
           else (case r of
              None \<Rightarrow> Some (c\<lparr>c_pc := RunReturned None\<rparr>)
            | Some e \<Rightarrow>
                if errors_is e ErrCanceled then Some (c\<lparr>c_pc := RunReturned None\<rparr>)
                else if errors_is e ErrPausedMidConnection then Some (c\<lparr>c_pc := RunTop\<rparr>)
                else (case next_delay (c_backoff c) of
                        (d, b) \<Rightarrow> Some (c\<lparr>c_backoff := b, c_delays := c_delays c @ [d],
                                           c_pc := RunSleep d\<rparr>))))
      | RunSleep d \<Rightarrow>
          (if ev = CtxDone \<and> c_ctx_done c then Some (c\<lparr>c_pc := RunReturned None\<rparr>)
           else if ev = TimerFired then Some (c\<lparr>c_pc := RunTop\<rparr>) else None)
      | RunReturned r \<Rightarrow> None)"

declare run_step.simps [simp del]

text \<open>The whole client: the run goroutine, callers of \<open>SetPaused\<close>, and the end of the context.\<close>

datatype client_event = Thread run_event | SetPaused bool | CancelCtx

definition client_step :: "client_config \<Rightarrow> client_event \<Rightarrow> client \<Rightarrow> client option" where
  "client_step cfg ev c =
     (case ev of
        Thread e \<Rightarrow> run_step cfg e c
      | SetPaused b \<Rightarrow> Some (set_paused b c)
      | CancelCtx \<Rightarrow> Some (c\<lparr>c_ctx_done := True\<rparr>))"

fun client_exec :: "client_config \<Rightarrow> client_event list \<Rightarrow> client \<Rightarrow> client option" where
  "client_exec cfg [] c = Some c"
| "client_exec cfg (ev # evs) c = Option.bind (client_step cfg ev c) (client_exec cfg evs)"

inductive client_reach :: "client_config \<Rightarrow> client \<Rightarrow> bool" for cfg where
  at_start: "client_reach cfg run_start"
| by_step: "client_reach cfg c \<Longrightarrow> client_step cfg ev c = Some c' \<Longrightarrow> client_reach cfg c'"

lemma client_reach_exec: "client_reach cfg c \<Longrightarrow> client_exec cfg evs c = Some c' \<Longrightarrow> client_reach cfg c'"
proof (induction evs arbitrary: c)
  case (Cons ev evs)
  then show ?case by (auto simp: bind_eq_Some_conv intro: by_step)
qed simp

lemma client_exec_append:
  "client_exec cfg (xs @ ys) c = Option.bind (client_exec cfg xs c) (client_exec cfg ys)"
  by (induction xs arbitrary: c) (auto split: bind_splits)

section \<open>Invariant\<close>

primrec in_attempt :: "run_pc \<Rightarrow> bool" where
  "in_attempt RunTop = False"
| "in_attempt RunCheck = False"
| "in_attempt (RunWait g) = False"
| "in_attempt AttemptRegister = False"
| "in_attempt AttemptTLS = True"
| "in_attempt AttemptDial = True"
| "in_attempt AttemptHello = True"
| "in_attempt AttemptMark = True"
| "in_attempt AttemptServe = True"
| "in_attempt (AttemptClear r) = True"
| "in_attempt (AttemptCancel r) = False"
| "in_attempt (RunStats r) = False"
| "in_attempt (RunBranch r) = False"
| "in_attempt (RunSleep d) = False"
| "in_attempt (RunReturned r) = False"

text \<open>The program points at which the connection may be marked connected.\<close>

primrec may_be_connected :: "run_pc \<Rightarrow> bool" where
  "may_be_connected RunTop = False"
| "may_be_connected RunCheck = False"
| "may_be_connected (RunWait g) = False"
| "may_be_connected AttemptRegister = False"
| "may_be_connected AttemptTLS = False"
| "may_be_connected AttemptDial = False"
| "may_be_connected AttemptHello = False"
| "may_be_connected AttemptMark = False"
| "may_be_connected AttemptServe = True"
| "may_be_connected (AttemptClear r) = True"
| "may_be_connected (AttemptCancel r) = True"
| "may_be_connected (RunStats r) = True"
| "may_be_connected (RunBranch r) = False"
| "may_be_connected (RunSleep d) = False"
| "may_be_connected (RunReturned r) = False"

text \<open>What the value carried by a program point satisfies.\<close>

definition pc_ok :: "client \<Rightarrow> bool" where
  "pc_ok c =
     (case c_pc c of
        RunWait g \<Rightarrow> g \<le> c_wake c \<and> (g = c_wake c \<longrightarrow> c_paused c)
      | AttemptClear r \<Rightarrow> r \<noteq> None
      | AttemptCancel r \<Rightarrow> r \<noteq> None
      | RunStats r \<Rightarrow> r \<noteq> None \<and> (\<not> c_ctx_done c \<longrightarrow> r = Some (Sentinel ErrPausedMidConnection))
      | RunBranch r \<Rightarrow> r \<noteq> None \<and> (\<not> c_ctx_done c \<longrightarrow> r = Some (Sentinel ErrPausedMidConnection))
      | RunSleep d \<Rightarrow> c_ctx_done c
      | RunReturned r \<Rightarrow> r = None \<and> c_ctx_done c
      | _ \<Rightarrow> True)"

definition stats_ok :: "client \<Rightarrow> bool" where
  "stats_ok c \<longleftrightarrow>
     (s_connected (c_stats c) \<longrightarrow> may_be_connected (c_pc c)) \<and>
     (c_pc c = AttemptServe \<longrightarrow> s_connected (c_stats c)) \<and>
     (s_connected (c_stats c) \<longleftrightarrow> s_connected_since (c_stats c) \<noteq> None) \<and>
     s_connect_count (c_stats c) \<le> c_dials c"

definition live_ok :: "client \<Rightarrow> bool" where
  "live_ok c \<longleftrightarrow>
     (\<not> c_ctx_done c \<longrightarrow> c_delays c = [] \<and>
        s_last_error (c_stats c) \<in> {[], ''transport: paused''})"

text \<open>A connection counted is a dial made: the dial in progress is not yet counted.\<close>

primrec dial_uncounted :: "run_pc \<Rightarrow> bool" where
  "dial_uncounted RunTop = False"
| "dial_uncounted RunCheck = False"
| "dial_uncounted (RunWait g) = False"
| "dial_uncounted AttemptRegister = False"
| "dial_uncounted AttemptTLS = False"
| "dial_uncounted AttemptDial = True"
| "dial_uncounted AttemptHello = True"
| "dial_uncounted AttemptMark = True"
| "dial_uncounted AttemptServe = False"
| "dial_uncounted (AttemptClear r) = False"
| "dial_uncounted (AttemptCancel r) = False"
| "dial_uncounted (RunStats r) = False"
| "dial_uncounted (RunBranch r) = False"
| "dial_uncounted (RunSleep d) = False"
| "dial_uncounted (RunReturned r) = False"

definition client_inv :: "client \<Rightarrow> bool" where
  "client_inv c \<longleftrightarrow> pc_ok c \<and> stats_ok c \<and> live_ok c \<and>
     (c_cancel_current c \<longleftrightarrow> in_attempt (c_pc c)) \<and>
     (dial_uncounted (c_pc c) \<longrightarrow> s_connect_count (c_stats c) < c_dials c)"

lemmas client_inv_defs = client_inv_def pc_ok_def stats_ok_def live_ok_def

lemma client_inv_start: "client_inv run_start"
  by (simp add: client_inv_defs run_start_def zero_stats_def)

lemma client_inv_set_paused: "client_inv c \<Longrightarrow> client_inv (set_paused b c)"
  by (cases "c_pc c") (auto simp: client_inv_defs set_paused_def)

lemma client_inv_cancel: "client_inv c \<Longrightarrow> client_inv (c\<lparr>c_ctx_done := True\<rparr>)"
  by (cases "c_pc c") (auto simp: client_inv_defs)

lemma deferred_paused:
  "c_attempt_cancelled c \<Longrightarrow> r \<noteq> None \<Longrightarrow>
     deferred_result c r = (if c_ctx_done c then r else Some (Sentinel ErrPausedMidConnection))"
  by (simp add: deferred_result_def outer_err_def attempt_err_def)

lemma client_inv_run_step: "client_inv c \<Longrightarrow> run_step cfg ev c = Some c' \<Longrightarrow> client_inv c'"
proof (cases "c_pc c")
  case AttemptTLS
  assume "client_inv c" "run_step cfg ev c = Some c'"
  with AttemptTLS show ?thesis
    by (auto simp: run_step.simps client_inv_defs split: run_event.splits option.splits sum.splits)
next
  case (AttemptCancel r)
  assume "client_inv c" "run_step cfg ev c = Some c'"
  with AttemptCancel show ?thesis
    by (auto simp: run_step.simps client_inv_defs deferred_paused Let_def split: if_splits)
next
  case (RunStats r)
  assume "client_inv c" "run_step cfg ev c = Some c'"
  with RunStats show ?thesis
    by (auto simp: run_step.simps client_inv_defs split: if_splits)
next
  case (RunBranch r)
  assume "client_inv c" "run_step cfg ev c = Some c'"
  with RunBranch show ?thesis
    by (auto simp: run_step.simps client_inv_defs split: if_splits prod.splits)
qed (auto simp: run_step.simps client_inv_defs outer_err_def
       split: if_splits run_event.splits option.splits)

lemma client_inv_step: "client_inv c \<Longrightarrow> client_step cfg ev c = Some c' \<Longrightarrow> client_inv c'"
  using client_inv_run_step client_inv_set_paused client_inv_cancel
  by (cases ev) (auto simp: client_step_def)

lemma client_reach_inv: "client_reach cfg c \<Longrightarrow> client_inv c"
  by (induction rule: client_reach.induct) (auto intro: client_inv_start client_inv_step)

section \<open>Returning\<close>

text \<open>The most steps the run goroutine still takes once the context is cancelled.\<close>

primrec steps_left :: "run_pc \<Rightarrow> nat" where
  "steps_left RunTop = 1"
| "steps_left RunCheck = 13"
| "steps_left (RunWait g) = 2"
| "steps_left AttemptRegister = 12"
| "steps_left AttemptTLS = 11"
| "steps_left AttemptDial = 10"
| "steps_left AttemptHello = 9"
| "steps_left AttemptMark = 8"
| "steps_left AttemptServe = 7"
| "steps_left (AttemptClear r) = 6"
| "steps_left (AttemptCancel r) = 5"
| "steps_left (RunStats r) = 4"
| "steps_left (RunBranch r) = 3"
| "steps_left (RunSleep d) = 2"
| "steps_left (RunReturned r) = 0"

lemma run_step_ctx: "run_step cfg ev c = Some c' \<Longrightarrow> c_ctx_done c' = c_ctx_done c"
  by (cases "c_pc c")
     (auto simp: run_step.simps Let_def split: if_splits run_event.splits option.splits sum.splits prod.splits)

lemma run_step_paused:
  "run_step cfg ev c = Some c' \<Longrightarrow> c_paused c' = c_paused c \<and> c_wake c' = c_wake c"
  by (cases "c_pc c")
     (auto simp: run_step.simps Let_def split: if_splits run_event.splits option.splits sum.splits prod.splits)

lemma run_step_steps_left:
  "run_step cfg ev c = Some c' \<Longrightarrow> c_ctx_done c \<Longrightarrow> steps_left (c_pc c') < steps_left (c_pc c)"
  by (cases "c_pc c")
     (auto simp: run_step.simps Let_def split: if_splits run_event.splits option.splits sum.splits prod.splits)

lemma hello_can_go: "None \<in> set (hello_outcomes cfg c)"
  by (auto simp: hello_outcomes_def send_outcomes_def new_persistent_conn_def send_capacity_def)

text \<open>Where the run goroutine has no step: after its return, or parked on an open wake channel.\<close>

definition offered :: "run_pc \<Rightarrow> run_event" where
  "offered p =
     (case p of
        AttemptTLS \<Rightarrow> TLSResult (Some (Msg [])) | AttemptDial \<Rightarrow> DialResult None | AttemptMark \<Rightarrow> MarkedAt 0
      | AttemptServe \<Rightarrow> PumpReturned (Msg []) | RunSleep d \<Rightarrow> TimerFired | _ \<Rightarrow> Go)"

lemma run_step_offered:
  "\<forall>r. c_pc c \<noteq> RunReturned r \<Longrightarrow> \<forall>g. c_pc c \<noteq> RunWait g \<Longrightarrow> run_step cfg (offered (c_pc c)) c \<noteq> None"
  by (cases "c_pc c")
     (simp_all add: run_step.simps offered_def hello_can_go Let_def split: option.splits prod.splits)

text \<open>The steps at single program points.\<close>

lemma run_step_returned: "c_pc c = RunReturned r \<Longrightarrow> run_step cfg ev c = None"
  by (simp add: run_step.simps)

lemma run_step_wait:
  "c_pc c = RunWait g \<Longrightarrow> run_step cfg ev c =
     (if ev = CtxDone \<and> c_ctx_done c then Some (c\<lparr>c_pc := RunReturned None\<rparr>)
      else if ev = Woken \<and> g < c_wake c then Some (c\<lparr>c_pc := RunTop\<rparr>) else None)"
  by (simp add: run_step.simps)

lemma run_step_mark:
  "c_pc c = AttemptMark \<Longrightarrow> run_step cfg ev c = Some c' \<Longrightarrow>
     \<exists>t. c_stats c' = (c_stats c)\<lparr>s_connected := True, s_connected_since := Some t,
                     s_connect_count := Suc (s_connect_count (c_stats c))\<rparr>"
  by (auto simp: run_step.simps split: run_event.splits)

lemma run_step_stats_end:
  "c_pc c = RunStats r \<Longrightarrow> run_step cfg ev c = Some c' \<Longrightarrow>
     \<exists>e. c_stats c' = (c_stats c)\<lparr>s_connected := False, s_connected_since := None, s_last_error := e\<rparr>"
  by (auto simp: run_step.simps split: if_splits)

lemma run_stuck_iff:
  "(\<forall>ev. run_step cfg ev c = None) \<longleftrightarrow>
     (\<exists>r. c_pc c = RunReturned r) \<or> (\<exists>g. c_pc c = RunWait g \<and> c_wake c \<le> g \<and> \<not> c_ctx_done c)"
proof (cases "(\<exists>r. c_pc c = RunReturned r) \<or> (\<exists>g. c_pc c = RunWait g)")
  case True
  then show ?thesis
  proof
    assume "\<exists>r. c_pc c = RunReturned r"
    then show ?thesis by (auto simp: run_step_returned)
  next
    assume "\<exists>g. c_pc c = RunWait g"
    then obtain g where g: "c_pc c = RunWait g" by blast
    show ?thesis by (simp add: run_step_wait[OF g] g) auto
  qed
next
  case False
  then have "run_step cfg (offered (c_pc c)) c \<noteq> None" by (intro run_step_offered) auto
  then have "\<not> (\<forall>ev. run_step cfg ev c = None)" by (intro notI) simp
  with False show ?thesis by metis
qed

lemma run_step_stats:
  "run_step cfg ev c = Some c' \<Longrightarrow> c_pc c \<noteq> AttemptMark \<Longrightarrow> \<forall>r. c_pc c \<noteq> RunStats r \<Longrightarrow>
     c_stats c' = c_stats c"
  by (cases "c_pc c")
     (auto simp: run_step.simps Let_def split: if_splits run_event.splits option.splits sum.splits prod.splits)

text \<open>The steps of the run goroutine in a list of events.\<close>

primrec is_thread :: "client_event \<Rightarrow> bool" where
  "is_thread (Thread e) = True"
| "is_thread (SetPaused b) = False"
| "is_thread CancelCtx = False"

lemma client_step_ctx: "client_step cfg ev c = Some c' \<Longrightarrow> c_ctx_done c \<Longrightarrow> c_ctx_done c'"
  by (cases ev) (auto simp: client_step_def set_paused_def dest: run_step_ctx)

lemma set_paused_simps [simp]:
  "c_pc (set_paused b c) = c_pc c" "c_dials (set_paused b c) = c_dials c"
  "c_stats (set_paused b c) = c_stats c" "c_ctx_done (set_paused b c) = c_ctx_done c"
  "c_paused (set_paused b c) = b" "c_wake (set_paused b c) = Suc (c_wake c)"
  "c_cancel_current (set_paused b c) = c_cancel_current c"
  by (simp_all add: set_paused_def)

lemma client_exec_steps_left:
  "client_exec cfg evs c = Some c' \<Longrightarrow> c_ctx_done c \<Longrightarrow>
     length (filter is_thread evs) + steps_left (c_pc c') \<le> steps_left (c_pc c) \<and> c_ctx_done c'"
proof (induction evs arbitrary: c)
  case (Cons ev evs)
  then obtain c1 where c1: "client_step cfg ev c = Some c1" "client_exec cfg evs c1 = Some c'"
    by (auto simp: bind_eq_Some_conv)
  have done1: "c_ctx_done c1" using client_step_ctx[OF c1(1)] Cons.prems by simp
  from Cons.IH[OF c1(2) done1] c1(1) show ?case
    using run_step_steps_left[of cfg _ c c1] Cons.prems(2)
    by (cases ev) (fastforce simp: client_step_def)+
qed simp

lemma steps_left_le: "steps_left p \<le> 13"
  by (cases p) simp_all

text \<open>
  C10. Cancelling the context ends \<open>Run\<close>, and nothing else does. From any reachable state with the
  context cancelled, whatever the dial, the pumps and callers of \<open>SetPaused\<close> do: the goroutine
  takes at most 13 more steps; as long as it has not returned it has one to take; and the only value
  it ever returns is nil, in every reachable state, and only after the cancellation.
\<close>

theorem run_ends_iff_cancelled:
  assumes "client_reach cfg c" "client_exec cfg evs c = Some c'"
  shows "(\<forall>r. c_pc c' = RunReturned r \<longrightarrow> r = None \<and> c_ctx_done c') \<and>
    (c_ctx_done c \<longrightarrow> length (filter is_thread evs) \<le> 13 \<and>
       (c_pc c' = RunReturned None \<or> (\<exists>ev. run_step cfg ev c' \<noteq> None)))"
proof -
  have inv: "client_inv c'" using client_reach_inv client_reach_exec assms by blast
  moreover have "length (filter is_thread evs) \<le> 13 \<and> c_ctx_done c'" if "c_ctx_done c"
    using client_exec_steps_left[OF assms(2) that] steps_left_le[of "c_pc c"] by linarith
  ultimately show ?thesis
    using run_stuck_iff[of cfg c'] by (auto simp: client_inv_def pc_ok_def)
qed

theorem run_ends_iff_cancelled_witness:
  "\<exists>c'. client_exec sample_client [CancelCtx, Thread Go] run_start = Some c' \<and>
     c_pc c' = RunReturned None \<and> c_ctx_done c'"
proof -
  obtain c' where c': "client_exec sample_client [CancelCtx, Thread Go] run_start = Some c'"
      "c_pc c' = RunReturned None"
    by (simp add: client_step_def run_step.simps run_start_def)
  then show ?thesis using run_ends_iff_cancelled[OF at_start c'(1)] by blast
qed

text \<open>
  C16. No wakeup is lost: the run goroutine can be stuck, before it has returned, only while the
  client is paused and the context live. Whenever \<open>SetPaused(false)\<close> has been called last, or the
  context is cancelled, it has a step to take, whatever the interleaving with the pause check was.
\<close>

theorem no_lost_wakeup:
  assumes "client_reach cfg c" "\<forall>ev. run_step cfg ev c = None" "c_pc c \<noteq> RunReturned None"
  shows "c_paused c \<and> \<not> c_ctx_done c \<and> c_pc c = RunWait (c_wake c) \<and>
    run_step cfg Woken (set_paused False c) \<noteq> None"
  using client_reach_inv[OF assms(1)] assms(2,3) unfolding run_stuck_iff
  by (auto simp: client_inv_def pc_ok_def run_step.simps)

theorem no_lost_wakeup_witness:
  "\<exists>c. client_exec sample_client [SetPaused True, Thread Go, Thread Go] run_start = Some c \<and> c_paused c \<and>
     c_pc c = RunWait (c_wake c) \<and> run_step sample_client Woken (set_paused False c) \<noteq> None"
proof -
  obtain c where c: "client_exec sample_client [SetPaused True, Thread Go, Thread Go] run_start = Some c"
      "c_pc c = RunWait 1" "c_wake c = 1" "\<not> c_ctx_done c"
    by (simp add: client_step_def run_step.simps run_start_def set_paused_def)
  have "\<forall>ev. run_step sample_client ev c = None" using c by (simp add: run_stuck_iff)
  then show ?thesis
    using no_lost_wakeup[OF client_reach_exec[OF at_start c(1)]] c by auto
qed

section \<open>What a poller sees\<close>

text \<open>
  The contract of \<open>Stats\<close>, without program points: the link is down, up since a time, or up no
  more; the count goes up exactly when the link comes up.
\<close>

record link_view =
  l_up :: bool
  l_since :: "int option"
  l_count :: nat

definition link_of :: "client \<Rightarrow> link_view" where
  "link_of c = \<lparr>l_up = s_connected (c_stats c), l_since = s_connected_since (c_stats c),
                l_count = s_connect_count (c_stats c)\<rparr>"

inductive link_step :: "link_view \<Rightarrow> link_view \<Rightarrow> bool" where
  comes_up: "link_step \<lparr>l_up = False, l_since = None, l_count = n\<rparr> \<lparr>l_up = True, l_since = Some t, l_count = Suc n\<rparr>"
| goes_down: "link_step \<lparr>l_up = u, l_since = s, l_count = n\<rparr> \<lparr>l_up = False, l_since = None, l_count = n\<rparr>"
| unchanged: "link_step l l"

text \<open>
  C17. What a concurrent reader of \<open>Stats\<close> sees implements that contract: in every reachable state,
  each step of the client, its callers or the context is a step of the abstract link; connected goes
  with a connect time; and while the pumps are being served the link is reported up.
\<close>

theorem stats_refine_link:
  assumes "client_reach cfg c" "client_step cfg ev c = Some c'"
  shows "link_step (link_of c) (link_of c') \<and>
    (l_up (link_of c') \<longleftrightarrow> l_since (link_of c') \<noteq> None) \<and>
    (c_pc c' = AttemptServe \<longrightarrow> l_up (link_of c')) \<and> l_count (link_of c') \<le> c_dials c'"
proof -
  have inv: "client_inv c" using assms(1) by (rule client_reach_inv)
  have "client_inv c'" using client_inv_step[OF inv assms(2)] .
  moreover have "link_step (link_of c) (link_of c')"
  proof (cases ev)
    case (Thread e)
    then have step: "run_step cfg e c = Some c'" using assms(2) by (simp add: client_step_def)
    consider "c_pc c = AttemptMark" | r where "c_pc c = RunStats r"
      | "c_pc c \<noteq> AttemptMark" "\<forall>r. c_pc c \<noteq> RunStats r" by blast
    then show ?thesis
    proof cases
      case 1
      then have "s_connected (c_stats c) = False" "s_connected_since (c_stats c) = None"
        using inv by (auto simp: client_inv_def stats_ok_def)
      with run_step_mark[OF 1 step] show ?thesis by (auto simp: link_of_def intro: comes_up)
    next
      case 2
      with run_step_stats_end[OF 2 step] show ?thesis by (auto simp: link_of_def intro: goes_down)
    next
      case 3
      with run_step_stats[OF step] show ?thesis by (simp add: link_of_def unchanged)
    qed
  qed (use assms(2) in \<open>auto simp: client_step_def link_of_def intro: unchanged\<close>)
  ultimately show ?thesis by (auto simp: client_inv_def stats_ok_def link_of_def)
qed

theorem stats_refine_link_witness:
  "link_step (link_of run_start) (link_of (set_paused True run_start)) \<and>
     l_count (link_of (set_paused True run_start)) \<le> c_dials (set_paused True run_start)"
  using stats_refine_link[OF at_start, of sample_client "SetPaused True" "set_paused True run_start"]
  by (simp add: client_step_def)

section \<open>Pausing\<close>

text \<open>The points between the pause check and the dial, from which a dial may still follow.\<close>

definition about_to_dial :: "run_pc \<Rightarrow> bool" where
  "about_to_dial p \<longleftrightarrow> p = AttemptRegister \<or> p = AttemptTLS"

definition dial_bound :: "client \<Rightarrow> nat" where
  "dial_bound c = c_dials c + of_bool (about_to_dial (c_pc c))"

lemma run_step_dial_bound:
  "run_step cfg ev c = Some c' \<Longrightarrow> c_paused c \<Longrightarrow> dial_bound c' \<le> dial_bound c"
  by (cases "c_pc c")
     (auto simp: run_step.simps dial_bound_def about_to_dial_def Let_def
        split: if_splits run_event.splits option.splits sum.splits prod.splits)

definition attempt_doomed :: "client \<Rightarrow> bool" where
  "attempt_doomed c \<longleftrightarrow> c_pc c \<noteq> AttemptRegister \<and> (in_attempt (c_pc c) \<longrightarrow> c_attempt_cancelled c)"

lemma run_step_doomed:
  "run_step cfg ev c = Some c' \<Longrightarrow> c_paused c \<Longrightarrow> attempt_doomed c \<Longrightarrow> attempt_doomed c'"
  by (cases "c_pc c")
     (auto simp: run_step.simps attempt_doomed_def Let_def
        split: if_splits run_event.splits option.splits sum.splits prod.splits)

lemma set_paused_again:
  "dial_bound (set_paused b c) = dial_bound c"
  "attempt_doomed c \<Longrightarrow> attempt_doomed (set_paused b c)"
  by (auto simp: dial_bound_def attempt_doomed_def set_paused_def)

lemma paused_step:
  assumes "client_step cfg ev c = Some c'" "ev \<noteq> SetPaused False" "c_paused c"
  shows "c_paused c' \<and> dial_bound c' \<le> dial_bound c \<and> (attempt_doomed c \<longrightarrow> attempt_doomed c')"
proof (cases ev)
  case (Thread e)
  then show ?thesis
    using assms run_step_dial_bound[of cfg e c c'] run_step_doomed[of cfg e c c'] run_step_paused[of cfg e c c']
    by (simp add: client_step_def)
next
  case (SetPaused b)
  then show ?thesis using assms set_paused_again by (auto simp: client_step_def)
next
  case CancelCtx
  then show ?thesis
    using assms by (auto simp: client_step_def dial_bound_def attempt_doomed_def)
qed

lemma paused_exec:
  "client_exec cfg evs c = Some c' \<Longrightarrow> SetPaused False \<notin> set evs \<Longrightarrow> c_paused c \<Longrightarrow>
     c_paused c' \<and> dial_bound c' \<le> dial_bound c \<and> (attempt_doomed c \<longrightarrow> attempt_doomed c')"
proof (induction evs arbitrary: c)
  case (Cons ev evs)
  then obtain c1 where c1: "client_step cfg ev c = Some c1" "client_exec cfg evs c1 = Some c'"
    by (auto simp: bind_eq_Some_conv)
  have "c_paused c1 \<and> dial_bound c1 \<le> dial_bound c \<and> (attempt_doomed c \<longrightarrow> attempt_doomed c1)"
    using paused_step[OF c1(1)] Cons.prems by auto
  with Cons.IH[OF c1(2)] Cons.prems show ?case by auto
qed simp

text \<open>
  C37. \<open>SetPaused(true)\<close> stops the reconnect loop from dialing: until \<open>SetPaused(false)\<close>, under
  every interleaving, no dial follows it except one already past the pause check; and when the call
  found the attempt registered (that is, anywhere but in the window between the pause check and the
  registration), the context of whatever attempt is in flight stays cancelled, so that its dial and
  its pumps fail.
\<close>

theorem pause_stops_dialing:
  assumes "client_reach cfg c" "SetPaused False \<notin> set evs"
    and "client_exec cfg evs (set_paused True c) = Some c'"
  shows "c_paused c' \<and>
    c_dials c' \<le> c_dials c + (if c_pc c \<in> {AttemptRegister, AttemptTLS} then 1 else 0) \<and>
    (c_pc c \<noteq> AttemptRegister \<and> in_attempt (c_pc c') \<longrightarrow> attempt_err c' \<noteq> None)"
proof -
  have inv: "client_inv c" using assms(1) by (rule client_reach_inv)
  have "attempt_doomed (set_paused True c)" if "c_pc c \<noteq> AttemptRegister"
    using that inv by (auto simp: attempt_doomed_def set_paused_def client_inv_def)
  with paused_exec[OF assms(3,2)] show ?thesis
    by (auto simp: dial_bound_def about_to_dial_def attempt_doomed_def attempt_err_def set_paused_def
        split: if_splits)
qed

text \<open>A run that has just connected is paused; the run goroutine goes round and parks.\<close>

lemma sample_url_parses: "url_parse (cc_server_url sample_client) =
    Inr \<lparr>pu_scheme = ''wss'', pu_opaque = [], pu_host = ''fleet.example''\<rparr>"
  by code_simp

definition connect_events :: "client_event list" where
  "connect_events = map Thread [Go, Go, Go, TLSResult None, DialResult None, Go, MarkedAt 7]"

lemmas run_simps = client_step_def run_step.simps run_start_def zero_stats_def hello_can_go
  sample_url_parses connect_events_def set_paused_def

theorem pause_stops_dialing_witness:
  "\<exists>c c'. client_exec sample_client connect_events run_start = Some c \<and> c_dials c = 1 \<and>
     client_exec sample_client [Thread (PumpReturned (Sentinel ErrCanceled)), Thread Go, Thread Go]
       (set_paused True c) = Some c' \<and>
     c_paused c' \<and> c_dials c' \<le> 1"
proof -
  obtain c where c: "client_exec sample_client connect_events run_start = Some c" "c_dials c = 1"
      "c_pc c = AttemptServe"
    by (simp add: run_simps)
  moreover obtain c' where c': "client_exec sample_client
      [Thread (PumpReturned (Sentinel ErrCanceled)), Thread Go, Thread Go] (set_paused True c) = Some c'"
    using c(3) by (simp add: client_step_def run_step.simps Let_def)
  ultimately show ?thesis
    using pause_stops_dialing[OF client_reach_exec[OF at_start c(1)] _ c'] by auto
qed

text \<open>
  The window is real: a \<open>SetPaused(true)\<close> between the pause check and the registration of the
  cancel function is lost. The attempt goes on to connect, and the client serves a live connection,
  reported connected and paused at once, with nothing left to end it.
\<close>

theorem pause_lost_before_registration:
  "\<exists>c. client_exec sample_client
      ([Thread Go, Thread Go, SetPaused True] @ drop 2 connect_events) run_start = Some c \<and>
    c_pc c = AttemptServe \<and> c_paused c \<and> s_connected (c_stats c) \<and> attempt_err c = None"
  by (simp add: run_simps attempt_err_def)

section \<open>The backoff is dead code\<close>

text \<open>
  C38. The documented delay between reconnects never happens: the deferred function of
  \<open>connectAndServe\<close> cancels the attempt's own context before it asks whether that context was
  cancelled, so every failure with a live outer context comes back as the pause sentinel. In every
  reachable state with the context live no delay has been taken or is being slept, every attempt's
  result is the pause sentinel, and the last error is empty or ``transport: paused'', whatever
  failed.
\<close>

theorem backoff_never_used:
  assumes "client_reach cfg c" "\<not> c_ctx_done c"
  shows "c_delays c = [] \<and> (\<forall>d. c_pc c \<noteq> RunSleep d) \<and>
    s_last_error (c_stats c) \<in> {[], ''transport: paused''} \<and>
    (\<forall>r. c_pc c = RunBranch r \<longrightarrow> r = Some (Sentinel ErrPausedMidConnection))"
  using client_reach_inv[OF assms(1)] assms(2) by (auto simp: client_inv_def live_ok_def pc_ok_def)

text \<open>So a server that refuses every dial is dialed any number of times with no delay between.\<close>

definition refused_attempt :: "client_event list" where
  "refused_attempt =
     map Thread [Go, Go, Go, TLSResult None, DialResult (Some (Msg ''connection refused'')), Go, Go, Go, Go]"

lemma refused_round:
  assumes "url_parse (cc_server_url cfg) = Inr u" "c_pc c = RunTop" "\<not> c_ctx_done c" "\<not> c_paused c"
  shows "\<exists>c'. client_exec cfg refused_attempt c = Some c' \<and> c_pc c' = RunTop \<and> \<not> c_ctx_done c' \<and>
    \<not> c_paused c' \<and> c_dials c' = Suc (c_dials c)"
  using assms
  by (simp add: refused_attempt_def client_step_def run_step.simps Let_def deferred_paused)

lemma reconnect_storm_state:
  assumes "url_parse (cc_server_url cfg) = Inr u"
  shows "\<exists>c. client_reach cfg c \<and> c_pc c = RunTop \<and> \<not> c_ctx_done c \<and> \<not> c_paused c \<and> c_dials c = n"
proof (induction n)
  case 0
  have "c_pc run_start = RunTop \<and> \<not> c_ctx_done run_start \<and> \<not> c_paused run_start \<and> c_dials run_start = 0"
    by (simp add: run_start_def)
  with at_start show ?case by blast
next
  case (Suc n)
  then obtain c where c: "client_reach cfg c" "c_pc c = RunTop" "\<not> c_ctx_done c" "\<not> c_paused c" "c_dials c = n"
    by blast
  from refused_round[OF assms c(2-4)] c(1,5) show ?case by (metis client_reach_exec)
qed

theorem backoff_never_used_witness:
  "\<exists>c. client_reach sample_client c \<and> c_dials c = 1000 \<and> c_delays c = [] \<and> (\<forall>d. c_pc c \<noteq> RunSleep d)"
  using reconnect_storm_state[OF sample_url_parses, of 1000] backoff_never_used by blast

end
