(* ===== verification/Dialog.thy ===== *)
theory Dialog
  imports TrayIcon
begin

text \<open>
  The installers' wizard, \<open>internal/installerui\<close>: the packed layout of the task dialog structures, the
  registry of dialogs waiting for their window, and the three screens. An address is a 64-bit word;
  where Go puts an object in memory is an argument.
\<close>

section \<open>Little-endian bytes\<close>

primrec le_bytes :: "nat \<Rightarrow> 'a::len word \<Rightarrow> 8 word list" where
  "le_bytes 0 w = []"
| "le_bytes (Suc n) w = ucast w # le_bytes n (drop_bit 8 w)"

primrec le_word :: "8 word list \<Rightarrow> 'a::len word" where
  "le_word [] = 0"
| "le_word (b # bs) = or (ucast b) (push_bit 8 (le_word bs))"

lemma le_bytes_length [simp]: "length (le_bytes n w) = n"
  by (induction n arbitrary: w) simp_all

lemma le_word_bytes: "le_word (le_bytes n w) = take_bit (8 * n) (w :: 'a::len word)"
proof (induction n arbitrary: w)
  case (Suc n)
  have "or (ucast (ucast w :: 8 word)) (push_bit 8 (take_bit (8 * n) (drop_bit 8 w))) = take_bit (8 * Suc n) w"
    by (rule bit_word_eqI) (auto simp: bit_simps)
  then show ?case using Suc by simp
qed simp

lemma le_word_bytes_32: "le_word (le_bytes 4 w) = (w :: 32 word)"
  by (simp add: le_word_bytes take_bit_word_eq_self)

lemma le_word_bytes_64: "le_word (le_bytes 8 w) = (w :: 64 word)"
  by (simp add: le_word_bytes take_bit_word_eq_self)

text \<open>\<open>PutUint32(buf[off:], w)\<close> and \<open>PutUint64\<close>, within the buffer.\<close>

definition put_bytes :: "nat \<Rightarrow> 8 word list \<Rightarrow> 8 word list \<Rightarrow> 8 word list" where
  "put_bytes off bs buf = take off buf @ bs @ drop (off + length bs) buf"

definition put32 :: "nat \<Rightarrow> 32 word \<Rightarrow> 8 word list \<Rightarrow> 8 word list" where
  "put32 off w = put_bytes off (le_bytes 4 w)"

definition put64 :: "nat \<Rightarrow> 64 word \<Rightarrow> 8 word list \<Rightarrow> 8 word list" where
  "put64 off w = put_bytes off (le_bytes 8 w)"

text \<open>Writing right after what has been written so far.\<close>

lemma put_zeros:
  "length xs = off \<Longrightarrow> put32 off v (xs @ replicate n 0) = (xs @ le_bytes 4 v) @ replicate (n - 4) 0"
  "length xs = off \<Longrightarrow> put64 off w (xs @ replicate n 0) = (xs @ le_bytes 8 w) @ replicate (n - 8) 0"
  by (simp_all add: put32_def put64_def put_bytes_def)

section \<open>The structures\<close>

record task_config =
  tc_parent :: "64 word"
  tc_instance :: "64 word"
  tc_flags :: "32 word"
  tc_common_buttons :: "32 word"
  tc_title :: "64 word"
  tc_main_icon :: "64 word"
  tc_instruction :: "64 word"
  tc_content :: "64 word"
  tc_c_buttons :: "32 word"
  tc_buttons :: "64 word"
  tc_default_button :: "32 word"
  tc_c_radio :: "32 word"
  tc_radio :: "64 word"
  tc_default_radio :: "32 word"
  tc_verification :: "64 word"
  tc_expanded :: "64 word"
  tc_expanded_control :: "64 word"
  tc_collapsed_control :: "64 word"
  tc_footer_icon :: "64 word"
  tc_footer :: "64 word"
  tc_callback :: "64 word"
  tc_callback_data :: "64 word"
  tc_width :: "32 word"

definition task_dialog_config_size :: nat where "task_dialog_config_size = 160"

definition marshal_config :: "task_config \<Rightarrow> 8 word list" where
  "marshal_config c =
     (let buf = replicate task_dialog_config_size 0;
          buf = put32 0 (of_nat task_dialog_config_size) buf;
          buf = put64 4 (tc_parent c) buf;
          buf = put64 12 (tc_instance c) buf;
          buf = put32 20 (tc_flags c) buf;
          buf = put32 24 (tc_common_buttons c) buf;
          buf = put64 28 (tc_title c) buf;
          buf = put64 36 (tc_main_icon c) buf;
          buf = put64 44 (tc_instruction c) buf;
          buf = put64 52 (tc_content c) buf;
          buf = put32 60 (tc_c_buttons c) buf;
          buf = put64 64 (tc_buttons c) buf;
          buf = put32 72 (tc_default_button c) buf;
          buf = put32 76 (tc_c_radio c) buf;
          buf = put64 80 (tc_radio c) buf;
          buf = put32 88 (tc_default_radio c) buf;
          buf = put64 92 (tc_verification c) buf;
          buf = put64 100 (tc_expanded c) buf;
          buf = put64 108 (tc_expanded_control c) buf;
          buf = put64 116 (tc_collapsed_control c) buf;
          buf = put64 124 (tc_footer_icon c) buf;
          buf = put64 132 (tc_footer c) buf;
          buf = put64 140 (tc_callback c) buf;
          buf = put64 148 (tc_callback_data c) buf
      in put32 156 (tc_width c) buf)"

record task_button =
  tb_id :: "32 word"
  tb_text :: "64 word"

definition task_dialog_button_size :: nat where "task_dialog_button_size = 12"

definition pack_task_dialog_buttons :: "task_button list \<Rightarrow> 8 word list" where
  "pack_task_dialog_buttons bs =
     fold (\<lambda>(i, b) buf. put64 (i * task_dialog_button_size + 4) (tb_text b) (put32 (i * task_dialog_button_size) (tb_id b) buf))
       (enumerate 0 bs) (replicate (length bs * task_dialog_button_size) 0)"

section \<open>The layout the API reads\<close>

text \<open>
  \<open>TASKDIALOGCONFIG\<close> as \<open>commctrl.h\<close> declares it, packed: its fields in order, none aligned. This is
  the specification: the bytes one after the other.
\<close>

datatype field = F32 "32 word" | F64 "64 word"

primrec field_bytes :: "field \<Rightarrow> 8 word list" where
  "field_bytes (F32 w) = le_bytes 4 w"
| "field_bytes (F64 w) = le_bytes 8 w"

definition packed :: "field list \<Rightarrow> 8 word list" where
  "packed fs = concat (map field_bytes fs)"

definition config_fields :: "task_config \<Rightarrow> field list" where
  "config_fields c =
     [F32 160, F64 (tc_parent c), F64 (tc_instance c), F32 (tc_flags c), F32 (tc_common_buttons c), F64 (tc_title c),
      F64 (tc_main_icon c), F64 (tc_instruction c), F64 (tc_content c), F32 (tc_c_buttons c), F64 (tc_buttons c),
      F32 (tc_default_button c), F32 (tc_c_radio c), F64 (tc_radio c), F32 (tc_default_radio c),
      F64 (tc_verification c), F64 (tc_expanded c), F64 (tc_expanded_control c), F64 (tc_collapsed_control c),
      F64 (tc_footer_icon c), F64 (tc_footer c), F64 (tc_callback c), F64 (tc_callback_data c), F32 (tc_width c)]"

text \<open>A reader of packed fields, of given widths.\<close>

fun read_fields :: "nat list \<Rightarrow> 8 word list \<Rightarrow> field list" where
  "read_fields [] bs = []"
| "read_fields (n # ns) bs =
     (if n = 4 then F32 (le_word (take 4 bs)) else F64 (le_word (take 8 bs))) # read_fields ns (drop n bs)"

primrec field_size :: "field \<Rightarrow> nat" where
  "field_size (F32 w) = 4"
| "field_size (F64 w) = 8"

lemma field_bytes_length [simp]: "length (field_bytes f) = field_size f"
  by (cases f) simp_all

lemma read_packed: "read_fields (map field_size fs) (packed fs @ r) = fs"
proof (induction fs)
  case (Cons f fs)
  then show ?case by (cases f) (simp_all add: packed_def le_word_bytes_32 le_word_bytes_64)
qed (simp add: packed_def)

lemma marshal_packed: "marshal_config c = packed (config_fields c)"
proof -
  have "marshal_config c = foldl (\<lambda>xs f. xs @ field_bytes f) [] (config_fields c)"
    using put_zeros[of "[]" 0]
    by (simp add: marshal_config_def Let_def task_dialog_config_size_def put_zeros config_fields_def del: append_assoc)
  also have "\<dots> = packed (config_fields c)" by (simp add: packed_def config_fields_def)
  finally show ?thesis .
qed

lemma pack_buttons_packed: "pack_task_dialog_buttons bs = packed (concat (map (\<lambda>b. [F32 (tb_id b), F64 (tb_text b)]) bs))"
proof -
  have "fold (\<lambda>(i, b) buf. put64 (i * task_dialog_button_size + 4) (tb_text b) (put32 (i * task_dialog_button_size) (tb_id b) buf))
      (enumerate n bs) (xs @ replicate (length bs * 12) 0) =
    xs @ packed (concat (map (\<lambda>b. [F32 (tb_id b), F64 (tb_text b)]) bs))" if "length xs = n * 12" for n xs
    using that
  proof (induction bs arbitrary: n xs)
    case (Cons b bs)
    have "put32 (n * 12) (tb_id b) (xs @ replicate (12 + length bs * 12) 0) =
        (xs @ le_bytes 4 (tb_id b)) @ replicate (8 + length bs * 12) 0"
      using put_zeros(1)[OF Cons.prems] by simp
    moreover have "put64 (n * 12 + 4) (tb_text b) ((xs @ le_bytes 4 (tb_id b)) @ replicate (8 + length bs * 12) 0) =
        (xs @ le_bytes 4 (tb_id b) @ le_bytes 8 (tb_text b)) @ replicate (length bs * 12) 0"
      using put_zeros(2)[of "xs @ le_bytes 4 (tb_id b)" "n * 12 + 4"] Cons.prems by simp
    moreover have "length (xs @ le_bytes 4 (tb_id b) @ le_bytes 8 (tb_text b)) = Suc n * 12" using Cons.prems by simp
    note Cons.IH[OF this]
    ultimately show ?case by (simp add: task_dialog_button_size_def packed_def)
  qed (simp add: packed_def)
  from this[of "[]" 0] show ?thesis by (simp add: pack_task_dialog_buttons_def task_dialog_button_size_def)
qed

text \<open>
  C31. The task dialog structure is packed as the API declares it: the writes at their explicit offsets
  give the fields in order, byte after byte without padding or overlap, 160 bytes in all, as the size
  field says; and every field is read back from them as it was.
\<close>

theorem marshal_layout:
  "marshal_config c = packed (config_fields c) \<and> length (marshal_config c) = task_dialog_config_size \<and>
   le_word (take 4 (marshal_config c)) = (of_nat (length (marshal_config c)) :: 32 word) \<and>
   read_fields (map field_size (config_fields c)) (marshal_config c) = config_fields c"
proof -
  have len: "length (marshal_config c) = 160" unfolding marshal_packed by (simp add: packed_def config_fields_def)
  have "take 4 (marshal_config c) = le_bytes 4 (160 :: 32 word)"
    unfolding marshal_packed by (simp add: packed_def config_fields_def)
  then have "le_word (take 4 (marshal_config c)) = (160 :: 32 word)" by (simp add: le_word_bytes_32)
  then show ?thesis
    using len read_packed[of "config_fields c" "[]"] by (simp add: marshal_packed task_dialog_config_size_def)
qed

section \<open>The registry of dialogs\<close>

text \<open>
  \<open>callbackHandles\<close> and the token counter. A handle is the window once \<open>TDN_CREATED\<close> has come;
  \<open>set\<close> on a handle already set panics (\<open>close\<close> of a closed channel): \<open>None\<close>.
\<close>

record callbacks =
  cb_next :: "64 word"
  cb_handles :: "64 word \<Rightarrow> 64 word option option"

definition register_callback :: "callbacks \<Rightarrow> 64 word \<times> callbacks" where
  "register_callback s =
     (let token = cb_next s + 1
      in (token, s\<lparr>cb_next := token, cb_handles := (cb_handles s)(token \<mapsto> None)\<rparr>))"

definition unregister_callback :: "64 word \<Rightarrow> callbacks \<Rightarrow> callbacks" where
  "unregister_callback token s = s\<lparr>cb_handles := (cb_handles s)(token := None)\<rparr>"

definition tdnCreated :: "32 word" where "tdnCreated = 0"

definition task_dialog_callback :: "64 word \<Rightarrow> 32 word \<Rightarrow> 64 word \<Rightarrow> callbacks \<Rightarrow> callbacks option" where
  "task_dialog_callback hwnd msg token s =
     (if msg = tdnCreated
      then (case cb_handles s token of
              None \<Rightarrow> Some s
            | Some None \<Rightarrow> Some (s\<lparr>cb_handles := (cb_handles s)(token \<mapsto> Some hwnd)\<rparr>)
            | Some (Some h) \<Rightarrow> None)
      else Some s)"

text \<open>What happens to the registry while the process runs dialogs.\<close>

datatype dialog_event = Register | Unregister "64 word" | Notified "64 word" "32 word" "64 word"

primrec do_dialog :: "dialog_event \<Rightarrow> callbacks \<Rightarrow> callbacks option" where
  "do_dialog Register s = Some (snd (register_callback s))"
| "do_dialog (Unregister k) s = Some (unregister_callback k s)"
| "do_dialog (Notified h m k) s = task_dialog_callback h m k s"

primrec dialog_events :: "dialog_event list \<Rightarrow> callbacks \<Rightarrow> callbacks option" where
  "dialog_events [] s = Some s"
| "dialog_events (e # es) s = Option.bind (do_dialog e s) (dialog_events es)"

definition no_callbacks :: callbacks where
  "no_callbacks = \<lparr>cb_next = 0, cb_handles = Map.empty\<rparr>"

text \<open>Every token in use was given out, so the next one is new until the counter wraps.\<close>

definition tokens_given :: "nat \<Rightarrow> callbacks \<Rightarrow> bool" where
  "tokens_given n s \<longleftrightarrow> unat (cb_next s) = n \<and> (\<forall>k \<in> dom (cb_handles s). unat k \<le> n)"

lemma tokens_given_event:
  assumes "tokens_given n s" "do_dialog e s = Some s'" "Suc n < 2 ^ 64"
  shows "tokens_given (if e = Register then Suc n else n) s'"
proof (cases e)
  case Register
  have n: "unat (cb_next s) = n" using assms(1) by (simp add: tokens_given_def)
  have "unat (cb_next s + 1) = Suc n"
    using assms(3) n by (subst unat_add_lem[THEN iffD1]) (simp_all add: n)
  moreover have "unat k \<le> n" if "cb_handles s k = Some y" for k y
    using assms(1) that by (auto simp: tokens_given_def)
  ultimately show ?thesis
    using assms(2) Register by (auto simp: tokens_given_def register_callback_def Let_def domIff le_Suc_eq split: if_splits)
next
  case (Unregister k)
  then show ?thesis using assms(1,2) by (auto simp: tokens_given_def unregister_callback_def domIff split: if_splits)
next
  case (Notified h m k)
  then show ?thesis using assms(1,2)
    by (auto simp: tokens_given_def task_dialog_callback_def domIff split: if_splits option.splits)
qed

primrec registrations :: "dialog_event list \<Rightarrow> nat" where
  "registrations [] = 0"
| "registrations (e # es) = (if e = Register then Suc (registrations es) else registrations es)"

lemma tokens_given_events:
  "tokens_given n s \<Longrightarrow> dialog_events es s = Some s' \<Longrightarrow> n + registrations es < 2 ^ 64 - 1 \<Longrightarrow>
     tokens_given (n + registrations es) s'"
proof (induction es arbitrary: n s)
  case (Cons e es)
  obtain s1 where s1: "do_dialog e s = Some s1" "dialog_events es s1 = Some s'"
    using Cons.prems(2) by (auto simp: bind_eq_Some_conv)
  have "tokens_given (if e = Register then Suc n else n) s1"
    using tokens_given_event[OF Cons.prems(1) s1(1)] Cons.prems(3) by (simp split: if_splits)
  from Cons.IH[OF this s1(2)] show ?case using Cons.prems(3) by (auto split: if_splits)
qed simp

text \<open>
  Dialogs do not disturb one another: after any history of fewer than 2^64 - 2 dialogs, a new one
  gets a token no live dialog has; a window notification for it gives the window to its own handle
  and to no other; and once it is over, a late notification changes nothing and cannot panic.
\<close>

theorem dialogs_isolated:
  assumes "dialog_events es no_callbacks = Some s" "Suc (registrations es) < 2 ^ 64 - 1"
    and "register_callback s = (token, s1)"
  shows "cb_handles s token = None \<and>
    (\<exists>s2. task_dialog_callback hwnd tdnCreated token s1 = Some s2 \<and> cb_handles s2 token = Some (Some hwnd) \<and>
       (\<forall>k. k \<noteq> token \<longrightarrow> cb_handles s2 k = cb_handles s k)) \<and>
    task_dialog_callback hwnd msg token (unregister_callback token s1) = Some (unregister_callback token s1)"
proof -
  have "tokens_given 0 no_callbacks" by (simp add: tokens_given_def no_callbacks_def)
  from tokens_given_events[OF this assms(1)] have g: "tokens_given (registrations es) s" using assms(2) by simp
  have t: "token = cb_next s + 1" and s1: "s1 = s\<lparr>cb_next := token, cb_handles := (cb_handles s)(token \<mapsto> None)\<rparr>"
    using assms(3) by (auto simp: register_callback_def Let_def)
  have n: "unat (cb_next s) = registrations es" using g by (simp add: tokens_given_def)
  have "unat token = Suc (registrations es)"
    unfolding t using assms(2) n by (subst unat_add_lem[THEN iffD1]) (simp_all add: n)
  then have "cb_handles s token = None" using g by (force simp: tokens_given_def)
  then show ?thesis by (auto simp: task_dialog_callback_def s1 unregister_callback_def)
qed

theorem dialogs_isolated_witness:
  "\<exists>s s1 s2. dialog_events [Register, Notified 7 tdnCreated 1, Register, Unregister 1] no_callbacks = Some s \<and>
     register_callback s = (3, s1) \<and> task_dialog_callback 9 tdnCreated 3 s1 = Some s2 \<and>
     cb_handles s2 3 = Some (Some 9) \<and> cb_handles s2 2 = Some None"
proof -
  let ?es = "[Register, Notified 7 tdnCreated 1, Register, Unregister 1]"
  obtain s where s: "dialog_events ?es no_callbacks = Some s" "cb_next s = 2" "cb_handles s 2 = Some None"
    by (auto simp: register_callback_def task_dialog_callback_def unregister_callback_def no_callbacks_def Let_def)
  obtain s1 where s1: "register_callback s = (3, s1)" using s(2) by (auto simp: register_callback_def Let_def)
  have "Suc (registrations ?es) < 2 ^ 64 - 1" by simp
  from dialogs_isolated[OF s(1) this s1, of 9] s(3) show ?thesis using s(1) s1 by fastforce
qed

section \<open>Running a dialog\<close>

text \<open>
  What \<open>TaskDialogIndirect\<close> does with a structure: its result, the button, the last error, and the
  window \<open>TDN_CREATED\<close> announced, if it got that far. \<open>de_text\<close> and \<open>de_bytes\<close> are the addresses of
  what the structure points to.
\<close>

record dialog_outcome =
  do_ret :: "64 word"
  do_button :: "32 word"
  do_error :: goerr
  do_window :: "64 word option"

record dialogenv =
  de_text :: "16 word list \<Rightarrow> 64 word"
  de_bytes :: "8 word list \<Rightarrow> 64 word"
  de_callback :: "64 word"
  de_dialog :: "8 word list \<Rightarrow> dialog_outcome"

definition text_ptr :: "dialogenv \<Rightarrow> string \<Rightarrow> 64 word" where
  "text_ptr env s = (case utf16_or_nil s of None \<Rightarrow> 0 | Some u \<Rightarrow> de_text env u)"

definition run_task_dialog ::
  "dialogenv \<Rightarrow> task_config \<Rightarrow> callbacks \<Rightarrow> ((32 word \<times> goerr option) \<times> 64 word option) \<times> callbacks" where
  "run_task_dialog env cfg s =
     (case register_callback s of
        (token, s1) \<Rightarrow>
          (let out = de_dialog env (marshal_config (cfg\<lparr>tc_callback := de_callback env, tc_callback_data := token\<rparr>));
               s2 = (case do_window out of
                       None \<Rightarrow> s1
                     | Some h \<Rightarrow> (case task_dialog_callback h tdnCreated token s1 of None \<Rightarrow> s1 | Some s2 \<Rightarrow> s2));
               result = (if do_ret out \<noteq> 0 then (0, Some (wrapf ''taskdialogindirect: '' (do_error out)))
                         else (do_button out, None))
           in ((result, case cb_handles s2 token of None \<Rightarrow> None | Some h \<Rightarrow> h), unregister_callback token s2)))"

definition empty_config :: task_config where
  "empty_config = \<lparr>tc_parent = 0, tc_instance = 0, tc_flags = 0, tc_common_buttons = 0, tc_title = 0, tc_main_icon = 0,
     tc_instruction = 0, tc_content = 0, tc_c_buttons = 0, tc_buttons = 0, tc_default_button = 0, tc_c_radio = 0,
     tc_radio = 0, tc_default_radio = 0, tc_verification = 0, tc_expanded = 0, tc_expanded_control = 0,
     tc_collapsed_control = 0, tc_footer_icon = 0, tc_footer = 0, tc_callback = 0, tc_callback_data = 0, tc_width = 0\<rparr>"

definition tdfAllowDialogCancellation :: "32 word" where "tdfAllowDialogCancellation = 0x0008"
definition tdfShowProgressBar :: "32 word" where "tdfShowProgressBar = 0x0200"
definition tdfExpandedByDefault :: "32 word" where "tdfExpandedByDefault = 0x0080"
definition tdfSizeToContent :: "32 word" where "tdfSizeToContent = 0x01000000"
definition tdmSetProgressBarPos :: "32 word" where "tdmSetProgressBarPos = 0x0400 + 106"
definition tdmSetProgressBarRange :: "32 word" where "tdmSetProgressBarRange = 0x0400 + 105"
definition tdmUpdateElementText :: "32 word" where "tdmUpdateElementText = 0x0400 + 114"
definition tdmClickButton :: "32 word" where "tdmClickButton = 0x0400 + 102"
definition tdmEnableButton :: "32 word" where "tdmEnableButton = 0x0400 + 111"
definition tdeContent :: "64 word" where "tdeContent = 0"
definition tdInformationIcon :: "64 word" where "tdInformationIcon = 0xFFFD"
definition tdErrorIcon :: "64 word" where "tdErrorIcon = 0xFFFE"
definition idOK :: nat where "idOK = 1"
definition idCancel :: nat where "idCancel = 2"
definition idContinue :: nat where "idContinue = 1000"

lemmas dialog_numbers = tdfAllowDialogCancellation_def tdfShowProgressBar_def tdfExpandedByDefault_def
  tdfSizeToContent_def tdmSetProgressBarPos_def tdmSetProgressBarRange_def tdmUpdateElementText_def
  tdmClickButton_def tdmEnableButton_def tdeContent_def tdInformationIcon_def tdErrorIcon_def
  idOK_def idCancel_def idContinue_def

definition with_buttons :: "dialogenv \<Rightarrow> (nat \<times> string) list \<Rightarrow> task_config \<Rightarrow> task_config" where
  "with_buttons env bs cfg =
     cfg\<lparr>tc_c_buttons := of_nat (length bs),
        tc_buttons := de_bytes env (pack_task_dialog_buttons
          (map (\<lambda>(i, t). \<lparr>tb_id = of_nat i, tb_text = text_ptr env t\<rparr>) bs))\<rparr>"

section \<open>The screens\<close>

text \<open>\<open>strings.Join\<close>; the bullet is U+2022.\<close>

fun join_with :: "string \<Rightarrow> string list \<Rightarrow> string" where
  "join_with sep [] = []"
| "join_with sep [s] = s"
| "join_with sep (s # t # ss) = s @ sep @ join_with sep (t # ss)"

definition bullet :: string where "bullet = map chr [226, 128, 162] @ '' ''"

definition welcome_config :: "dialogenv \<Rightarrow> string \<Rightarrow> string \<Rightarrow> string \<Rightarrow> string list \<Rightarrow> string \<Rightarrow> task_config" where
  "welcome_config env title instruction content bullets contact =
     with_buttons env [(idContinue, ''Continue''), (idCancel, ''Cancel'')]
       (empty_config\<lparr>tc_flags := or tdfAllowDialogCancellation (or tdfExpandedByDefault tdfSizeToContent),
          tc_title := text_ptr env title, tc_main_icon := tdInformationIcon,
          tc_instruction := text_ptr env instruction, tc_content := text_ptr env content,
          tc_default_button := of_nat idContinue,
          tc_expanded := text_ptr env (bullet @ join_with (CHR 0x0A # bullet) bullets),
          tc_expanded_control := text_ptr env ''Hide details'',
          tc_collapsed_control := text_ptr env ''What will this be able to do?'',
          tc_footer_icon := tdInformationIcon, tc_footer := text_ptr env contact\<rparr>)"

definition show_welcome ::
  "dialogenv \<Rightarrow> string \<Rightarrow> string \<Rightarrow> string \<Rightarrow> string list \<Rightarrow> string \<Rightarrow> callbacks \<Rightarrow> bool \<times> callbacks" where
  "show_welcome env title instruction content bullets contact s =
     (case run_task_dialog env (welcome_config env title instruction content bullets contact) s of
        (((button, err), w), s1) \<Rightarrow> (err = None \<and> button = of_nat idContinue, s1))"

definition result_config :: "dialogenv \<Rightarrow> string \<Rightarrow> bool \<Rightarrow> string \<Rightarrow> string \<Rightarrow> task_config" where
  "result_config env title success headline detail =
     with_buttons env [(idOK, ''Close'')]
       (empty_config\<lparr>tc_flags := or tdfAllowDialogCancellation tdfSizeToContent, tc_title := text_ptr env title,
          tc_main_icon := (if success then tdInformationIcon else tdErrorIcon),
          tc_instruction := text_ptr env headline, tc_content := text_ptr env detail,
          tc_default_button := of_nat idOK\<rparr>)"

definition show_result :: "dialogenv \<Rightarrow> string \<Rightarrow> bool \<Rightarrow> string \<Rightarrow> string \<Rightarrow> callbacks \<Rightarrow> callbacks" where
  "show_result env title success headline detail s =
     snd (run_task_dialog env (result_config env title success headline detail) s)"

text \<open>A message sent to the dialog, with the time in milliseconds since the dialog was driven.\<close>

type_synonym timed_message = "nat \<times> 32 word \<times> 64 word \<times> 64 word"

definition min_step_display :: nat where "min_step_display = 600"

definition progress_pos :: "int \<Rightarrow> nat \<Rightarrow> nat" where
  "progress_pos steps k = (if steps > 0 \<and> int k < steps then nat (int k * 100 div steps) else 100)"

text \<open>
  The reports of \<open>run\<close>: the work before each, how much longer than asked the sleep takes, the label.
  \<open>clock\<close> is the time, \<open>shown\<close> that of the last label, \<open>k\<close> the steps so far.
\<close>

fun report_steps ::
  "dialogenv \<Rightarrow> int \<Rightarrow> nat \<Rightarrow> nat \<Rightarrow> nat \<Rightarrow> (nat \<times> nat \<times> string) list \<Rightarrow> timed_message list \<times> nat" where
  "report_steps env steps clock shown k [] = ([], clock)"
| "report_steps env steps clock shown k ((work, over, label) # rs) =
     (let called = clock + work;
          t = (if called - shown < min_step_display then called + (min_step_display - (called - shown)) + over else called);
          (ms, finish) = report_steps env steps t t (Suc k) rs
      in ((t, tdmSetProgressBarPos, of_nat (progress_pos steps (Suc k)), 0) #
          (t, tdmUpdateElementText, tdeContent, text_ptr env label) # ms, finish))"

definition progress_config :: "dialogenv \<Rightarrow> string \<Rightarrow> task_config" where
  "progress_config env title =
     with_buttons env [(idOK, ''Please wait'' @ ellipsis)]
       (empty_config\<lparr>tc_flags := or tdfShowProgressBar tdfSizeToContent, tc_title := text_ptr env title,
          tc_main_icon := tdInformationIcon, tc_instruction := text_ptr env (''Installing'' @ ellipsis),
          tc_content := text_ptr env (''Starting'' @ ellipsis), tc_default_button := of_nat idOK\<rparr>)"

definition progress_messages :: "dialogenv \<Rightarrow> int \<Rightarrow> (nat \<times> nat \<times> string) list \<Rightarrow> nat \<Rightarrow> timed_message list" where
  "progress_messages env steps reports rest =
     (case report_steps env steps 0 0 0 reports of
        (ms, t) \<Rightarrow>
          [(0, tdmEnableButton, of_nat idOK, 0), (0, tdmSetProgressBarRange, 0, or 0 (push_bit 16 100))] @ ms @
          [(t + rest, tdmSetProgressBarPos, 100, 0), (t + rest, tdmClickButton, of_nat idOK, 0)])"

text \<open>
  \<open>RunWithProgress\<close>: what \<open>run\<close> returns and the messages sent, or \<open>None\<close> when it waits for ever,
  \<open>runDone\<close> being closed only by the goroutine the window's creation starts.
\<close>

definition run_with_progress ::
  "dialogenv \<Rightarrow> string \<Rightarrow> int \<Rightarrow> (nat \<times> nat \<times> string) list \<Rightarrow> nat \<Rightarrow> goerr option \<Rightarrow> callbacks \<Rightarrow>
   (goerr option \<times> timed_message list) option \<times> callbacks" where
  "run_with_progress env title steps reports rest outcome s =
     (case run_task_dialog env (progress_config env title) s of
        ((res, window), s1) \<Rightarrow>
          (case window of
             None \<Rightarrow> (None, s1)
           | Some h \<Rightarrow> (Some (outcome, progress_messages env steps reports rest), s1)))"

section \<open>What the user sees\<close>

lemma progress_pos_le: "progress_pos steps k \<le> 100"
proof -
  have "int k * 100 div steps \<le> 100" if "steps > 0" "int k < steps"
  proof -
    have "int k * 100 div steps \<le> steps * 100 div steps" using that by (intro zdiv_mono1) simp_all
    then show ?thesis using that by simp
  qed
  then show ?thesis by (auto simp: progress_pos_def)
qed

lemma progress_pos_mono: "j \<le> k \<Longrightarrow> progress_pos steps j \<le> progress_pos steps k"
proof (cases "steps > 0 \<and> int k < steps")
  case True
  assume le: "j \<le> k"
  then have "int j * 100 div steps \<le> int k * 100 div steps" using True by (intro zdiv_mono1) simp_all
  then show ?thesis using True le by (simp add: progress_pos_def nat_mono)
next
  case False
  then have "progress_pos steps k = 100" by (auto simp: progress_pos_def)
  then show ?thesis using progress_pos_le by simp
qed

definition positions :: "timed_message list \<Rightarrow> nat list" where
  "positions ms = map (\<lambda>(t, m, w, l). unat w) (filter (\<lambda>(t, m, w, l). m = tdmSetProgressBarPos) ms)"

definition labels_at :: "timed_message list \<Rightarrow> (nat \<times> 64 word) list" where
  "labels_at ms = map (\<lambda>(t, m, w, l). (t, l)) (filter (\<lambda>(t, m, w, l). m = tdmUpdateElementText) ms)"

lemma unat_small: "n \<le> 100 \<Longrightarrow> unat (of_nat n :: 64 word) = n"
  by (simp add: unat_of_nat)

lemma report_steps_positions:
  "positions (fst (report_steps env steps clock shown k rs)) = map (\<lambda>i. progress_pos steps (Suc (k + i))) [0..<length rs]"
proof (induction env steps clock shown k rs rule: report_steps.induct)
  case (2 env steps clock shown k work over label rs)
  have "map (\<lambda>i. progress_pos steps (Suc (k + i))) [0..<Suc (length rs)] =
      progress_pos steps (Suc k) # map (\<lambda>i. progress_pos steps (Suc (Suc k + i))) [0..<length rs]"
    by (simp add: upt_conv_Cons map_Suc_upt[symmetric] comp_def del: upt_Suc)
  moreover have "unat (of_nat (progress_pos steps (Suc k)) :: 64 word) = progress_pos steps (Suc k)"
    using unat_small progress_pos_le by blast
  ultimately show ?case
    using 2[OF refl refl] by (auto simp: positions_def Let_def dialog_numbers split: prod.splits)
qed (simp add: positions_def)

text \<open>The times of the labels, from the one shown before, are at least the display time apart.\<close>

fun spaced :: "nat \<Rightarrow> nat list \<Rightarrow> bool" where
  "spaced t [] \<longleftrightarrow> True"
| "spaced t (u # us) \<longleftrightarrow> t + min_step_display \<le> u \<and> spaced u us"

lemma report_steps_labels:
  "shown \<le> clock \<Longrightarrow>
   map snd (labels_at (fst (report_steps env steps clock shown k rs))) = map (\<lambda>(w, v, l). text_ptr env l) rs \<and>
   spaced shown (map fst (labels_at (fst (report_steps env steps clock shown k rs)))) \<and>
   clock \<le> snd (report_steps env steps clock shown k rs)"
proof (induction env steps clock shown k rs rule: report_steps.induct)
  case (2 env steps clock shown k work over label rs)
  define t where "t = (if clock + work - shown < min_step_display
      then clock + work + (min_step_display - (clock + work - shown)) + over else clock + work)"
  have t: "shown + min_step_display \<le> t" "clock \<le> t" using 2(2) by (auto simp: t_def)
  obtain ms fin where rec: "report_steps env steps t t (Suc k) rs = (ms, fin)" by force
  then have eq: "report_steps env steps clock shown k ((work, over, label) # rs) =
      ((t, tdmSetProgressBarPos, of_nat (progress_pos steps (Suc k)), 0) #
       (t, tdmUpdateElementText, tdeContent, text_ptr env label) # ms, fin)"
    by (simp add: t_def Let_def)
  have lab: "labels_at ((t, tdmSetProgressBarPos, x, 0) # (t, tdmUpdateElementText, y, z) # ms) = (t, z) # labels_at ms" for x y z
    by (simp add: labels_at_def tdmSetProgressBarPos_def tdmUpdateElementText_def)
  have "map snd (labels_at ms) = map (\<lambda>(w, v, l). text_ptr env l) rs \<and> spaced t (map fst (labels_at ms)) \<and> t \<le> fin"
    using 2(1)[OF refl t_def order_refl] rec by simp
  then show ?case using t unfolding eq by (simp add: lab)
qed (simp add: labels_at_def)

text \<open>With a fresh token the handle holds the window announced, if any.\<close>

definition dialog_shown :: "dialogenv \<Rightarrow> task_config \<Rightarrow> callbacks \<Rightarrow> dialog_outcome" where
  "dialog_shown env cfg s =
     de_dialog env (marshal_config (cfg\<lparr>tc_callback := de_callback env, tc_callback_data := cb_next s + 1\<rparr>))"

lemma run_task_dialog_result:
  "fst (run_task_dialog env cfg s) =
     ((if do_ret (dialog_shown env cfg s) \<noteq> 0
       then (0, Some (wrapf ''taskdialogindirect: '' (do_error (dialog_shown env cfg s))))
       else (do_button (dialog_shown env cfg s), None)), do_window (dialog_shown env cfg s))"
proof -
  have reg: "register_callback s = (cb_next s + 1, s\<lparr>cb_next := cb_next s + 1, cb_handles := (cb_handles s)(cb_next s + 1 \<mapsto> None)\<rparr>)"
    by (simp add: register_callback_def Let_def)
  show ?thesis
    unfolding run_task_dialog_def reg prod.case dialog_shown_def[symmetric] Let_def
    by (cases "do_window (dialog_shown env cfg s)") (simp_all add: task_dialog_callback_def)
qed

text \<open>
  C34. The progress screen runs its work to the end and reports it truthfully: \<open>RunWithProgress\<close>
  returns exactly if the dialog's window was created, and then with the error of \<open>run\<close>, unmodified;
  the placeholder button is disabled before anything else and clicked after everything else; the
  labels appear in the order reported, each at least 600 ms after the one before; and the bar never
  goes back, stays within 100 and ends there. A dialog that never comes up blocks it for ever.
\<close>

theorem progress_shown:
  "case run_with_progress env title steps reports rest outcome s of
     (None, s1) \<Rightarrow> do_window (dialog_shown env (progress_config env title) s) = None
   | (Some (err, ms), s1) \<Rightarrow> do_window (dialog_shown env (progress_config env title) s) \<noteq> None \<and> err = outcome \<and>
       hd ms = (0, tdmEnableButton, of_nat idOK, 0) \<and> fst (snd (last ms)) = tdmClickButton \<and>
       map snd (labels_at ms) = map (\<lambda>(w, v, l). text_ptr env l) reports \<and> spaced 0 (map fst (labels_at ms)) \<and>
       sorted (positions ms) \<and> set (positions ms) \<subseteq> {..100} \<and> last (positions ms) = 100"
proof -
  let ?ms = "progress_messages env steps reports rest"
  obtain rs t where rs: "report_steps env steps 0 0 0 reports = (rs, t)" by force
  have ms: "?ms = [(0, tdmEnableButton, of_nat idOK, 0), (0, tdmSetProgressBarRange, 0, or 0 (push_bit 16 100))] @ rs @
      [(t + rest, tdmSetProgressBarPos, 100, 0), (t + rest, tdmClickButton, of_nat idOK, 0)]"
    by (simp add: progress_messages_def rs)
  have pos: "positions ?ms = map (\<lambda>i. progress_pos steps (Suc i)) [0..<length reports] @ [100]"
    using report_steps_positions[of env steps 0 0 0 reports]
    by (simp add: ms rs positions_def dialog_numbers)
  have lab: "labels_at ?ms = labels_at rs" by (simp add: ms labels_at_def dialog_numbers)
  have "sorted (map (\<lambda>i. progress_pos steps (Suc i)) [0..<length reports])"
    by (auto simp: sorted_iff_nth_mono intro!: progress_pos_mono)
  then have "sorted (positions ?ms)" by (auto simp: pos sorted_append progress_pos_le)
  moreover have "set (positions ?ms) \<subseteq> {..100}" "last (positions ?ms) = 100" by (auto simp: pos progress_pos_le)
  moreover have "hd ?ms = (0, tdmEnableButton, of_nat idOK, 0)" "fst (snd (last ?ms)) = tdmClickButton" by (simp_all add: ms)
  moreover have "map snd (labels_at ?ms) = map (\<lambda>(w, v, l). text_ptr env l) reports" "spaced 0 (map fst (labels_at ?ms))"
    using report_steps_labels[of 0 0 env steps 0 reports] by (simp_all add: lab rs)
  moreover have "run_with_progress env title steps reports rest outcome s =
      ((case do_window (dialog_shown env (progress_config env title) s) of
          None \<Rightarrow> None | Some h \<Rightarrow> Some (outcome, ?ms)), snd (run_task_dialog env (progress_config env title) s))"
    using run_task_dialog_result[of env "progress_config env title" s]
    by (auto simp: run_with_progress_def split: prod.splits option.splits)
  ultimately show ?thesis by (auto split: option.splits)
qed

text \<open>
  The welcome screen takes only a click on Continue for consent: closing it, Cancel, or a dialog
  that could not be shown is a refusal. The structure shown offers exactly the two buttons, in the
  API's packed form, with Continue as the default.
\<close>

theorem welcome_consent:
  "let cfg = welcome_config env title instruction content bullets contact;
       out = dialog_shown env cfg s
   in (fst (show_welcome env title instruction content bullets contact s) \<longleftrightarrow>
         do_ret out = 0 \<and> do_button out = of_nat idContinue) \<and>
      tc_c_buttons cfg = 2 \<and> tc_default_button cfg = of_nat idContinue \<and>
      tc_buttons cfg = de_bytes env (packed
        [F32 (of_nat idContinue), F64 (text_ptr env ''Continue''), F32 (of_nat idCancel), F64 (text_ptr env ''Cancel'')])"
proof -
  let ?cfg = "welcome_config env title instruction content bullets contact"
  obtain b e w s1 where run: "run_task_dialog env ?cfg s = (((b, e), w), s1)" by (metis prod.exhaust)
  have "(b, e) = (if do_ret (dialog_shown env ?cfg s) \<noteq> 0
      then (0, Some (wrapf ''taskdialogindirect: '' (do_error (dialog_shown env ?cfg s)))) else (do_button (dialog_shown env ?cfg s), None))"
    using run_task_dialog_result[of env ?cfg s] run by (simp split: if_splits)
  then have "fst (show_welcome env title instruction content bullets contact s) \<longleftrightarrow>
      do_ret (dialog_shown env ?cfg s) = 0 \<and> do_button (dialog_shown env ?cfg s) = of_nat idContinue"
    using run by (auto simp: show_welcome_def split: if_splits)
  then show ?thesis
    by (simp add: Let_def) (simp add: welcome_config_def with_buttons_def pack_buttons_packed packed_def)
qed

end
