(* ===== verification/Service.thy ===== *)
theory Service
  imports Host GoPath
begin

text \<open>
  The service wrapper, \<open>internal/svc\<close>: the control handler \<open>Execute\<close> and the opening of the log.
  The requests of the service manager are a list, its end the closing of the channel; the statuses
  reported are the result. Writing to the rotated log is left to the logging library.
\<close>

datatype service_state = StartPending | ServiceRunning | StopPending

record service_status =
  ss_state :: service_state
  ss_accepts_stop :: bool
  ss_accepts_shutdown :: bool

definition status :: "service_state \<Rightarrow> service_status" where
  "status s = \<lparr>ss_state = s, ss_accepts_stop = False, ss_accepts_shutdown = False\<rparr>"

datatype service_request = Interrogate service_status | StopService | ShutdownService | OtherRequest

text \<open>The loop: the statuses sent and whether it called \<open>cancel\<close>.\<close>

fun control_loop :: "service_request list \<Rightarrow> service_status list \<times> bool" where
  "control_loop [] = ([], False)"
| "control_loop (Interrogate cur # rs) = (case control_loop rs of (ss, b) \<Rightarrow> (cur # ss, b))"
| "control_loop (StopService # rs) = ([status StopPending], True)"
| "control_loop (ShutdownService # rs) = ([status StopPending], True)"
| "control_loop (OtherRequest # rs) = control_loop rs"

definition execute :: "service_request list \<Rightarrow> service_status list \<times> bool" where
  "execute rs =
     (case control_loop rs of
        (ss, b) \<Rightarrow>
          (status StartPending # (status ServiceRunning)\<lparr>ss_accepts_stop := True, ss_accepts_shutdown := True\<rparr> # ss, b))"

definition open_service_logger :: "hostenv \<Rightarrow> path \<Rightarrow> 'a world_scheme \<Rightarrow> goerr option \<times> 'a world_scheme" where
  "open_service_logger env p w =
     (case os_mkdir_all env (path_dir p) w of
        (Some e, w1) \<Rightarrow> (Some (wrapf (''svc/logging: mkdir '' @ path_dir p @ '': '') e), w1)
      | (None, w1) \<Rightarrow> (None, w1))"

text \<open>
  The entry points. \<open>svc_run\<close> is \<open>svc.Run\<close> of the Windows library, which registers the handler under the
  name and drives it with the requests that come; \<open>detected\<close> is the answer of \<open>svc.IsWindowsService\<close>,
  whose error is dropped.
\<close>

definition service_name :: string where "service_name = ''ReadyFleetAgent''"
definition service_display_name :: string where "service_display_name = ''ReadyFleet Agent''"
definition service_description :: string where
  "service_description = ''Player Ready ReadyFleet remote management agent.''"

definition run_impl :: "(string \<Rightarrow> (service_request list \<Rightarrow> service_status list \<times> bool) \<Rightarrow> 'r) \<Rightarrow> 'r" where
  "run_impl svc_run = svc_run service_name execute"

definition run_service :: "(string \<Rightarrow> (service_request list \<Rightarrow> service_status list \<times> bool) \<Rightarrow> 'r) \<Rightarrow> 'r" where
  "run_service svc_run = run_impl svc_run"

definition is_windows_service_impl :: "bool \<times> goerr option \<Rightarrow> bool" where
  "is_windows_service_impl detected = (case detected of (yes, _) \<Rightarrow> yes)"

definition is_windows_service :: "bool \<times> goerr option \<Rightarrow> bool" where
  "is_windows_service detected = is_windows_service_impl detected"

section \<open>What the service manager sees\<close>

definition ends_service :: "service_request \<Rightarrow> bool" where
  "ends_service r \<longleftrightarrow> r \<in> {StopService, ShutdownService}"

text \<open>
  The agent is cancelled exactly if a stop or a shutdown comes. Until then every interrogation is
  answered with the status it carries; then, and only then, the stop is reported as pending, and no
  later request is read.
\<close>

lemma execute_reports:
  "execute rs =
     ([status StartPending, (status ServiceRunning)\<lparr>ss_accepts_stop := True, ss_accepts_shutdown := True\<rparr>] @
      [cur. Interrogate cur \<leftarrow> takeWhile (\<lambda>r. \<not> ends_service r) rs] @
      (if list_ex ends_service rs then [status StopPending] else []), list_ex ends_service rs)"
proof -
  have "control_loop rs = ([cur. Interrogate cur \<leftarrow> takeWhile (\<lambda>r. \<not> ends_service r) rs] @
      (if list_ex ends_service rs then [status StopPending] else []), list_ex ends_service rs)"
    by (induction rs rule: control_loop.induct) (auto simp: ends_service_def)
  then show ?thesis by (simp add: execute_def)
qed

text \<open>A request after the stop changes nothing.\<close>

lemma execute_stops_reading: "list_ex ends_service rs \<Longrightarrow> execute (rs @ rs') = execute rs"
  by (auto simp: execute_reports takeWhile_append list_ex_iff)

text \<open>Run under a service manager that forwards a list of requests, the agent is cancelled by the first stop.\<close>

lemma run_service_cancels:
  "run_service (\<lambda>name handler. (name, snd (handler rs))) = (service_name, list_ex ends_service rs)"
  by (simp add: run_service_def run_impl_def execute_reports)

lemma open_service_logger_creates:
  "open_service_logger env p w = (None, w') \<Longrightarrow> w_fs w' = (w_fs w)(path_dir p \<mapsto> Dir)"
  by (auto simp: open_service_logger_def os_mkdir_all_def split: prod.splits option.splits node.splits)

end
