(* ===== verification/Agent.thy ===== *)
theory Agent
  imports Handlers Install ClientRun Dialog Service
begin

text \<open>
  The light agent's \<open>main\<close> package: the paths and hosts it derives, enrolment and start-up
  (\<open>runLightAgent\<close> up to the point where the tray and the connection run), \<open>unlink\<close> and
  \<open>uninstall\<close>, and the glue around the tray icon (\<open>tray.go\<close>). The constants of the build
  (version, architecture) and the environment's answers are arguments.
\<close>

section \<open>Names and paths\<close>

definition light_product_id :: string where "light_product_id = ''readyfleet-light-agent''"
definition light_profile :: string where "light_profile = ''byod_solarbeam''"
definition light_trusted_signer :: string where
  "light_trusted_signer = ''5b2e7596208e78bfd59d6e8d08844d2e3760614540040ca7f48e2dcb698be027''"

definition light_app_data_dir :: "hostenv \<Rightarrow> path" where
  "light_app_data_dir env =
     (let base = he_getenv env ''LocalAppData''
      in if base = [] then ''lightagent-data'' else path_join base ''ReadyFleet Light'')"

definition default_light_config_path :: "hostenv \<Rightarrow> path" where
  "default_light_config_path env = path_join (light_app_data_dir env) ''config.json''"

definition default_light_log_path :: "hostenv \<Rightarrow> path" where
  "default_light_log_path env = path_join (path_join (light_app_data_dir env) ''logs'') ''lightagent.log''"

definition strip_scheme_and_path :: "string \<Rightarrow> string" where
  "strip_scheme_and_path url = cut_at (strip_scheme url) (CHR ''/'')"

definition derive_enrollment_url :: "string \<Rightarrow> bool \<Rightarrow> string" where
  "derive_enrollment_url url insecure =
     (if insecure then ''http'' else ''https'') @ ''://'' @ strip_scheme_and_path url @ ''/enroll/v1/redeem''"

definition agent_download_host :: "string \<Rightarrow> string" where
  "agent_download_host url = cut_at (strip_scheme_and_path url) (CHR '':'')"

definition light_engine_dir :: "hostenv \<Rightarrow> path" where
  "light_engine_dir env =
     (let base = he_getenv env ''LocalAppData''
      in if base = [] then ''solarbeam-engine'' else path_join base ''SolarBeam'')"

definition light_engine_path :: "hostenv \<Rightarrow> path" where
  "light_engine_path env = path_join (light_engine_dir env) ''sunshine.exe''"

definition light_bridge_path :: "hostenv \<Rightarrow> path" where
  "light_bridge_path env = path_join (light_engine_dir env) ''solarbeam-bridge.exe''"

definition solarbeam_path :: "hostenv \<Rightarrow> string \<Rightarrow> path \<Rightarrow> path" where
  "solarbeam_path env key def = (let v = he_getenv env key in if v \<noteq> [] then v else def)"

section \<open>Start-up\<close>

record agentenv =
  ge_enroll :: enrollenv
  ge_major :: "string res"
  ge_arch :: string
  ge_version :: string
  ge_icons :: "string \<times> string"

abbreviation ge_host :: "agentenv \<Rightarrow> hostenv" where
  "ge_host env \<equiv> ee_host (ge_enroll env)"

text \<open>\<open>Collect\<close> with a nil manager; on an error the snapshot is the zero value.\<close>

definition enrollment_snapshot :: "agentenv \<Rightarrow> snapshot" where
  "enrollment_snapshot env =
     (case ge_major env of
        Inl e \<Rightarrow> empty_snapshot
      | Inr v \<Rightarrow> empty_snapshot\<lparr>sn_os_name := os_family, sn_os_version := v\<rparr>)"

definition light_enroll_options :: "agentenv \<Rightarrow> path \<Rightarrow> config \<Rightarrow> bool \<Rightarrow> enroll_options" where
  "light_enroll_options env p cfg insecure =
     \<lparr>eo_url = (if cf_enrollment_url cfg = [] then derive_enrollment_url (cf_server_url cfg) insecure
                else cf_enrollment_url cfg),
      eo_secret = cf_enrollment_secret cfg, eo_version = ge_version env,
      eo_inventory = enrollment_snapshot env, eo_dir = path_dir p, eo_insecure = insecure\<rparr>"

definition with_enrollment :: "config \<Rightarrow> enroll_result \<Rightarrow> config" where
  "with_enrollment cfg r =
     cfg\<lparr>cf_machine_id := er_machine_id r, cf_venue_id := er_venue_id r, cf_cert_path := er_cert_path r,
        cf_key_path := er_key_path r, cf_ca_path := er_ca_path r,
        cf_server_url := (if er_listen_url r \<noteq> [] then er_listen_url r else cf_server_url cfg),
        cf_enrollment_secret := []\<rparr>"

definition run_light_enrollment ::
  "agentenv \<Rightarrow> path \<Rightarrow> config \<Rightarrow> bool \<Rightarrow> 'a world_scheme \<Rightarrow> config res \<times> 'a world_scheme" where
  "run_light_enrollment env p cfg insecure w =
     (case enroll (ge_enroll env) (light_enroll_options env p cfg insecure) w of
        (Inl e, w1) \<Rightarrow> (Inl e, w1)
      | (Inr r, w1) \<Rightarrow>
          (case save (ge_host env) p (with_enrollment cfg r) w1 of
             (Some e, w2) \<Rightarrow> (Inl e, w2)
           | (None, w2) \<Rightarrow> (Inr (with_enrollment cfg r), w2)))"

text \<open>\<open>writeTrayIcons\<close>: both files or two empty paths.\<close>

definition write_tray_icons :: "agentenv \<Rightarrow> 'a world_scheme \<Rightarrow> (path \<times> path) \<times> 'a world_scheme" where
  "write_tray_icons env w =
     (let dir = light_app_data_dir (ge_host env); con = path_join dir ''tray-connected.ico'';
          off = path_join dir ''tray-offline.ico''
      in (case os_mkdir_all (ge_host env) dir w of
            (Some e, w1) \<Rightarrow> (([], []), w1)
          | (None, w1) \<Rightarrow>
              (case os_write_file (ge_host env) con (fst (ge_icons env)) w1 of
                 (Some e, w2) \<Rightarrow> (([], []), w2)
               | (None, w2) \<Rightarrow>
                   (case os_write_file (ge_host env) off (snd (ge_icons env)) w2 of
                      (Some e, w3) \<Rightarrow> (([], []), w3)
                    | (None, w3) \<Rightarrow> ((con, off), w3)))))"

text \<open>\<open>newLightTray\<close>: the tray, not yet running, with the two paths.\<close>

definition new_light_tray :: "agentenv \<Rightarrow> 'a world_scheme \<Rightarrow> (action tray \<times> path \<times> path) \<times> 'a world_scheme" where
  "new_light_tray env w =
     (case write_tray_icons env w of ((con, off), w1) \<Rightarrow> ((new_tray con, con, off), w1))"

lemma new_light_tray_world [simp]: "snd (new_light_tray env w) = snd (write_tray_icons env w)"
  by (simp add: new_light_tray_def split: prod.splits)

text \<open>
  The configuration of \<open>runtime.NewClient\<close> and the transport configuration it makes of it: the
  command handler is always set, and dispatches to \<open>rc_handlers\<close>. A provider or handler that is a
  function is present or nil.
\<close>

record runtime_config =
  rc_server_url :: string
  rc_cert_file :: path
  rc_key_file :: path
  rc_ca_file :: path
  rc_machine_id :: string
  rc_agent_version :: string
  rc_os :: string
  rc_os_version :: string
  rc_insecure :: bool
  rc_inventory_provider :: bool
  rc_telemetry_provider :: bool
  rc_handlers :: "command_kind \<Rightarrow> handler option"
  rc_terminal_handler :: bool
  rc_screen_handler :: bool

definition new_client :: "runtime_config \<Rightarrow> client_config \<times> handler" where
  "new_client rc =
     (\<lparr>cc_server_url = rc_server_url rc, cc_cert_file = rc_cert_file rc, cc_key_file = rc_key_file rc,
       cc_ca_file = rc_ca_file rc, cc_machine_id = rc_machine_id rc, cc_agent_version = rc_agent_version rc,
       cc_os = rc_os rc, cc_os_version = rc_os_version rc, cc_inventory_provider = rc_inventory_provider rc,
       cc_telemetry_provider = rc_telemetry_provider rc, cc_telemetry_interval = 0, cc_command_handler = True,
       cc_terminal_handler = rc_terminal_handler rc, cc_screen_handler = rc_screen_handler rc,
       cc_insecure = rc_insecure rc\<rparr>, dispatch_command (rc_handlers rc))"

record agent_setup =
  gs_paths :: sb_paths
  gs_update :: update_config
  gs_client :: client_config
  gs_dispatch :: handler

definition light_runtime_config :: "agentenv \<Rightarrow> bool \<Rightarrow> config \<Rightarrow> runtime_config" where
  "light_runtime_config env insecure cfg =
     \<lparr>rc_server_url = cf_server_url cfg, rc_cert_file = cf_cert_path cfg, rc_key_file = cf_key_path cfg,
      rc_ca_file = cf_ca_path cfg, rc_machine_id = cf_machine_id cfg, rc_agent_version = ge_version env,
      rc_os = [], rc_os_version = [], rc_insecure = insecure, rc_inventory_provider = True,
      rc_telemetry_provider = False, rc_handlers = light_handlers, rc_terminal_handler = False,
      rc_screen_handler = False\<rparr>"

text \<open>What \<open>runLightAgent\<close> builds from an enrolled configuration.\<close>

definition light_setup :: "agentenv \<Rightarrow> bool \<Rightarrow> config \<Rightarrow> agent_setup" where
  "light_setup env insecure cfg =
     (case new_client (light_runtime_config env insecure cfg) of
        (cc, h) \<Rightarrow>
          \<lparr>gs_paths = \<lparr>sp_engine = solarbeam_path (ge_host env) ''SOLARBEAM_ENGINE_PATH'' (light_engine_path (ge_host env)),
              sp_bridge = solarbeam_path (ge_host env) ''SOLARBEAM_BRIDGE_PATH'' (light_bridge_path (ge_host env)),
              sp_root = light_engine_dir (ge_host env), sp_mode = ModeInteractive\<rparr>,
           gs_update = \<lparr>uc_allowed_host = agent_download_host (cf_server_url cfg), uc_download_dir = [],
              uc_policy = \<lparr>pp_product_id = light_product_id, pp_profile = light_profile, pp_signers = [light_trusted_signer]\<rparr>\<rparr>,
           gs_client = cc, gs_dispatch = h\<rparr>)"

definition run_light_agent :: "agentenv \<Rightarrow> path \<Rightarrow> bool \<Rightarrow> 'a world_scheme \<Rightarrow> agent_setup res \<times> 'a world_scheme" where
  "run_light_agent env p insecure w =
     (case load (ge_host env) p w of
        (Inl e, w1) \<Rightarrow> (Inl e, w1)
      | (Inr cfg, w1) \<Rightarrow>
          if cf_server_url cfg = [] then (Inl (Msg ''server_url required''), w1)
          else if \<not> is_enrolled cfg \<and> cf_enrollment_secret cfg = []
          then (Inl (Msg ''not enrolled and no enrollment secret''), w1)
          else (case (if is_enrolled cfg then (Inr cfg, w1) else run_light_enrollment env p cfg insecure w1) of
              (Inl e, w2) \<Rightarrow> (Inl e, w2)
            | (Inr cfg', w2) \<Rightarrow> (Inr (light_setup env insecure cfg'), snd (new_light_tray env w2))))"

section \<open>Unlinking and uninstalling\<close>

definition remove_if_named :: "hostenv \<Rightarrow> path \<Rightarrow> 'a world_scheme \<Rightarrow> 'a world_scheme" where
  "remove_if_named env p w = (if p = [] then w else snd (os_remove env p w))"

text \<open>The exit code and what is printed, to either stream.\<close>

definition println :: "string \<Rightarrow> string" where
  "println s = s @ [CHR 0x0A]"

definition run_unlink :: "instenv \<Rightarrow> string list \<Rightarrow> installer \<Rightarrow> (int \<times> string) \<times> installer" where
  "run_unlink env args m =
     (let h = ie_host env; p = (case args of [] \<Rightarrow> default_light_config_path h | a # _ \<Rightarrow> a)
      in (case load h p m of
            (Inl e, m1) \<Rightarrow> ((1, println (''unlink: load config: '' @ err_text e)), m1)
          | (Inr cfg, m1) \<Rightarrow>
              (let m2 = fold (remove_if_named h) [cf_cert_path cfg, cf_key_path cfg, cf_ca_path cfg] m1
               in (case os_remove h p m2 of
                     (rm, m3) \<Rightarrow>
                       (case (if rm = None \<or> errors_is (the rm) ErrNotExist then None else rm) of
                          Some e \<Rightarrow> ((1, println (''unlink: remove config: '' @ err_text e)), m3)
                        | None \<Rightarrow>
                            (case remove_logon_startup env m3 of
                               (Some e, m4) \<Rightarrow> ((1, println (''unlink: remove logon startup: '' @ err_text e)), m4)
                             | (None, m4) \<Rightarrow> ((0, println ''unlinked''), m4)))))))"

text \<open>The installed agent's \<open>unlink\<close>, as a child process.\<close>

definition unlink_child :: "instenv \<Rightarrow> path \<Rightarrow> installer \<Rightarrow> (goerr \<times> string) option \<times> installer" where
  "unlink_child env exe m =
     (case run_unlink env [] m of
        ((code, out), m1) \<Rightarrow> (if code = 0 then None else Some (Msg (''exit status '' @ show_int code), out), m1))"

definition run_uninstall :: "instenv \<Rightarrow> path res \<Rightarrow> installer \<Rightarrow> (int \<times> string) \<times> installer" where
  "run_uninstall env exe m =
     (case exe of
        Inl e \<Rightarrow> ((1, println (''uninstall: locate self: '' @ err_text e)), m)
      | Inr x \<Rightarrow>
          (let dir = path_dir x;
               cfg = \<lparr>ic_paths = \<lparr>ip_root = dir, ip_exe = x, ip_config = default_light_config_path (ie_host env),
                        ip_key = path_join dir ''client.key'', ip_log = []\<rparr>, ic_server_url = []\<rparr>
           in (case uninstall (new_manager (env\<lparr>ie_unlink := unlink_child env\<rparr>)) cfg m of
                 (Some e, m1) \<Rightarrow> ((1, println (''uninstall failed: '' @ err_text e)), m1)
               | (None, m1) \<Rightarrow> ((0, println ''uninstalled''), m1))))"

text \<open>
  \<open>main\<close>: the subcommands, else the agent itself, whose log is opened first (and is standard output
  if it cannot be). Serving, the process exits with 0 once the client has stopped. \<open>flags\<close> is what
  \<open>flag.Parse\<close> found: the configuration path, if given, and the insecure switch.
\<close>

datatype main_result = Exited int | Serving agent_setup

definition light_main ::
  "agentenv \<Rightarrow> instenv \<Rightarrow> string list \<Rightarrow> path option \<times> bool \<Rightarrow> path res \<Rightarrow> installer \<Rightarrow> main_result \<times> installer" where
  "light_main env ienv args flags exe m =
     (if args \<noteq> [] \<and> hd args = ''unlink''
      then (case run_unlink ienv (tl args) m of ((code, out), m1) \<Rightarrow> (Exited code, m1))
      else if args \<noteq> [] \<and> hd args = ''uninstall''
      then (case run_uninstall ienv exe m of ((code, out), m1) \<Rightarrow> (Exited code, m1))
      else (let m1 = snd (open_service_logger (ge_host env) (default_light_log_path (ge_host env)) m);
                p = (case fst flags of None \<Rightarrow> default_light_config_path (ge_host env) | Some p \<Rightarrow> p)
            in (case run_light_agent env p (snd flags) m1 of
                  (Inl e, m2) \<Rightarrow> (Exited 1, m2)
                | (Inr s, m2) \<Rightarrow> (Serving s, m2))))"

section \<open>The prompt\<close>

text \<open>\<open>wizardPrompter.Prompt\<close>: the welcome screen, its dash U+2014.\<close>

definition wizard_prompt :: "dialogenv \<Rightarrow> string \<Rightarrow> string \<Rightarrow> callbacks \<Rightarrow> bool \<times> callbacks" where
  "wizard_prompt env title body s =
     show_welcome env ''ReadyFleet'' title body
       [''You choose whether to allow it '' @ map chr [226, 128, 148] @ '' nothing connects until you do'',
        ''Opens your devices page, where you can accept or decline'',
        ''If you ignore this, the request expires on its own'']
       ''Questions or concerns? Contact readyapp@player-ready.co.uk.'' s"

section \<open>The tray's glue\<close>

definition tray_tooltip :: "string \<Rightarrow> conn_stats \<Rightarrow> engine_status \<Rightarrow> string" where
  "tray_tooltip version stats sb =
     ''ReadyFleet Light Agent v'' @ version @ [CHR 0x0A] @
     (if s_connected stats then ''Connected'' else ''Not connected'') @ [CHR 0x0A] @
     (if es_running sb
      then ''SolarBeam: running'' @ (if es_engine_version sb \<noteq> [] then '' (v'' @ es_engine_version sb @ '')'' else [])
      else ''SolarBeam: not running'')"

definition tray_menu :: "bool \<Rightarrow> action menu_item list" where
  "tray_menu paused =
     (let item = \<lparr>mi_id = 0, mi_label = [], mi_checked = False, mi_disabled = False, mi_separator = False, mi_on_click = None\<rparr>
      in [item\<lparr>mi_id := 100, mi_label := (if paused then ''Reconnect'' else ''Disconnect''), mi_on_click := Some ToggleConnection\<rparr>,
          item\<lparr>mi_id := 102, mi_label := ''Open hidden ReadyApp'', mi_on_click := Some OpenHiddenBrowser\<rparr>,
          item\<lparr>mi_separator := True\<rparr>,
          item\<lparr>mi_id := 101, mi_label := ''Quit ReadyFleet Light Agent'', mi_on_click := Some QuitTray\<rparr>])"

text \<open>The toggle's callback on the shared flag and the client.\<close>

definition toggle_connection :: "bool \<times> client \<Rightarrow> bool \<times> client" where
  "toggle_connection pc = (let p = \<not> fst pc in (p, set_paused p (snd pc)))"

text \<open>One tick of the poller: \<open>last\<close> is its \<open>lastConnected\<close>.\<close>

definition tray_tick ::
  "trayenv \<Rightarrow> string \<Rightarrow> path \<times> path \<Rightarrow> conn_stats \<Rightarrow> engine_status \<Rightarrow> bool \<Rightarrow> bool \<times> action tray \<Rightarrow> bool \<times> action tray" where
  "tray_tick env version icons stats sb paused lt =
     (let t1 = set_menu_items (tray_menu paused) (set_tooltip env (tray_tooltip version stats sb) (snd lt))
      in if s_connected stats \<noteq> fst lt \<and> fst icons \<noteq> [] \<and> snd icons \<noteq> []
         then (s_connected stats,
               snd (set_icon_path env (if s_connected stats then fst icons else snd icons) t1))
         else (fst lt, t1))"

section \<open>The files of the agent\<close>

text \<open>With \<open>LocalAppData\<close> set to a cleaned directory, the agent's paths are plain extensions of it.\<close>

definition standard_profile :: "hostenv \<Rightarrow> bool" where
  "standard_profile h \<longleftrightarrow> material_dir_ok (he_getenv h ''LocalAppData'')"

lemma agent_paths:
  assumes "standard_profile h"
  shows "light_app_data_dir h = he_getenv h ''LocalAppData'' @ CHR 0x5C # ''ReadyFleet Light''"
    "default_light_config_path h = light_app_data_dir h @ CHR 0x5C # ''config.json''"
    "path_dir (default_light_config_path h) = light_app_data_dir h"
    "path_join (light_app_data_dir h) ''tray-connected.ico'' = light_app_data_dir h @ CHR 0x5C # ''tray-connected.ico''"
    "path_join (light_app_data_dir h) ''tray-offline.ico'' = light_app_data_dir h @ CHR 0x5C # ''tray-offline.ico''"
    "material_dir_ok (light_app_data_dir h)"
proof -
  let ?b = "he_getenv h ''LocalAppData''" and ?d = "light_app_data_dir h"
  obtain v ds where b: "canonical v ds ?b" "ds \<noteq> []" "last ?b \<noteq> CHR '':''"
    using assms by (auto simp: standard_profile_def material_dir_ok_def)
  have "?b \<noteq> []" using b(1) by (auto simp: canonical_def)
  moreover have "plain_elem ''ReadyFleet Light''" by (simp add: plain_elem_def dot_def dotdot_def is_sep_def)
  note j = join_plain[OF b this]
  ultimately show dir: "?d = ?b @ CHR 0x5C # ''ReadyFleet Light''" by (simp add: light_app_data_dir_def j)
  have d: "canonical v (ds @ [''ReadyFleet Light'']) ?d" "ds @ [''ReadyFleet Light''] \<noteq> []" "last ?d \<noteq> CHR '':''"
    using j(2) by (simp_all add: dir)
  then show "material_dir_ok ?d" unfolding material_dir_ok_def by blast
  have join: "path_join ?d e = ?d @ CHR 0x5C # e \<and> path_dir (?d @ CHR 0x5C # e) = ?d" if "plain_elem e" for e
    using join_plain(1)[OF d that] path_dir_snoc[OF d(1,2) that] by simp
  have "plain_elem ''config.json''" "plain_elem ''tray-connected.ico''" "plain_elem ''tray-offline.ico''"
    by (simp_all add: plain_elem_def dot_def dotdot_def is_sep_def)
  then show "default_light_config_path h = ?d @ CHR 0x5C # ''config.json''"
    "path_dir (default_light_config_path h) = ?d"
    "path_join ?d ''tray-connected.ico'' = ?d @ CHR 0x5C # ''tray-connected.ico''"
    "path_join ?d ''tray-offline.ico'' = ?d @ CHR 0x5C # ''tray-offline.ico''"
    using join by (simp_all add: default_light_config_path_def)
qed

section \<open>Starting once, and starting again\<close>

lemma write_tray_icons_frame:
  assumes "q \<noteq> light_app_data_dir (ge_host env)" "q \<noteq> path_join (light_app_data_dir (ge_host env)) ''tray-connected.ico''"
    and "q \<noteq> path_join (light_app_data_dir (ge_host env)) ''tray-offline.ico''"
  shows "w_fs (snd (write_tray_icons env w)) q = w_fs w q"
  using assms
  by (auto simp: write_tray_icons_def Let_def dest!: os_mkdir_all_frame os_write_file_frame split: prod.split option.split)

lemma load_fs: "load h p w = (r, w1) \<Longrightarrow> w1 = tick w"
  by (auto simp: load_def dest: os_read_file_frame split: prod.splits sum.splits)

text \<open>A configuration with a server URL comes from a readable file, and is read again from its bytes.\<close>

lemma load_again:
  assumes "load h p w = (Inr c, w1)" "cf_server_url c \<noteq> []" "w_fs w' p = w_fs w p" "he_fault h (w_tick w') = None"
  shows "load h p w' = (Inr c, tick w')"
proof -
  have "c \<noteq> zero_config" using assms(2) by (auto simp: zero_config_def)
  then obtain b where "os_read_file h p w = (Inr b, w1)" "Option.bind (json_parse b) decode_config = Some c"
    using assms(1) by (auto simp: load_def split: prod.splits sum.splits if_splits option.splits)
  moreover from this(1) have "w_fs w' p = Some (File b)" using os_read_file_Inr assms(3) by simp
  ultimately show ?thesis using assms(4) by (simp add: load_def os_read_file_def)
qed

lemma load_saved:
  assumes "w_fs w' p = Some (File (config_text c))" "he_fault h (w_tick w') = None"
  shows "load h p w' = (Inr c, tick w')"
  using assms by (simp add: load_def os_read_file_def config_text_reads_back)

text \<open>The configuration a start goes on with.\<close>

definition enrolment_of :: "agentenv \<Rightarrow> path \<Rightarrow> bool \<Rightarrow> config \<Rightarrow> config \<Rightarrow> bool" where
  "enrolment_of env p insecure cfg0 cfg \<longleftrightarrow>
     (if is_enrolled cfg0 then cfg = cfg0
      else cf_enrollment_secret cfg = [] \<and>
        (\<exists>r. complete_response (ge_enroll env) (light_enroll_options env p cfg0 insecure) r \<and>
           cf_machine_id cfg = rs_machine_id r))"

lemma run_light_enrollment_Inr:
  assumes "run_light_enrollment env p cfg0 insecure w = (Inr cfg, w')" "\<not> is_enrolled cfg0"
    and "material_dir_ok (path_dir p)" "cf_server_url cfg0 \<noteq> []"
  shows "w_fs w' p = Some (File (config_text cfg))" "is_enrolled cfg" "enrolment_of env p insecure cfg0 cfg"
    "cf_server_url cfg \<noteq> []"
proof -
  let ?o = "light_enroll_options env p cfg0 insecure"
  obtain r w1 where en: "enroll (ge_enroll env) ?o w = (Inr r, w1)"
    and sv: "save (ge_host env) p (with_enrollment cfg0 r) w1 = (None, w')" and cfg: "cfg = with_enrollment cfg0 r"
    using assms(1) by (auto simp: run_light_enrollment_def split: prod.splits sum.splits option.splits)
  have "eo_dir ?o = path_dir p" by (simp add: light_enroll_options_def)
  then obtain q where q: "complete_response (ge_enroll env) ?o q" "er_machine_id r = rs_machine_id q"
      "er_cert_path r \<noteq> []" "er_key_path r \<noteq> []"
    using enroll_effect[OF _ en] assms(3) by auto
  show "w_fs w' p = Some (File (config_text cfg))"
    using config_writer.success[of "ge_host env" p "config_text cfg" w1 w'] sv cfg by (simp add: save_def)
  have "rs_machine_id q \<noteq> []" using q(1) by (auto simp: complete_response_def)
  then show "is_enrolled cfg" "enrolment_of env p insecure cfg0 cfg" "cf_server_url cfg \<noteq> []"
    using q assms(2,4) by (auto simp: cfg with_enrollment_def is_enrolled_def enrolment_of_def)
qed

text \<open>What a successful start went through.\<close>

lemma run_light_agent_Inr:
  assumes "run_light_agent env p insecure w = (Inr s, w')"
  obtains cfg0 cfg w2 where "load (ge_host env) p w = (Inr cfg0, tick w)" "cf_server_url cfg0 \<noteq> []"
      "if is_enrolled cfg0 then cfg = cfg0 \<and> w2 = tick w
       else run_light_enrollment env p cfg0 insecure (tick w) = (Inr cfg, w2)"
      "s = light_setup env insecure cfg" "w' = snd (write_tray_icons env w2)"
proof -
  obtain r w1 where ld: "load (ge_host env) p w = (r, w1)" by force
  have w1: "w1 = tick w" using load_fs[OF ld] .
  obtain cfg0 where r: "r = Inr cfg0" using assms ld by (cases r) (auto simp: run_light_agent_def)
  show ?thesis
    using that[of cfg0] assms ld unfolding w1 r
    by (auto simp: run_light_agent_def split: if_splits prod.splits sum.splits)
qed

lemma run_light_agent_enrolled:
  assumes "load (ge_host env) p w = (Inr cfg, w1)" "is_enrolled cfg" "cf_server_url cfg \<noteq> []"
  shows "fst (run_light_agent env p insecure w) = Inr (light_setup env insecure cfg)"
  using assms by (simp add: run_light_agent_def)

lemma config_apart:
  assumes "standard_profile h"
  shows "default_light_config_path h \<noteq> light_app_data_dir h"
    "default_light_config_path h \<noteq> path_join (light_app_data_dir h) ''tray-connected.ico''"
    "default_light_config_path h \<noteq> path_join (light_app_data_dir h) ''tray-offline.ico''"
  by (simp_all add: agent_paths(2,4,5)[OF assms])

text \<open>
  C4. The machine enrols once. A start that comes up runs on an enrolled configuration, which is what
  the disk then holds: the one loaded, or one carrying the identity the server issued in a complete
  2xx answer and no enrolment secret any more. A second start, whatever the server would answer it
  and even if no key can be generated, reads that configuration back and comes up with the same
  client, update policy and engine paths.
\<close>

theorem enrols_once:
  assumes profile: "standard_profile (ge_host env)"
    and first: "run_light_agent env (default_light_config_path (ge_host env)) insecure w = (Inr s, w')"
    and readable: "he_fault (ge_host env) (w_tick w') = None"
  shows "\<exists>cfg0 cfg. load (ge_host env) (default_light_config_path (ge_host env)) w = (Inr cfg0, tick w) \<and>
    enrolment_of env (default_light_config_path (ge_host env)) insecure cfg0 cfg \<and> is_enrolled cfg \<and>
    s = light_setup env insecure cfg \<and>
    load (ge_host env) (default_light_config_path (ge_host env)) w' = (Inr cfg, tick w') \<and>
    (\<forall>env'. ge_host env' = ge_host env \<and> ge_version env' = ge_version env \<longrightarrow>
       fst (run_light_agent env' (default_light_config_path (ge_host env)) insecure w') = Inr s)"
proof -
  let ?h = "ge_host env" and ?p = "default_light_config_path (ge_host env)"
  obtain cfg0 cfg w2 where run: "load ?h ?p w = (Inr cfg0, tick w)" "cf_server_url cfg0 \<noteq> []"
      "if is_enrolled cfg0 then cfg = cfg0 \<and> w2 = tick w
       else run_light_enrollment env ?p cfg0 insecure (tick w) = (Inr cfg, w2)"
      "s = light_setup env insecure cfg" "w' = snd (write_tray_icons env w2)"
    using run_light_agent_Inr[OF first] by blast
  have keep: "w_fs w' ?p = w_fs w2 ?p"
    using write_tray_icons_frame config_apart[OF profile] by (simp add: run(5))
  have dir: "material_dir_ok (path_dir ?p)" using agent_paths(3,6)[OF profile] by simp
  have res: "is_enrolled cfg \<and> enrolment_of env ?p insecure cfg0 cfg \<and> cf_server_url cfg \<noteq> [] \<and>
      load ?h ?p w' = (Inr cfg, tick w')"
  proof (cases "is_enrolled cfg0")
    case True
    then show ?thesis using load_again[OF run(1,2) _ readable] keep run(2,3) by (simp add: enrolment_of_def)
  next
    case False
    then have "run_light_enrollment env ?p cfg0 insecure (tick w) = (Inr cfg, w2)" using run(3) by simp
    from run_light_enrollment_Inr[OF this False dir run(2)] show ?thesis
      using load_saved[OF _ readable] keep by simp
  qed
  have "fst (run_light_agent env' ?p insecure w') = Inr s" if "ge_host env' = ?h" "ge_version env' = ge_version env" for env'
    using run_light_agent_enrolled[of env' ?p w' cfg "tick w'"] res that by (simp add: run(4) light_setup_def light_runtime_config_def)
  then show ?thesis using run(1,4) res by blast
qed

definition sample_agentenv :: agentenv where
  "sample_agentenv = \<lparr>ge_enroll = sample_enrollenv\<lparr>ee_host := quiet_env\<lparr>he_getenv := (\<lambda>k. sample_dir)\<rparr>\<rparr>,
     ge_major = Inr ''11'', ge_arch = ''amd64'', ge_version = ''1'', ge_icons = ([], [])\<rparr>"

definition fresh_config :: config where
  "fresh_config = zero_config\<lparr>cf_server_url := ''wss://h/agent'', cf_enrollment_secret := ''rft''\<rparr>"

definition fresh_world :: world where
  "fresh_world = bare_world\<lparr>w_fs := [default_light_config_path (ge_host sample_agentenv) \<mapsto> File (config_text fresh_config)]\<rparr>"

lemma sample_profile: "standard_profile (ge_host sample_agentenv)"
  using sample_dir_ok by (simp add: standard_profile_def sample_agentenv_def)

lemma fresh_start:
  "\<exists>s w'. run_light_agent sample_agentenv (default_light_config_path (ge_host sample_agentenv)) False fresh_world = (Inr s, w')"
proof -
  let ?h = "ge_host sample_agentenv" and ?p = "default_light_config_path (ge_host sample_agentenv)"
  let ?o = "light_enroll_options sample_agentenv ?p fresh_config False" and ?d = "light_app_data_dir ?h"
  have quiet: "\<forall>n. he_fault ?h n = None" by (simp add: sample_agentenv_def)
  note paths = agent_paths[OF sample_profile]
  have ld: "load ?h ?p fresh_world = (Inr fresh_config, tick fresh_world)"
    using quiet by (intro load_saved) (simp_all add: fresh_world_def)
  have apart: "\<not> material_path ?d ?p" "\<not> material_path ?d (?p @ ''.tmp'')"
    using material_paths[OF paths(6)] by (auto simp: material_path_def paths(2))
  have free: "\<forall>q. material_path ?d q \<longrightarrow> w_fs (tick fresh_world) q = None"
    using apart by (auto simp: fresh_world_def bare_world_def)
  have dir: "eo_dir ?o = ?d" by (simp add: light_enroll_options_def paths(3))
  have "eo_secret ?o \<noteq> []" "eo_url ?o \<noteq> []"
    by (simp_all add: light_enroll_options_def fresh_config_def zero_config_def derive_enrollment_url_def)
  from enroll_quiet[OF quiet paths(6) free dir this]
  obtain x w1 where en: "enroll (ge_enroll sample_agentenv) ?o (tick fresh_world) = (Inr x, w1)"
    by (auto simp: sample_agentenv_def)
  have "\<forall>q. \<not> material_path ?d q \<longrightarrow> w_fs w1 q = w_fs fresh_world q"
    using enroll_effect[OF _ en] paths(6) dir by simp
  then have "w_fs w1 ?p \<noteq> Some Dir" "w_fs w1 (?p @ ''.tmp'') \<noteq> Some Dir"
    using apart by (simp_all add: fresh_world_def bare_world_def)
  from save_quiet[OF quiet this] obtain w2 where "save ?h ?p (with_enrollment fresh_config x) w1 = (None, w2)" by blast
  then show ?thesis
    using ld en by (simp add: run_light_agent_def run_light_enrollment_def fresh_config_def zero_config_def is_enrolled_def)
qed

theorem enrols_once_witness:
  "\<exists>s w'. run_light_agent sample_agentenv (default_light_config_path (ge_host sample_agentenv)) False fresh_world = (Inr s, w') \<and>
     fst (run_light_agent (sample_agentenv\<lparr>ge_enroll := (ge_enroll sample_agentenv)\<lparr>ee_key := Inl (Msg ''no entropy'')\<rparr>\<rparr>)
       (default_light_config_path (ge_host sample_agentenv)) False w') = Inr s"
proof -
  obtain s w' where run: "run_light_agent sample_agentenv (default_light_config_path (ge_host sample_agentenv)) False fresh_world = (Inr s, w')"
    using fresh_start by blast
  have "he_fault (ge_host sample_agentenv) (w_tick w') = None" by (simp add: sample_agentenv_def)
  with run enrols_once[OF sample_profile run this] show ?thesis by auto
qed

section \<open>What unlinking leaves\<close>

text \<open>The environment never reports as missing what is there.\<close>

definition honest :: "instenv \<Rightarrow> bool" where
  "honest env \<longleftrightarrow> (\<forall>n e k. he_fault (ie_host env) n = Some (e, k) \<longrightarrow> \<not> errors_is e ErrNotExist) \<and>
     (\<forall>n. ie_registry env n \<noteq> Some (Sentinel ErrNotExist))"

lemma os_remove_more: "os_remove env p w = (r, w') \<Longrightarrow> world.more w' = world.more w"
  by (auto simp: os_remove_def split: if_splits option.splits)

lemma os_remove_gone:
  assumes "os_remove h p w = (r, w')" "r = None \<or> errors_is (the r) ErrNotExist"
    and "\<And>n e k. he_fault h n = Some (e, k) \<Longrightarrow> \<not> errors_is e ErrNotExist"
  shows "w_fs w' = (w_fs w)(p := None)"
  using assms by (auto simp: os_remove_def fun_upd_idem_iff split: option.splits if_splits)

text \<open>Removing the files named: each is gone, or a call failed; no other changes.\<close>

lemma remove_if_named_effect:
  "(\<forall>q. q \<noteq> p \<longrightarrow> w_fs (remove_if_named h p w) q = w_fs w q) \<and>
   (p \<noteq> [] \<longrightarrow> w_fs (remove_if_named h p w) p = None \<or>
      w_fs (remove_if_named h p w) p = w_fs w p \<and> he_fault h (w_tick w) \<noteq> None) \<and>
   world.more (remove_if_named h p w) = world.more w \<and> w_tick w \<le> w_tick (remove_if_named h p w) \<and>
   (p \<noteq> [] \<longrightarrow> w_tick w < w_tick (remove_if_named h p w))"
proof (cases "p = []")
  case False
  obtain r w' where rm: "os_remove h p w = (r, w')" by force
  then have "remove_if_named h p w = w'" using False by (simp add: remove_if_named_def)
  then show ?thesis
    using os_remove_frame[OF rm] os_remove_cases[OF rm] os_remove_more[OF rm] os_remove_tick[OF rm] by auto
qed (simp add: remove_if_named_def)

definition removed_or_failed :: "hostenv \<Rightarrow> path \<Rightarrow> 'a world_scheme \<Rightarrow> 'a world_scheme \<Rightarrow> bool" where
  "removed_or_failed h q w w' \<longleftrightarrow>
     w_fs w' q = None \<or> (w_fs w' q = w_fs w q \<and> (\<exists>n. w_tick w \<le> n \<and> n < w_tick w' \<and> he_fault h n \<noteq> None))"

lemma remove_all_named_effect:
  "(\<forall>q. q \<notin> set ps \<longrightarrow> w_fs (fold (remove_if_named h) ps w) q = w_fs w q) \<and>
   (\<forall>q \<in> set ps. q \<noteq> [] \<longrightarrow> removed_or_failed h q w (fold (remove_if_named h) ps w)) \<and>
   (\<forall>q. w_fs (fold (remove_if_named h) ps w) q \<in> {None, w_fs w q}) \<and>
   world.more (fold (remove_if_named h) ps w) = world.more w \<and> w_tick w \<le> w_tick (fold (remove_if_named h) ps w)"
proof (induction ps arbitrary: w)
  case (Cons p ps)
  let ?w1 = "remove_if_named h p w" and ?w' = "fold (remove_if_named h) (p # ps) w"
  note one = remove_if_named_effect[of p h w] and rest = Cons.IH[of ?w1]
  have keep: "\<forall>q. w_fs ?w' q \<in> {None, w_fs ?w1 q}" and le: "w_tick ?w1 \<le> w_tick ?w'" using rest by simp_all
  have sub: "\<forall>q. w_fs ?w1 q \<in> {None, w_fs w q}" using one by (metis insertCI remove_if_named_def)
  have "removed_or_failed h q w ?w'" if "q \<in> set (p # ps)" "q \<noteq> []" for q
  proof (cases "w_fs ?w' q = None")
    case False
    then have same: "w_fs ?w' q = w_fs ?w1 q" "w_fs ?w1 q = w_fs w q" using keep sub by (metis insertE singletonD)+
    show ?thesis
    proof (cases "q = p")
      case True
      then have "he_fault h (w_tick w) \<noteq> None" "w_tick w < w_tick ?w1" using one same False that(2) by auto
      then show ?thesis using same le unfolding removed_or_failed_def
        by (intro disjI2 conjI exI[of _ "w_tick w"]) auto
    next
      case neq: False
      then have "removed_or_failed h q ?w1 ?w'" using rest that by simp
      then obtain n where "w_tick ?w1 \<le> n" "n < w_tick ?w'" "he_fault h n \<noteq> None"
        using False by (auto simp: removed_or_failed_def)
      moreover have "w_tick w \<le> w_tick ?w1" using one by simp
      ultimately show ?thesis using same unfolding removed_or_failed_def
        by (intro disjI2 conjI exI[of _ n]) auto
    qed
  qed (simp add: removed_or_failed_def)
  moreover have "\<forall>q. w_fs ?w' q \<in> {None, w_fs w q}" using keep sub by (metis insertE insertCI singletonD)
  ultimately show ?case using one rest by auto
qed simp

lemma remove_logon_startup_effect:
  assumes "remove_logon_startup env m = (r, m')"
  shows "w_fs m' = w_fs m" "honest env \<Longrightarrow> r = None \<Longrightarrow> in_run_value m' = None" "w_tick m \<le> w_tick m'"
    "in_run_value m = None \<Longrightarrow> in_run_value m' = None"
  using assms
  by (auto simp: remove_logon_startup_def honest_def Let_def tick_def split: option.splits if_splits)

text \<open>
  C28. An unlink that exits with 0 has forgotten the machine: the configuration file is gone and no
  logon entry is left, every certificate, key and CA file the configuration named is gone unless a
  call failed on the way, and no other file is touched. Nothing it does can bring a file back.
\<close>

theorem unlink_forgets:
  assumes "honest env" and "run_unlink env args m = ((0, out), m')"
    and "p = (case args of [] \<Rightarrow> default_light_config_path (ie_host env) | a # as \<Rightarrow> a)"
  shows "\<exists>cfg. load (ie_host env) p m = (Inr cfg, tick m) \<and> w_fs m' p = None \<and> in_run_value m' = None \<and>
    (\<forall>q \<in> {cf_cert_path cfg, cf_key_path cfg, cf_ca_path cfg}. q = [] \<or> removed_or_failed (ie_host env) q m m') \<and>
    (\<forall>q. q \<notin> {p, cf_cert_path cfg, cf_key_path cfg, cf_ca_path cfg} \<longrightarrow> w_fs m' q = w_fs m q) \<and>
    (\<forall>q. w_fs m' q \<in> {None, w_fs m q})"
proof -
  let ?h = "ie_host env"
  obtain r m1 where ld: "load ?h p m = (r, m1)" by force
  have m1: "m1 = tick m" using load_fs[OF ld] .
  obtain cfg where r: "r = Inr cfg"
    using assms(2) ld unfolding assms(3) by (cases r) (auto simp: run_unlink_def Let_def)
  let ?ps = "[cf_cert_path cfg, cf_key_path cfg, cf_ca_path cfg]"
  let ?m2 = "fold (remove_if_named ?h) ?ps (tick m)"
  obtain rm m3 where rm: "os_remove ?h p ?m2 = (rm, m3)" by force
  have ok: "rm = None \<or> errors_is (the rm) ErrNotExist" and lg: "remove_logon_startup env m3 = (None, m')"
    using assms(2) ld rm unfolding assms(3) m1 r
    by (auto simp: run_unlink_def Let_def split: if_splits option.splits prod.splits)
  have fs3: "w_fs m3 = (w_fs ?m2)(p := None)"
    by (rule os_remove_gone[OF rm ok]) (use assms(1) in \<open>auto simp: honest_def\<close>)
  note all = remove_all_named_effect[of ?ps ?h "tick m"] and log = remove_logon_startup_effect[OF lg]
  have fs: "w_fs m' = (w_fs ?m2)(p := None)" using log(1) fs3 by simp
  have tk: "w_tick ?m2 < w_tick m'" using os_remove_tick[OF rm] log(3) by simp
  have gone: "removed_or_failed ?h q m m'" if q: "q \<in> set ?ps" "q \<noteq> []" for q
  proof -
    have "removed_or_failed ?h q (tick m) ?m2" using all q by blast
    then consider "w_fs ?m2 q = None"
      | n where "w_fs ?m2 q = w_fs m q" "Suc (w_tick m) \<le> n" "n < w_tick ?m2" "he_fault ?h n \<noteq> None"
      by (auto simp: removed_or_failed_def)
    then show ?thesis
    proof cases
      case 2
      then show ?thesis using fs tk unfolding removed_or_failed_def
        by (cases "q = p") (auto intro!: exI[of _ n])
    qed (simp add: removed_or_failed_def fs)
  qed
  have "w_fs m' p = None" by (simp add: fs)
  moreover have "in_run_value m' = None" using log(2) assms(1) by simp
  moreover have "\<forall>q \<in> {cf_cert_path cfg, cf_key_path cfg, cf_ca_path cfg}. q = [] \<or> removed_or_failed ?h q m m'"
    using gone by auto
  moreover have "\<forall>q. q \<notin> {p, cf_cert_path cfg, cf_key_path cfg, cf_ca_path cfg} \<longrightarrow> w_fs m' q = w_fs m q"
    using all fs by simp
  moreover have "\<forall>q. w_fs m' q \<in> {None, w_fs m q}" using all fs by simp
  ultimately show ?thesis using ld unfolding m1 r by blast
qed

text \<open>Without faults every unlink succeeds, on a machine linked or not.\<close>

lemma run_unlink_quiet:
  assumes "\<forall>n. he_fault (ie_host env) n = None" "\<forall>n. ie_registry env n = None"
    and "load (ie_host env) (case args of [] \<Rightarrow> default_light_config_path (ie_host env) | a # as \<Rightarrow> a) m = (Inr cfg, tick m)"
  shows "\<exists>m'. run_unlink env args m = ((0, println ''unlinked''), m')"
proof -
  have "\<exists>m'. remove_logon_startup env m = (None, m')" for m
    using assms(2) by (auto simp: remove_logon_startup_def Let_def split: option.splits)
  then obtain f where f: "remove_logon_startup env m = (None, f m)" for m by metis
  show ?thesis
    using assms by (auto simp: run_unlink_def Let_def os_remove_def f split: list.splits)
qed

definition linked_config :: config where
  "linked_config = zero_config\<lparr>cf_server_url := ''wss://h'', cf_machine_id := ''m'', cf_cert_path := ''crt'', cf_key_path := ''key''\<rparr>"

definition linked_machine :: installer where
  "linked_machine = sample_installer\<lparr>w_fs := [''c'' \<mapsto> File (config_text linked_config), ''crt'' \<mapsto> File ''C'', ''x'' \<mapsto> File ''K''],
     in_run_value := Some ''a''\<rparr>"

lemma sample_honest: "honest sample_instenv"
  using pinned_quiet by (simp add: honest_def sample_instenv_def)

theorem unlink_forgets_witness:
  "\<exists>m'. run_unlink sample_instenv [''c''] linked_machine = ((0, println ''unlinked''), m') \<and>
     w_fs m' ''c'' = None \<and> w_fs m' ''crt'' = None \<and> w_fs m' ''x'' = Some (File ''K'') \<and> in_run_value m' = None"
proof -
  have h: "ie_host sample_instenv = pinned_env" "he_fault pinned_env n = None" "ie_registry sample_instenv k = None" for n k
    using pinned_quiet by (simp_all add: sample_instenv_def)
  have "load pinned_env ''c'' linked_machine = (Inr linked_config, tick linked_machine)"
    by (rule load_saved) (simp_all add: linked_machine_def h)
  then have "\<exists>m'. run_unlink sample_instenv [''c''] linked_machine = ((0, println ''unlinked''), m')"
    by (intro run_unlink_quiet) (simp_all add: h)
  then obtain m' where run: "run_unlink sample_instenv [''c''] linked_machine = ((0, println ''unlinked''), m')" by blast
  obtain cfg where e: "load pinned_env ''c'' linked_machine = (Inr cfg, tick linked_machine)" "w_fs m' ''c'' = None"
      "in_run_value m' = None"
      "\<forall>q \<in> {cf_cert_path cfg, cf_key_path cfg, cf_ca_path cfg}. q = [] \<or> removed_or_failed pinned_env q linked_machine m'"
      "\<forall>q. q \<notin> {''c'', cf_cert_path cfg, cf_key_path cfg, cf_ca_path cfg} \<longrightarrow> w_fs m' q = w_fs linked_machine q"
    using unlink_forgets[OF sample_honest run, of "''c''"] by (auto simp: h)
  have "load pinned_env ''c'' linked_machine = (Inr linked_config, tick linked_machine)" by fact
  with e(1) have "cfg = linked_config" by simp
  with e(4,5) have "w_fs m' ''crt'' = None" "w_fs m' ''x'' = Some (File ''K'')"
    by (simp_all add: linked_config_def zero_config_def removed_or_failed_def h linked_machine_def)
  then show ?thesis using run e by blast
qed

section \<open>Uninstalling the agent from itself\<close>

lemma os_remove_all_more: "os_remove_all env p w = (r, w') \<Longrightarrow> world.more w' = world.more w"
  by (rule calls_more(6))

lemma uninstall_success:
  assumes "uninstall (new_manager env) cfg m = (None, m')" "honest env"
  shows "in_run_value m' = None"
proof -
  obtain m2 m3 where rm: "remove_logon_startup env m2 = (None, m3)" "remove_install_dir env (ip_root (ic_paths cfg)) m3 = (None, m')"
    using assms(1)
    by (auto simp: uninstall_def new_manager_def split: prod.splits option.splits)
  have "in_run_value m3 = None" using remove_logon_startup_effect(2)[OF rm(1) assms(2)] by simp
  moreover have "world.more m' = world.more m3"
    using rm(2) by (auto simp: remove_install_dir_def dest: os_remove_all_more split: prod.splits option.splits)
  ultimately show ?thesis using installer_fields by metis
qed

text \<open>
  C24. \<open>lightagent uninstall\<close> exits with 0 only when the teardown is complete: nothing is left below
  the directory of the executable, the tombstone of a failed unlink included, and no logon entry.
  Installed in the agent's own data directory, that is the configuration, the certificate and the
  private key, even if the \<open>unlink\<close> it runs first as a child failed.
\<close>

theorem uninstall_end_to_end:
  assumes "honest env" and "material_dir_ok d" and "run_uninstall env (Inr (d @ CHR 0x5C # ''lightagent.exe'')) m = ((0, out), m')"
  shows "(\<forall>q. is_under d q \<longrightarrow> w_fs m' q = None) \<and> in_run_value m' = None \<and>
    (standard_profile (ie_host env) \<and> d = light_app_data_dir (ie_host env) \<longrightarrow>
       w_fs m' (default_light_config_path (ie_host env)) = None \<and>
       (\<forall>r k. \<forall>pc \<in> set (material d r k). w_fs m' (fst pc) = None))"
proof -
  obtain v ds where d: "canonical v ds d" "ds \<noteq> []" using assms(2) by (auto simp: material_dir_ok_def)
  have "plain_elem ''lightagent.exe''" by (simp add: plain_elem_def dot_def dotdot_def is_sep_def)
  from path_dir_snoc[OF d this] have dir: "path_dir (d @ CHR 0x5C # ''lightagent.exe'') = d" .
  define env' where "env' = env\<lparr>ie_unlink := unlink_child env\<rparr>"
  obtain cfg where un: "uninstall (new_manager env') cfg m = (None, m')" and root: "ip_root (ic_paths cfg) = d"
    using assms(3) by (auto simp: run_uninstall_def Let_def dir env'_def split: prod.splits option.splits)
  have hon: "honest env'" using assms(1) by (simp add: honest_def env'_def)
  obtain m1 where "os_remove_all (ie_host env') d m1 = (None, m')" using uninstall_None[OF un] root by auto
  then have gone: "\<forall>q. is_under d q \<longrightarrow> w_fs m' q = None" using not_under_survives by blast
  have below: "is_under d (d @ CHR 0x5C # e)" for e by (simp add: is_under_def has_prefix_def)
  have "\<forall>r k. \<forall>pc \<in> set (material d r k). is_under d (fst pc)"
    using below material_paths[OF assms(2)] by (simp add: material_def)
  moreover have "standard_profile (ie_host env) \<Longrightarrow> d = light_app_data_dir (ie_host env) \<Longrightarrow>
      is_under d (default_light_config_path (ie_host env))"
    using agent_paths(2) below by simp
  ultimately show ?thesis using gone uninstall_success[OF un hon] by blast
qed

text \<open>A machine installed in one directory; the child \<open>unlink\<close> finds no configuration to remove.\<close>

theorem uninstall_end_to_end_witness:
  "\<exists>m'. run_uninstall sample_instenv (Inr (sample_dir @ CHR 0x5C # ''lightagent.exe'')) linked_machine = ((0, println ''uninstalled''), m') \<and>
     in_run_value m' = None \<and> w_fs m' sample_dir = None"
proof -
  let ?env = "sample_instenv\<lparr>ie_unlink := unlink_child sample_instenv\<rparr>"
  have h: "ie_host sample_instenv = pinned_env" "he_fault pinned_env n = None" "ie_registry sample_instenv k = None" for n k
    using pinned_quiet by (simp_all add: sample_instenv_def)
  have p: "default_light_config_path pinned_env = ''lightagent-data'' @ CHR 0x5C # ''config.json''" by code_simp
  have "load pinned_env (default_light_config_path pinned_env) linked_machine = (Inr zero_config, tick linked_machine)"
    by (simp add: load_def os_read_file_def h p linked_machine_def)
  then have "\<exists>m'. run_unlink sample_instenv [] linked_machine = ((0, println ''unlinked''), m')"
    by (intro run_unlink_quiet) (simp_all add: h)
  then obtain m1 where "run_unlink sample_instenv [] linked_machine = ((0, println ''unlinked''), m1)" by blast
  then have "\<exists>m'. uninstall (new_manager ?env) cfg linked_machine = (None, m')" for cfg
    by (auto simp: uninstall_def new_manager_def unlink_online_def unlink_child_def h remove_logon_startup_def
        remove_install_dir_def os_remove_all_def split: option.split)
  then obtain m' where "uninstall (new_manager ?env) \<lparr>ic_paths = \<lparr>ip_root = sample_dir, ip_exe = sample_dir @ CHR 0x5C # ''lightagent.exe'',
      ip_config = default_light_config_path pinned_env, ip_key = path_join sample_dir ''client.key'', ip_log = []\<rparr>, ic_server_url = []\<rparr>
      linked_machine = (None, m')"
    by blast
  moreover have "path_dir (sample_dir @ CHR 0x5C # ''lightagent.exe'') = sample_dir" by code_simp
  ultimately have run: "run_uninstall sample_instenv (Inr (sample_dir @ CHR 0x5C # ''lightagent.exe'')) linked_machine = ((0, println ''uninstalled''), m')"
    by (simp add: run_uninstall_def Let_def h)
  then show ?thesis using uninstall_end_to_end[OF sample_honest sample_dir_ok run] by (auto simp: is_under_def)
qed

section \<open>The poller\<close>

text \<open>The ticks of the poller from its start, each with what it reads.\<close>

definition tray_ticks ::
  "trayenv \<Rightarrow> string \<Rightarrow> path \<times> path \<Rightarrow> (conn_stats \<times> engine_status \<times> bool) list \<Rightarrow> action tray \<Rightarrow> bool \<times> action tray" where
  "tray_ticks env version icons xs t =
     fold (\<lambda>(stats, sb, paused). tray_tick env version icons stats sb paused) xs (False, t)"

definition icon_loads :: "'act tray \<Rightarrow> nat" where
  "icon_loads t = length (filter (\<lambda>c. case c of LoadImage i \<Rightarrow> True | _ \<Rightarrow> False) (t_calls t))"

fun changes :: "bool \<Rightarrow> bool list \<Rightarrow> nat" where
  "changes b [] = 0"
| "changes b (x # xs) = (if x \<noteq> b then Suc (changes x xs) else changes b xs)"

lemma set_tooltip_effect:
  "t_state (set_tooltip env s t) = t_state t" "icon_loads (set_tooltip env s t) = icon_loads t"
  "t_state t \<noteq> None \<Longrightarrow> t_tooltip (set_tooltip env s t) = s"
  by (auto simp: set_tooltip_def shell_notify_def icon_loads_def split: option.splits)

lemma set_menu_items_effect:
  "map_option ts_items (t_state (set_menu_items is t)) = map_option (\<lambda>_. is) (t_state t)"
  "icon_loads (set_menu_items is t) = icon_loads t" "t_tooltip (set_menu_items is t) = t_tooltip t"
  "t_state (set_menu_items is t) = None \<longleftrightarrow> t_state t = None"
  by (simp_all add: set_menu_items_def icon_loads_def option.map_comp comp_def)

lemma set_icon_path_effect:
  assumes "utf16_from_string p = Inr u" "\<forall>n. te_load env n p = None" "t_state t \<noteq> None"
  shows "icon_loads (snd (set_icon_path env p t)) = Suc (icon_loads t)"
    "t_tooltip (snd (set_icon_path env p t)) = t_tooltip t"
    "map_option ts_items (t_state (snd (set_icon_path env p t))) = map_option ts_items (t_state t)"
    "t_state (snd (set_icon_path env p t)) \<noteq> None"
  using assms
  by (auto simp: set_icon_path_def load_icon_from_file_def shell_notify_def icon_loads_def Let_def split: option.splits)

definition icons_load :: "trayenv \<Rightarrow> path \<times> path \<Rightarrow> bool" where
  "icons_load env icons \<longleftrightarrow> (\<forall>p \<in> {fst icons, snd icons}.
     p \<noteq> [] \<and> chr 0 \<notin> set p \<and> (\<forall>n. te_load env n p = None))"

lemma tray_tick_effect:
  assumes "icons_load env icons" "t_state t \<noteq> None"
  shows "case tray_tick env version icons stats sb paused (b0, t) of (b', t') \<Rightarrow>
    b' = s_connected stats \<and> t_state t' \<noteq> None \<and> map_option ts_items (t_state t') = Some (tray_menu paused) \<and>
    t_tooltip t' = tray_tooltip version stats sb \<and>
    icon_loads t' = icon_loads t + (if s_connected stats = b0 then 0 else 1)"
proof -
  let ?t1 = "set_menu_items (tray_menu paused) (set_tooltip env (tray_tooltip version stats sb) t)"
  let ?p = "if s_connected stats then fst icons else snd icons"
  have t1: "t_state ?t1 \<noteq> None" "map_option ts_items (t_state ?t1) = Some (tray_menu paused)"
      "t_tooltip ?t1 = tray_tooltip version stats sb" "icon_loads ?t1 = icon_loads t"
    using assms(2) by (auto simp: set_menu_items_effect set_tooltip_effect)
  have p: "fst icons \<noteq> []" "snd icons \<noteq> []" "utf16_from_string ?p = Inr (concat (map utf16_units (runes ?p)) @ [0])"
      "\<forall>n. te_load env n ?p = None"
    using assms(1) by (auto simp: icons_load_def utf16_from_string_def)
  show ?thesis
    using t1 p(1,2) set_icon_path_effect[OF p(3,4) t1(1)]
    by (auto simp: tray_tick_def Let_def)
qed

lemma changes_snoc: "changes b (xs @ [x]) = changes b xs + (if x = last (b # xs) then 0 else 1)"
  by (induction b xs rule: changes.induct) auto

text \<open>
  The icon follows the connection: on a running tray with both icon files staged and loadable,
  after any sequence of ticks the tooltip and the menu show what the last tick read, whatever the
  shell answered, and the icon was reloaded exactly once for each change of the connection state,
  the state before the first tick counting as not connected.
\<close>

theorem poller_follows:
  assumes "icons_load env icons" "t_state t \<noteq> None" "tray_ticks env version icons (xs @ [(stats, sb, paused)]) t = (b, t')"
  shows "b = s_connected stats \<and> t_tooltip t' = tray_tooltip version stats sb \<and>
    map_option ts_items (t_state t') = Some (tray_menu paused) \<and>
    icon_loads t' = icon_loads t + changes False (map (\<lambda>x. s_connected (fst x)) (xs @ [(stats, sb, paused)]))"
proof -
  have inv: "case tray_ticks env version icons ys t of (b, t') \<Rightarrow> t_state t' \<noteq> None \<and>
      b = last (False # map (\<lambda>x. s_connected (fst x)) ys) \<and>
      icon_loads t' = icon_loads t + changes False (map (\<lambda>x. s_connected (fst x)) ys)" for ys
  proof (induction ys rule: rev_induct)
    case Nil
    then show ?case using assms(2) by (simp add: tray_ticks_def)
  next
    case (snoc y ys)
    obtain b1 t1 where t1: "tray_ticks env version icons ys t = (b1, t1)" by force
    obtain st e p where y: "y = (st, e, p)" by (cases y) auto
    have "tray_ticks env version icons (ys @ [y]) t = tray_tick env version icons st e p (b1, t1)"
      using t1 by (simp add: tray_ticks_def y)
    then show ?case
      using snoc.IH t1 tray_tick_effect[OF assms(1), where t = t1 and ?b0.0 = b1 and version = version and stats = st and sb = e and paused = p] changes_snoc
      by (auto simp: y split: if_splits)
  qed
  obtain b1 t1 where t1: "tray_ticks env version icons xs t = (b1, t1)" by force
  have "t_state t1 \<noteq> None" using inv[of xs] t1 by simp
  from tray_tick_effect[OF assms(1) this, where ?b0.0 = b1 and version = version and stats = stats and sb = sb and paused = paused]
  have "case (b, t') of (b', t') \<Rightarrow> b' = s_connected stats \<and> t_tooltip t' = tray_tooltip version stats sb \<and>
      map_option ts_items (t_state t') = Some (tray_menu paused)"
    using assms(3) t1 by (auto simp: tray_ticks_def)
  moreover have "icon_loads t' = icon_loads t + changes False (map (\<lambda>x. s_connected (fst x)) (xs @ [(stats, sb, paused)]))"
    using inv[of "xs @ [(stats, sb, paused)]"] assms(3) by simp
  ultimately show ?thesis by simp
qed

definition running_tray :: "action tray" where
  "running_tray = snd (run_setup quiet_tray (tray_menu False) (new_tray ''a.ico''))"

definition link_stats :: "bool \<Rightarrow> conn_stats" where
  "link_stats up = \<lparr>s_connected = up, s_connected_since = None, s_connect_count = 0, s_last_error = []\<rparr>"

text \<open>Two ticks without a connection and one with: the icon, connected from the start, is loaded once.\<close>

theorem poller_follows_witness:
  "\<exists>b t'. tray_ticks quiet_tray ''1'' (''a.ico'', ''b.ico'')
       ([(link_stats False, \<lparr>es_running = False, es_engine_version = []\<rparr>, False),
         (link_stats False, \<lparr>es_running = True, es_engine_version = []\<rparr>, True)] @
        [(link_stats True, \<lparr>es_running = True, es_engine_version = ''2''\<rparr>, False)]) running_tray = (b, t') \<and>
     b \<and> icon_loads t' = Suc (icon_loads running_tray)"
proof -
  let ?xs = "[(link_stats False, \<lparr>es_running = False, es_engine_version = []\<rparr>, False),
         (link_stats False, \<lparr>es_running = True, es_engine_version = []\<rparr>, True)]"
    and ?x = "(link_stats True, \<lparr>es_running = True, es_engine_version = ''2''\<rparr>, False)"
  obtain b t' where run: "tray_ticks quiet_tray ''1'' (''a.ico'', ''b.ico'') (?xs @ [?x]) running_tray = (b, t')" by force
  have "icons_load quiet_tray (''a.ico'', ''b.ico'')" by (simp add: icons_load_def quiet_tray_def chr_zero)
  moreover have "t_state running_tray \<noteq> None"
    by (simp add: running_tray_def run_setup_def register_window_class_def create_message_window_def
        initial_icon_def load_icon_from_file_def shell_notify_def quiet_tray_def new_tray_def
        utf16_from_string_def Let_def chr_zero)
  ultimately have "b \<and> icon_loads t' = Suc (icon_loads running_tray)"
    using poller_follows[OF _ _ run] by (simp add: link_stats_def)
  then show ?thesis using run by blast
qed

section \<open>Hosts\<close>

text \<open>The host of a server URL, whichever the scheme, with or without a port and a path.\<close>

lemma cut_at_rest: "c \<notin> set h \<Longrightarrow> rest = [] \<or> hd rest = c \<Longrightarrow> cut_at (h @ rest) c = h"
  using cut_at_append[of c h "tl rest"] cut_at_id[of c h] by (cases rest) auto

lemma strip_scheme_schemes:
  "scheme \<in> {''wss://'', ''ws://'', ''https://'', ''http://''} \<Longrightarrow> strip_scheme (scheme @ s) = s"
  by (auto simp: strip_scheme_def has_prefix_def)

lemma agent_download_host_plain:
  assumes "scheme \<in> {''wss://'', ''ws://'', ''https://'', ''http://''}" "CHR '':'' \<notin> set h" "CHR ''/'' \<notin> set h"
    and "port = [] \<or> hd port = CHR '':'' \<and> CHR ''/'' \<notin> set port" "rest = [] \<or> hd rest = CHR ''/''"
  shows "agent_download_host (scheme @ h @ port @ rest) = h"
proof -
  have "strip_scheme_and_path (scheme @ (h @ port) @ rest) = h @ port"
    unfolding strip_scheme_and_path_def strip_scheme_schemes[OF assms(1)]
    by (rule cut_at_rest) (use assms in auto)
  then show ?thesis using cut_at_rest[OF assms(2), of port] assms(4) by (auto simp: agent_download_host_def)
qed

text \<open>The host of an IPv6 literal is cut at its first colon.\<close>

lemma agent_download_host_ipv6: "agent_download_host ''wss://[fd00::1]:8443/agent'' = ''[fd00''"
  by code_simp

end
