(* ===== verification/Browser.thy ===== *)
theory Browser
  imports TrayIcon Host
begin

text \<open>
  The hidden browser window, \<open>internal/hiddenbrowser\<close>: which page it shows, the creation of the
  window, the launcher behind the tray's menu item, and the life of its windows, whose goroutines
  run beside the launcher. The WebView2 library and the Win32 calls are answers of the environment;
  the calls made are a log.
\<close>

section \<open>Calls\<close>

datatype browser_call =
    NewView path string nat nat
  | SetWindowIcon nat nat nat
  | Navigate nat string
  | ExcludeWindow nat
  | ForegroundWindow nat
  | Warn string string

text \<open>
  \<open>be_version\<close> is \<open>GetInstalledVersion\<close>, \<open>be_view\<close> whether \<open>NewWithOptions\<close> gives a view (its window is
  then the next number), \<open>be_icon\<close> the handle \<open>LoadImageW\<close> returns for a path, \<open>be_affinity\<close> the
  error of \<open>SetWindowDisplayAffinity\<close>.
\<close>

record browserenv =
  be_host :: hostenv
  be_version :: "string res"
  be_view :: bool
  be_icon :: "path \<Rightarrow> nat"
  be_affinity :: "goerr option"

definition default_ready_app_url :: string where
  "default_ready_app_url = ''https://readyapp.player-ready.co.uk''"

definition ready_app_url :: "hostenv \<Rightarrow> string" where
  "ready_app_url h =
     (let v = he_getenv h ''READYFLEET_READYAPP_URL'' in if v \<noteq> [] then v else default_ready_app_url)"

text \<open>The windows: running their message loop, closed by the user, forgotten by the launcher, destroyed.\<close>

datatype view_state = Running | Closed | Forgotten | Destroyed

record launcher =
  la_world :: world
  la_profile :: path
  la_icon :: path
  la_wv :: "nat option"
  la_next :: nat
  la_views :: "nat \<Rightarrow> view_state option"
  la_calls :: "browser_call list"

definition call :: "browser_call \<Rightarrow> launcher \<Rightarrow> launcher" where
  "call c l = l\<lparr>la_calls := la_calls l @ [c]\<rparr>"

section \<open>Creating a window\<close>

definition iconSmall :: nat where "iconSmall = 0"
definition iconBig :: nat where "iconBig = 1"

definition set_window_icon_from_file :: "browserenv \<Rightarrow> nat \<Rightarrow> path \<Rightarrow> launcher \<Rightarrow> launcher" where
  "set_window_icon_from_file env hwnd p l =
     (if p = [] then l
      else (case utf16_from_string p of
          Inl e \<Rightarrow> l
        | Inr u \<Rightarrow>
            (let icon = be_icon env p
             in if icon = 0 then l
                else call (SetWindowIcon hwnd iconSmall icon) (call (SetWindowIcon hwnd iconBig icon) l))))"

definition create_failed :: "string \<Rightarrow> goerr" where
  "create_failed detail = wrapf ''hiddenbrowser: failed to create webview'' (Msg detail)"

definition new_real_web_view :: "browserenv \<Rightarrow> string \<Rightarrow> launcher \<Rightarrow> nat res \<times> launcher" where
  "new_real_web_view env url l =
     (case be_version env of
        Inl e \<Rightarrow> (Inl (create_failed ('': WebView2 runtime not installed: '' @ err_text e)), l)
      | Inr v \<Rightarrow>
          if v = [] then (Inl (create_failed '': WebView2 runtime not installed''), l)
          else (case os_mkdir_all (be_host env) (la_profile l) (la_world l) of
              (Some e, w) \<Rightarrow> (Inl (create_failed ('': profile directory: '' @ err_text e)), l\<lparr>la_world := w\<rparr>)
            | (None, w) \<Rightarrow>
                (let l1 = call (NewView (la_profile l) ''ReadyApp'' 1200 800) (l\<lparr>la_world := w\<rparr>)
                 in if \<not> be_view env
                    then (Inl (create_failed '': webview2.NewWithOptions returned nil''), l1)
                    else (let h = la_next l;
                              l2 = l1\<lparr>la_next := Suc h, la_views := (la_views l)(h \<mapsto> Running)\<rparr>
                          in (Inr h, call (Navigate h url) (set_window_icon_from_file env h (la_icon l) l2))))))"

definition exclude_from_capture :: "browserenv \<Rightarrow> nat \<Rightarrow> launcher \<Rightarrow> goerr option \<times> launcher" where
  "exclude_from_capture env h l =
     (map_option (\<lambda>e. wrapf ''hiddenbrowser: failed to exclude window from capture'' (Msg ('': SetWindowDisplayAffinity: '' @ err_text e)))
        (be_affinity env), call (ExcludeWindow h) l)"

definition foreground_window :: "nat \<Rightarrow> launcher \<Rightarrow> launcher" where
  "foreground_window h l = call (ForegroundWindow h) l"

definition notify_failure :: "string \<Rightarrow> string \<Rightarrow> launcher \<Rightarrow> launcher" where
  "notify_failure title body l = call (Warn title body) l"

section \<open>The launcher\<close>

text \<open>
  \<open>Open\<close> holds the mutex from beginning to end, waiting for the creation on the window's own
  goroutine; so it is one step towards the goroutines that need the mutex.
\<close>

definition launcher_open :: "browserenv \<Rightarrow> launcher \<Rightarrow> goerr option \<times> launcher" where
  "launcher_open env l =
     (case la_wv l of
        Some h \<Rightarrow> (None, foreground_window h l)
      | None \<Rightarrow>
          (case new_real_web_view env (ready_app_url (be_host env)) l of
             (Inl e, l1) \<Rightarrow> (Some e, notify_failure ''Couldn't open hidden ReadyApp'' ''Try again in a moment.'' l1)
           | (Inr h, l1) \<Rightarrow>
               (case exclude_from_capture env h l1 of
                  (Some e, l2) \<Rightarrow>
                    (Some e, notify_failure ''Opened, but couldn't hide it from your stream''
                       ''Close it and try again, or check your Windows version.''
                       (foreground_window h (l2\<lparr>la_wv := Some h\<rparr>)))
                | (None, l2) \<Rightarrow> (None, foreground_window h (l2\<lparr>la_wv := Some h\<rparr>)))))"

definition new_launcher :: "world \<Rightarrow> path \<Rightarrow> path \<Rightarrow> launcher" where
  "new_launcher w profile icon = \<lparr>la_world = w, la_profile = profile, la_icon = icon, la_wv = None, la_next = 1,
     la_views = Map.empty, la_calls = []\<rparr>"

text \<open>
  The steps: a click on the menu item, in any environment; the user closes a window, which ends its
  message loop; its goroutine takes the mutex and clears the launcher's field; it destroys the view.
\<close>

inductive launcher_step :: "launcher \<Rightarrow> launcher \<Rightarrow> bool" where
  click: "launcher_step l (snd (launcher_open env l))"
| close: "la_views l h = Some Running \<Longrightarrow> launcher_step l (l\<lparr>la_views := (la_views l)(h \<mapsto> Closed)\<rparr>)"
| clear: "la_views l h = Some Closed \<Longrightarrow> launcher_step l (l\<lparr>la_wv := None, la_views := (la_views l)(h \<mapsto> Forgotten)\<rparr>)"
| destroy: "la_views l h = Some Forgotten \<Longrightarrow> launcher_step l (l\<lparr>la_views := (la_views l)(h \<mapsto> Destroyed)\<rparr>)"

definition launcher_reach :: "launcher \<Rightarrow> bool" where
  "launcher_reach l \<longleftrightarrow> (\<exists>w profile icon. launcher_step\<^sup>*\<^sup>* (new_launcher w profile icon) l)"

section \<open>What a click does\<close>

lemma call_simps [simp, agent_simps]:
  "la_wv (call c l) = la_wv l" "la_next (call c l) = la_next l" "la_views (call c l) = la_views l"
  "la_profile (call c l) = la_profile l" "la_icon (call c l) = la_icon l" "la_world (call c l) = la_world l"
  "la_calls (call c l) = la_calls l @ [c]"
  by (simp_all add: call_def)

lemma set_window_icon_frame [simp]:
  "la_wv (set_window_icon_from_file env h p l) = la_wv l" "la_next (set_window_icon_from_file env h p l) = la_next l"
  "la_views (set_window_icon_from_file env h p l) = la_views l"
  by (simp_all add: set_window_icon_from_file_def Let_def split: sum.splits)

text \<open>Only the new window's own icon messages come between its creation and its page.\<close>

definition icon_calls :: "nat \<Rightarrow> browser_call list \<Rightarrow> bool" where
  "icon_calls h cs \<longleftrightarrow> cs = [] \<or> (\<exists>i. i \<noteq> 0 \<and> cs = [SetWindowIcon h iconBig i, SetWindowIcon h iconSmall i])"

lemma set_window_icon_calls:
  "\<exists>cs. la_calls (set_window_icon_from_file env h p l) = la_calls l @ cs \<and> icon_calls h cs"
  by (auto simp: set_window_icon_from_file_def icon_calls_def Let_def split: sum.splits)

lemma new_real_web_view_cases:
  assumes "new_real_web_view env url l = (r, l')"
  obtains (not_tried) e where "r = Inl e" "la_calls l' = la_calls l" "la_wv l' = la_wv l" "la_next l' = la_next l"
      "la_views l' = la_views l"
  | (no_view) e where "r = Inl e" "la_calls l' = la_calls l @ [NewView (la_profile l) ''ReadyApp'' 1200 800]"
      "la_wv l' = la_wv l" "la_next l' = la_next l" "la_views l' = la_views l"
      "\<exists>v. be_version env = Inr v \<and> v \<noteq> []" "w_fs (la_world l') (la_profile l) = Some Dir"
  | (created) cs where "r = Inr (la_next l)" "icon_calls (la_next l) cs"
      "la_calls l' = la_calls l @ [NewView (la_profile l) ''ReadyApp'' 1200 800] @ cs @ [Navigate (la_next l) url]"
      "la_wv l' = la_wv l" "la_next l' = Suc (la_next l)" "la_views l' = (la_views l)(la_next l \<mapsto> Running)"
      "\<exists>v. be_version env = Inr v \<and> v \<noteq> []"
proof -
  consider (a) "(\<exists>e. be_version env = Inl e) \<or> be_version env = Inr []"
    | (b) v e w where "be_version env = Inr v" "v \<noteq> []" "os_mkdir_all (be_host env) (la_profile l) (la_world l) = (Some e, w)"
    | (c) v w where "be_version env = Inr v" "v \<noteq> []" "os_mkdir_all (be_host env) (la_profile l) (la_world l) = (None, w)"
    by (cases "be_version env"; cases "os_mkdir_all (be_host env) (la_profile l) (la_world l)";
        cases "fst (os_mkdir_all (be_host env) (la_profile l) (la_world l))") auto
  then show ?thesis
  proof cases
    case a
    then show ?thesis using not_tried assms by (auto simp: new_real_web_view_def)
  next
    case b
    then show ?thesis using not_tried assms by (auto simp: new_real_web_view_def)
  next
    case c
    have dir: "w_fs w (la_profile l) = Some Dir"
      using c(3) by (auto simp: os_mkdir_all_def split: option.splits node.splits)
    show ?thesis
    proof (cases "be_view env")
      case False
      then show ?thesis using no_view c dir assms by (auto simp: new_real_web_view_def Let_def)
    next
      case True
      let ?l2 = "(call (NewView (la_profile l) ''ReadyApp'' 1200 800) (l\<lparr>la_world := w\<rparr>))
          \<lparr>la_next := Suc (la_next l), la_views := (la_views l)(la_next l \<mapsto> Running)\<rparr>"
      have l': "r = Inr (la_next l)" "l' = call (Navigate (la_next l) url) (set_window_icon_from_file env (la_next l) (la_icon l) ?l2)"
        using assms c True by (simp_all add: new_real_web_view_def Let_def)
      obtain cs where "la_calls (set_window_icon_from_file env (la_next l) (la_icon l) ?l2) = la_calls ?l2 @ cs" "icon_calls (la_next l) cs"
        using set_window_icon_calls by blast
      then show ?thesis using created[of cs] l' c(1,2) by simp
    qed
  qed
qed

text \<open>The outcomes of \<open>Open\<close>.\<close>

lemma launcher_open_cases:
  assumes "launcher_open env l = (r, l')"
  obtains (refocused) h where "la_wv l = Some h" "r = None" "l' = foreground_window h l"
  | (failed) e cs where "la_wv l = None" "r = Some e" "la_wv l' = None" "la_views l' = la_views l" "la_next l' = la_next l"
      "la_calls l' = la_calls l @ cs @ [Warn ''Couldn't open hidden ReadyApp'' ''Try again in a moment.'']"
      "cs = [] \<or> cs = [NewView (la_profile l) ''ReadyApp'' 1200 800] \<and> (\<exists>v. be_version env = Inr v \<and> v \<noteq> [])"
  | (opened) cs where "la_wv l = None" "la_wv l' = Some (la_next l)" "la_next l' = Suc (la_next l)"
      "la_views l' = (la_views l)(la_next l \<mapsto> Running)" "r = None \<longleftrightarrow> be_affinity env = None" "icon_calls (la_next l) cs"
      "\<exists>v. be_version env = Inr v \<and> v \<noteq> []"
      "la_calls l' = la_calls l @ [NewView (la_profile l) ''ReadyApp'' 1200 800] @ cs @
         [Navigate (la_next l) (ready_app_url (be_host env)), ExcludeWindow (la_next l), ForegroundWindow (la_next l)] @
         (if be_affinity env = None then []
          else [Warn ''Opened, but couldn't hide it from your stream'' ''Close it and try again, or check your Windows version.''])"
proof (cases "la_wv l")
  case (Some h)
  then show ?thesis using refocused assms by (simp add: launcher_open_def)
next
  case None
  obtain r1 l1 where nv: "new_real_web_view env (ready_app_url (be_host env)) l = (r1, l1)" by force
  then show ?thesis
  proof (cases rule: new_real_web_view_cases)
    case (not_tried e)
    then show ?thesis using failed[of e "[]"] assms None nv by (auto simp: launcher_open_def notify_failure_def)
  next
    case (no_view e)
    then show ?thesis using failed[of e "[NewView (la_profile l) ''ReadyApp'' 1200 800]"] assms None nv
      by (auto simp: launcher_open_def notify_failure_def)
  next
    case (created cs)
    have l': "l' = (if be_affinity env = None then id
          else notify_failure ''Opened, but couldn't hide it from your stream'' ''Close it and try again, or check your Windows version.'')
        (foreground_window (la_next l) ((call (ExcludeWindow (la_next l)) l1)\<lparr>la_wv := Some (la_next l)\<rparr>))"
      "r = None \<longleftrightarrow> be_affinity env = None"
      using assms None nv created(1) by (auto simp: launcher_open_def exclude_from_capture_def split: option.splits)
    then show ?thesis
      using opened[of cs] None created by (cases "be_affinity env") (auto simp: notify_failure_def foreground_window_def)
  qed
qed

definition warnings :: "browser_call list \<Rightarrow> nat" where
  "warnings cs = length (filter (\<lambda>c. case c of Warn t b \<Rightarrow> True | _ \<Rightarrow> False) cs)"

definition creations :: "browser_call list \<Rightarrow> nat" where
  "creations cs = length (filter (\<lambda>c. case c of NewView p t w h \<Rightarrow> True | _ \<Rightarrow> False) cs)"

lemma icon_calls_counts: "icon_calls h cs \<Longrightarrow> warnings cs = 0 \<and> creations cs = 0"
  by (auto simp: icon_calls_def warnings_def creations_def)

lemma counts_append:
  "warnings (cs @ ds) = warnings cs + warnings ds" "creations (cs @ ds) = creations cs + creations ds"
  by (simp_all add: warnings_def creations_def)


definition sample_browser :: browserenv where
  "sample_browser = \<lparr>be_host = quiet_env, be_version = Inr ''1'', be_view = True, be_icon = (\<lambda>p. 5), be_affinity = Some (Msg ''denied'')\<rparr>"

definition bare_launcher :: launcher where
  "bare_launcher = new_launcher \<lparr>w_fs = Map.empty, w_tick = 0, w_log = []\<rparr> ''p'' ''i''"


section \<open>One window at a time\<close>

definition launcher_inv :: "launcher \<Rightarrow> bool" where
  "launcher_inv l \<longleftrightarrow> (\<forall>h. la_wv l = Some h \<longleftrightarrow> la_views l h \<in> {Some Running, Some Closed}) \<and>
     (\<forall>h s. la_views l h = Some s \<longrightarrow> h < la_next l)"

lemma launcher_inv_step:
  assumes "launcher_step l l'" "launcher_inv l"
  shows "launcher_inv l'"
  using assms(1)
proof cases
  case (click env)
  obtain r l1 where "launcher_open env l = (r, l1)" by force
  then show ?thesis
  proof (cases rule: launcher_open_cases)
    case refocused
    then show ?thesis using click \<open>launcher_open env l = (r, l1)\<close> assms(2) by (simp add: launcher_inv_def foreground_window_def)
  next
    case (failed e cs)
    then show ?thesis using click \<open>launcher_open env l = (r, l1)\<close> assms(2) by (simp add: launcher_inv_def)
  next
    case (opened cs)
    have "\<forall>h. la_views l h \<notin> {Some Running, Some Closed}" using assms(2) opened(1) by (auto simp: launcher_inv_def)
    moreover have "\<forall>h s. la_views l h = Some s \<longrightarrow> h < la_next l" using assms(2) by (simp add: launcher_inv_def)
    ultimately show ?thesis using click \<open>launcher_open env l = (r, l1)\<close> opened(2,3,4)
      by (auto simp: launcher_inv_def less_Suc_eq)
  qed
next
  case (clear h)
  have "la_views l g \<notin> {Some Running, Some Closed}" if "g \<noteq> h" for g
    using assms(2) clear(2) that unfolding launcher_inv_def by (metis insertCI option.inject)
  then show ?thesis using assms(2) clear by (auto simp: launcher_inv_def)
qed (use assms(2) in \<open>auto simp: launcher_inv_def split: if_splits\<close>)

lemma launcher_reach_inv: "launcher_reach l \<Longrightarrow> launcher_inv l"
  unfolding launcher_reach_def
proof (elim exE)
  fix w profile icon
  assume "launcher_step\<^sup>*\<^sup>* (new_launcher w profile icon) l"
  then show "launcher_inv l"
  proof induction
    case base
    show ?case by (simp add: launcher_inv_def new_launcher_def)
  qed (rule launcher_inv_step)
qed

text \<open>The life of a window has one direction: its states are ordered, and no step goes back.\<close>

primrec view_rank :: "view_state \<Rightarrow> nat" where
  "view_rank Running = 0"
| "view_rank Closed = 1"
| "view_rank Forgotten = 2"
| "view_rank Destroyed = 3"

lemma view_rank_inj: "view_rank s = view_rank t \<Longrightarrow> s = t"
  by (cases s; cases t) simp_all

instantiation view_state :: linorder
begin

definition less_eq_view_state :: "view_state \<Rightarrow> view_state \<Rightarrow> bool" where
  "less_eq_view_state s t \<longleftrightarrow> view_rank s \<le> view_rank t"

definition less_view_state :: "view_state \<Rightarrow> view_state \<Rightarrow> bool" where
  "less_view_state s t \<longleftrightarrow> view_rank s < view_rank t"

instance
  by standard (auto simp: less_eq_view_state_def less_view_state_def intro: view_rank_inj)

end

lemma views_age_step:
  assumes "launcher_step l l'" "launcher_inv l" "la_views l h = Some s"
  shows "\<exists>t. la_views l' h = Some t \<and> s \<le> t"
  using assms(1)
proof cases
  case (click env)
  obtain r l1 where op: "launcher_open env l = (r, l1)" by force
  have "h < la_next l" using assms(2,3) by (auto simp: launcher_inv_def)
  then show ?thesis using click op assms(3)
    by (cases rule: launcher_open_cases[OF op]) (auto simp: foreground_window_def)
qed (use assms(3) in \<open>auto simp: less_eq_view_state_def\<close>)

text \<open>
  C26. There is one hidden window at a time, however clicks, closing and the windows' goroutines
  interleave: two windows that the launcher has not forgotten are the same; the tracked window is
  never one whose view is destroyed, or about to be; and with no window tracked, all are.
\<close>

theorem one_window:
  assumes "launcher_reach l"
  shows "(\<forall>g h. la_views l g \<in> {Some Running, Some Closed} \<and> la_views l h \<in> {Some Running, Some Closed} \<longrightarrow> g = h) \<and>
    (\<forall>h. la_wv l = Some h \<longrightarrow> la_views l h \<in> {Some Running, Some Closed}) \<and>
    (la_wv l = None \<longrightarrow> (\<forall>h. la_views l h \<in> {None, Some Forgotten, Some Destroyed}))"
proof -
  have inv: "\<forall>h. la_wv l = Some h \<longleftrightarrow> la_views l h \<in> {Some Running, Some Closed}"
    using launcher_reach_inv[OF assms] by (simp add: launcher_inv_def)
  have "la_views l h \<in> {None, Some Forgotten, Some Destroyed}" if "la_wv l = None" for h
  proof -
    have "la_views l h \<notin> {Some Running, Some Closed}" using inv that by simp
    then show ?thesis by (cases "la_views l h") (auto intro: view_state.exhaust)
  qed
  moreover have "\<forall>g h. la_views l g \<in> {Some Running, Some Closed} \<and> la_views l h \<in> {Some Running, Some Closed} \<longrightarrow> g = h"
    using inv by (metis option.inject)
  ultimately show ?thesis using inv by blast
qed

text \<open>A click after the user has closed the window, but before its goroutine took the mutex, is lost.\<close>

lemma click_while_closing:
  "la_wv l = Some h \<Longrightarrow> la_views l h = Some Closed \<Longrightarrow>
     launcher_open env l = (None, call (ForegroundWindow h) l) \<and>
     la_views (snd (launcher_open env l)) = la_views l"
  by (simp add: launcher_open_def foreground_window_def)

theorem one_window_witness:
  "\<exists>l h. launcher_reach l \<and> la_wv l = Some h \<and> la_views l h = Some Running \<and>
     (\<forall>g. la_views l g = Some Running \<longrightarrow> g = h)"
proof -
  let ?l = "snd (launcher_open sample_browser bare_launcher)"
  have "launcher_reach ?l" unfolding launcher_reach_def bare_launcher_def
    by (meson launcher_step.click r_into_rtranclp)
  moreover have "la_wv ?l = Some 1" "la_views ?l 1 = Some Running"
    by (simp_all add: launcher_open_def new_real_web_view_def sample_browser_def bare_launcher_def new_launcher_def
        os_mkdir_all_def exclude_from_capture_def notify_failure_def foreground_window_def Let_def)
  ultimately show ?thesis using one_window[of ?l] by blast
qed

end
