(* ===== verification/Desktop.thy ===== *)
theory Desktop
  imports Agent Browser ClientRun "HOL-Library.AList"
begin

text \<open>
  The agent on the mentor's desktop, put together: the commands the server sends, the clicks the user
  makes, the poller's ticks and the goroutines these start, over the tray, the connection, the hidden
  browser and the dialogs. Every step is an operation of the component theories, in any order.
\<close>

section \<open>The desktop\<close>

record deskenv =
  ds_context :: handler_context
  ds_icons :: "path \<times> path"
  ds_dialog :: dialogenv
  ds_browser :: browserenv
  ds_config :: client_config

text \<open>
  The callback of the toggle item is three steps: it reads the shared flag, stores the opposite, and
  tells the client. \<open>dk_toggles\<close> holds the toggles between the first and the last. \<open>dk_ran\<close> and
  \<open>dk_answers\<close> are the numbers of the started callbacks, and of the prompts, whose goroutine has run,
  with the mentor's answer; \<open>dk_served\<close> is the history of the commands.
\<close>

datatype toggle_pc = FlagRead bool | FlagStored bool

record desktop =
  dk_agent :: agent
  dk_link :: "bool \<times> client"
  dk_launcher :: launcher
  dk_last :: bool
  dk_callbacks :: callbacks
  dk_ran :: "nat set"
  dk_toggles :: "(nat \<times> toggle_pc) list"
  dk_answers :: "(nat \<times> bool) list"
  dk_served :: "envelope list"

abbreviation dk_tray :: "desktop \<Rightarrow> action tray" where
  "dk_tray d \<equiv> ag_tray (dk_agent d)"

abbreviation ds_tray :: "deskenv \<Rightarrow> trayenv" where
  "ds_tray env \<equiv> cx_tray (ds_context env)"

datatype desktop_event =
    CommandIn envelope
  | BalloonClick
  | BalloonGone bool
  | MenuShown
  | MenuPick "64 word"
  | PollTick engine_status
  | RunCallback nat
  | ToggleStep nat
  | RunPrompt nat
  | LinkStep client_event

definition with_tray :: "(action tray \<Rightarrow> action tray) \<Rightarrow> desktop \<Rightarrow> desktop" where
  "with_tray f d = d\<lparr>dk_agent := (dk_agent d)\<lparr>ag_tray := f (dk_tray d)\<rparr>\<rparr>"

text \<open>The warnings the launcher's clicks produce go to the tray, without a callback.\<close>

definition show_warnings :: "trayenv \<Rightarrow> browser_call list \<Rightarrow> action tray \<Rightarrow> action tray" where
  "show_warnings env cs t =
     fold (\<lambda>c t. case c of
         Warn title body \<Rightarrow> snd (notify env (\<lambda>n. t_state t \<noteq> None) title body NotifyWarning None t)
       | _ \<Rightarrow> t) cs t"

definition open_browser :: "deskenv \<Rightarrow> desktop \<Rightarrow> desktop" where
  "open_browser env d =
     (let l = snd (launcher_open (ds_browser env) (dk_launcher d))
      in with_tray (show_warnings (ds_tray env) (drop (length (la_calls (dk_launcher d))) (la_calls l)))
           (d\<lparr>dk_launcher := l\<rparr>))"

primrec run_action :: "deskenv \<Rightarrow> nat \<Rightarrow> action \<Rightarrow> desktop \<Rightarrow> desktop" where
  "run_action env k ToggleConnection d = d\<lparr>dk_toggles := dk_toggles d @ [(k, FlagRead (\<not> fst (dk_link d)))]\<rparr>"
| "run_action env k OpenHiddenBrowser d = open_browser env d"
| "run_action env k QuitTray d = with_tray quit d"
| "run_action env k (OpenLink u) d = with_tray (\<lambda>t. snd (open_url (ds_tray env) u t)) d"

primrec toggle_on :: "nat \<Rightarrow> toggle_pc \<Rightarrow> desktop \<Rightarrow> desktop" where
  "toggle_on k (FlagRead b) d =
     d\<lparr>dk_link := (b, snd (dk_link d)), dk_toggles := AList.update k (FlagStored b) (dk_toggles d)\<rparr>"
| "toggle_on k (FlagStored b) d =
     d\<lparr>dk_link := (fst (dk_link d), set_paused b (snd (dk_link d))), dk_toggles := AList.delete k (dk_toggles d)\<rparr>"

text \<open>The goroutine of \<open>showConnectionRequest\<close>: the dialog, then the link.\<close>

definition run_prompt :: "deskenv \<Rightarrow> nat \<Rightarrow> string \<times> string \<times> string \<Rightarrow> desktop \<Rightarrow> desktop" where
  "run_prompt env k p d =
     (case p of (title, body, url) \<Rightarrow>
        (case wizard_prompt (ds_dialog env) title body (dk_callbacks d) of
           (continued, cb) \<Rightarrow>
             with_tray (answer_prompt (ds_tray env) continued url)
               (d\<lparr>dk_callbacks := cb, dk_answers := dk_answers d @ [(k, continued)]\<rparr>)))"

definition on_window :: "(nat \<Rightarrow> action tray \<Rightarrow> action tray) \<Rightarrow> action tray \<Rightarrow> action tray" where
  "on_window f t = (case t_state t of None \<Rightarrow> t | Some ts \<Rightarrow> f (ts_hwnd ts) t)"

primrec desktop_step :: "deskenv \<Rightarrow> desktop_event \<Rightarrow> desktop \<Rightarrow> desktop" where
  "desktop_step env (CommandIn e) d =
     d\<lparr>dk_agent := dispatch_command light_handlers (ds_context env) e (dk_agent d), dk_served := dk_served d @ [e]\<rparr>"
| "desktop_step env BalloonClick d =
     with_tray (on_window (\<lambda>h. wnd_proc (ds_tray env) h wmTrayCallback 0 ninBalloonUserClick)) d"
| "desktop_step env (BalloonGone hidden) d =
     with_tray (on_window (\<lambda>h. wnd_proc (ds_tray env) h wmTrayCallback 0 (if hidden then ninBalloonHide else ninBalloonTimeout))) d"
| "desktop_step env MenuShown d =
     with_tray (on_window (\<lambda>h. wnd_proc (ds_tray env) h wmTrayCallback 0 wmRButtonUp)) d"
| "desktop_step env (MenuPick w) d =
     with_tray (on_window (\<lambda>h. wnd_proc (ds_tray env) h wmCommand w 0)) d"
| "desktop_step env (PollTick sb) d =
     (case tray_tick (ds_tray env) (cx_version (ds_context env)) (ds_icons env) (c_stats (snd (dk_link d))) sb
             (fst (dk_link d)) (dk_last d, dk_tray d) of
        (shown, t) \<Rightarrow> with_tray (\<lambda>_. t) (d\<lparr>dk_last := shown\<rparr>))"
| "desktop_step env (RunCallback k) d =
     (if k < length (t_started (dk_tray d)) \<and> k \<notin> dk_ran d
      then run_action env k (t_started (dk_tray d) ! k) (d\<lparr>dk_ran := insert k (dk_ran d)\<rparr>) else d)"
| "desktop_step env (ToggleStep k) d =
     (case map_of (dk_toggles d) k of None \<Rightarrow> d | Some p \<Rightarrow> toggle_on k p d)"
| "desktop_step env (RunPrompt k) d =
     (if k < length (ag_prompts (dk_agent d)) \<and> k \<notin> fst ` set (dk_answers d)
      then run_prompt env k (ag_prompts (dk_agent d) ! k) d else d)"
| "desktop_step env (LinkStep ev) d =
     (case ev of SetPaused b \<Rightarrow> d
      | _ \<Rightarrow> (case client_step (ds_config env) ev (snd (dk_link d)) of
                None \<Rightarrow> d | Some c \<Rightarrow> d\<lparr>dk_link := (fst (dk_link d), c)\<rparr>))"

definition desktop_run :: "deskenv \<Rightarrow> desktop_event list \<Rightarrow> desktop \<Rightarrow> desktop" where
  "desktop_run env evs d = fold (desktop_step env) evs d"

text \<open>
  The agent as \<open>runLightAgent\<close> leaves it: the tray set up for a connected icon, the connection's
  goroutine at its start, nothing served.
\<close>

definition desktop_start :: "deskenv \<Rightarrow> machine \<Rightarrow> launcher \<Rightarrow> desktop" where
  "desktop_start env m l =
     \<lparr>dk_agent = \<lparr>ag_machine = m, ag_updating = False,
        ag_tray = snd (run_setup (ds_tray env) (tray_menu False) (new_tray (fst (ds_icons env)))),
        ag_sent = [], ag_prompts = []\<rparr>,
      dk_link = (False, run_start), dk_launcher = l, dk_last = False, dk_callbacks = no_callbacks,
      dk_ran = {}, dk_toggles = [], dk_answers = [], dk_served = []\<rparr>"

section \<open>What the tray's operations leave alone\<close>

text \<open>A structure for the shell as its documentation wants it: full-size arrays, each with its NUL.\<close>

definition well_formed_nid :: "nid \<Rightarrow> bool" where
  "well_formed_nid d \<longleftrightarrow>
     length (nid_tip d) = 128 \<and> length (nid_info d) = 256 \<and> length (nid_title d) = 64 \<and>
     0 \<in> set (nid_tip d) \<and> 0 \<in> set (nid_info d) \<and> 0 \<in> set (nid_title d) \<and>
     nid_flags d \<in> {nifMessage + nifIcon + nifTip, nifMessage + nifIcon + nifInfo} \<and> nid_info_flags d \<in> {0..3}"

primrec orderly :: "tray_call \<Rightarrow> bool" where
  "orderly (NotifyIcon m d ok) = well_formed_nid d"
| "orderly (LoadImage h) = True"
| "orderly (DestroyIcon h) = True"
| "orderly (DestroyWindow h) = True"
| "orderly (PostDestroy h) = True"
| "orderly PostQuit = True"
| "orderly (PopupMenu items) = True"
| "orderly (ShellOpen w) = False"

definition quietly :: "'act tray \<Rightarrow> 'act tray \<Rightarrow> bool" where
  "quietly t t' \<longleftrightarrow> (\<exists>cs. t_calls t' = t_calls t @ cs \<and> list_all orderly cs)"

named_theorems quiet "operations of the tray that make only orderly calls"

lemma quietly_same: "t_calls t' = t_calls t \<Longrightarrow> quietly t t'"
  by (simp add: quietly_def)

lemma quietly_refl [quiet]: "quietly t t"
  by (simp add: quietly_def)

lemma quietly_trans [trans]: "quietly t t1 \<Longrightarrow> quietly t1 t2 \<Longrightarrow> quietly t t2"
  by (auto simp: quietly_def)

lemma quietly_logged [quiet]: "orderly c \<Longrightarrow> quietly t (logged c t)"
  by (simp add: quietly_def)

lemma quietly_calls: "t_calls t1 = t_calls t \<Longrightarrow> quietly t1 t2 \<Longrightarrow> quietly t t2"
  by (simp add: quietly_def)

lemma build_nid_well_formed: "well_formed_nid (build_nid ts s)"
  by (simp add: well_formed_nid_def build_nid_def fill_units_length fill_units_terminated)

lemma build_notify_nid_well_formed: "well_formed_nid (build_notify_nid ts title body (severity_flag sev))"
  by (cases sev) (simp_all add: well_formed_nid_def build_notify_nid_def fill_units_length fill_units_terminated)

lemma quietly_shell_notify [quiet]: "well_formed_nid d \<Longrightarrow> quietly t (snd (shell_notify env m d t))"
  by (auto simp: shell_notify_def intro!: quiet split: option.splits)

lemma quietly_load_icon [quiet]: "quietly t (snd (load_icon_from_file env p t))"
  by (auto simp: load_icon_from_file_def quietly_def split: sum.splits option.splits)

lemma quietly_set_tooltip [quiet]: "quietly t (set_tooltip env s t)"
  by (auto simp: set_tooltip_def intro!: quiet quietly_calls[OF _ quietly_shell_notify] build_nid_well_formed
      split: option.splits)

lemma quietly_set_menu_items [quiet]: "quietly t (set_menu_items is t)"
  by (simp add: set_menu_items_def quietly_def)

lemma quietly_quit [quiet]: "quietly t (quit t)"
  by (auto simp: quit_def quietly_def split: option.splits)

lemma quietly_notify [quiet]: "quietly t (snd (notify env seen title body sev a t))"
  by (auto simp: notify_def intro!: quiet quietly_calls[OF _ quietly_shell_notify] build_notify_nid_well_formed
      split: option.splits)

lemma quietly_wnd_proc [quiet]: "quietly t (wnd_proc env h m w l t)"
  by (auto simp: wnd_proc_def show_menu_def start_action_def quietly_def split: option.splits)

lemma quietly_set_icon_path [quiet]: "quietly t (snd (set_icon_path env p t))"
proof (cases "t_state t")
  case (Some ts)
  obtain r t1 where load: "load_icon_from_file env p t = (r, t1)" by force
  have t1: "quietly t t1" using quietly_load_icon[of t env p] load by simp
  show ?thesis
  proof (cases r)
    case (Inr h)
    let ?t2 = "with_state (\<lambda>s. s\<lparr>ts_icon := h, ts_owns := True\<rparr>) t1"
    let ?d = "build_nid (ts\<lparr>ts_icon := h, ts_owns := True\<rparr>) (t_tooltip ?t2)"
    obtain r3 t3 where n: "shell_notify env NimModify ?d ?t2 = (r3, t3)" by force
    then have "quietly ?t2 t3" using quietly_shell_notify[OF build_nid_well_formed, of ?t2 env NimModify] by (metis snd_conv)
    then have "quietly t t3" using t1 by (auto simp: quietly_def)
    moreover have "quietly t3 (logged (DestroyIcon (ts_icon ts)) t3)" by (rule quietly_logged) simp
    ultimately show ?thesis
      using Some load Inr n by (auto simp: set_icon_path_def Let_def intro: quietly_trans split: option.splits)
  qed (use Some load t1 in \<open>simp add: set_icon_path_def\<close>)
qed (simp add: set_icon_path_def quietly_def)

lemma quietly_tray_tick [quiet]: "quietly t (snd (tray_tick env version icons stats sb paused (shown, t)))"
proof -
  let ?t1 = "set_menu_items (tray_menu paused) (set_tooltip env (tray_tooltip version stats sb) t)"
  have "quietly t ?t1" by (rule quietly_trans[OF quietly_set_tooltip quietly_set_menu_items])
  moreover have "quietly ?t1 (snd (set_icon_path env p ?t1))" for p by (rule quietly_set_icon_path)
  ultimately show ?thesis by (auto simp: tray_tick_def Let_def intro: quietly_trans)
qed

lemma quietly_run_setup [quiet]: "quietly t (snd (run_setup env items t))"
proof -
  obtain r1 t1 where r1: "register_window_class env t = (r1, t1)" by force
  obtain r2 t2 where r2: "create_message_window env t1 = (r2, t2)" by force
  obtain h owns t3 where r3: "initial_icon env t2 = ((h, owns), t3)" by (metis prod.exhaust)
  have a: "t_calls t1 = t_calls t" using r1 by (auto simp: register_window_class_def Let_def split: option.splits)
  have b: "t_calls t2 = t_calls t1" using r2 by (auto simp: create_message_window_def)
  have "quietly t2 t3"
    using r3 quietly_load_icon[of t2 env "t_icon_path t2"]
    by (auto simp: initial_icon_def quietly_def split: if_splits prod.splits sum.splits)
  then have c: "quietly t (t3\<lparr>t_state := Some ts\<rparr>)" for ts using a b by (simp add: quietly_def)
  have d: "shell_notify env NimAdd (build_nid ts s) (t3\<lparr>t_state := Some ts'\<rparr>) = (r4, t4) \<Longrightarrow> quietly t t4" for ts ts' s r4 t4
    using quietly_trans[OF c quietly_shell_notify[OF build_nid_well_formed]] by (metis snd_conv)
  have e: "quietly t t4 \<Longrightarrow> quietly t (logged (DestroyWindow w) t4)" "quietly t t4 \<Longrightarrow> quietly t (with_state f t4)" for t4 w f
    by (auto simp: quietly_def)
  show ?thesis
    using r1 r2 r3 a b
    by (auto simp: run_setup_def Let_def quietly_same intro: e(1)[OF d] e(2)[OF d]
        split: option.splits sum.splits prod.splits)
qed

text \<open>What a click can still start: the menu, the balloon's callback, and what was started.\<close>

definition startable :: "'act tray \<Rightarrow> 'act list \<times> 'act option \<times> 'act menu_item list option" where
  "startable t = (t_started t, click_of t, map_option ts_items (t_state t))"

lemma startable_shell_notify [simp]: "startable (snd (shell_notify env m d t)) = startable t"
  by (simp add: startable_def click_of_def shell_notify_frame)

lemma startable_set_tooltip: "startable (set_tooltip env s t) = startable t"
  by (auto simp: set_tooltip_def startable_def click_of_def shell_notify_frame split: option.splits)

lemma startable_quit: "startable (quit t) = startable t"
  by (simp add: quit_def startable_def click_of_def split: option.splits)

lemma startable_open_url: "startable (snd (open_url env u t)) = startable t"
  by (simp add: open_url_def startable_def click_of_def split: sum.splits prod.splits)

lemma startable_set_menu_items:
  "startable (set_menu_items is t) = (t_started t, click_of t, map_option (\<lambda>_. is) (t_state t))"
  by (cases "t_state t") (simp_all add: set_menu_items_def startable_def click_of_def)

lemma startable_set_icon_path: "startable (snd (set_icon_path env p t)) = startable t"
  using load_icon_frame[of env p t]
  by (auto simp: set_icon_path_def startable_def click_of_def Let_def shell_notify_def split: option.splits prod.splits sum.splits)

lemma startable_tray_tick:
  "startable (snd (tray_tick env version icons stats sb paused (shown, t))) =
     (t_started t, click_of t, map_option (\<lambda>_. tray_menu paused) (t_state t))"
proof -
  have "startable (set_menu_items is (set_tooltip env s t)) = (t_started t, click_of t, map_option (\<lambda>_. is) (t_state t))" for "is" s
    unfolding startable_set_menu_items
    using startable_set_tooltip[of env s t] by (simp add: startable_def set_tooltip_effect)
  then show ?thesis by (simp add: tray_tick_def Let_def startable_set_icon_path)
qed

lemma startable_notify:
  "\<exists>a'. startable (snd (notify env seen title body sev a t)) = (t_started t, a', map_option ts_items (t_state t)) \<and>
     a' \<in> {a, click_of t}"
  by (cases "t_state t") (auto simp: notify_def startable_def click_of_def shell_notify_frame)

lemma startable_clicked:
  "startable (on_window (\<lambda>h. wnd_proc env h wmTrayCallback 0 ninBalloonUserClick) t) =
     (t_started t @ (case click_of t of None \<Rightarrow> [] | Some a \<Rightarrow> [a]), None, map_option ts_items (t_state t))"
  by (simp add: on_window_def wnd_proc_def message_numbers startable_def click_of_def split: option.splits)

lemma startable_gone:
  "startable (on_window (\<lambda>h. wnd_proc env h wmTrayCallback 0 (if hidden then ninBalloonHide else ninBalloonTimeout)) t) =
     (t_started t, None, map_option ts_items (t_state t))"
  by (simp add: on_window_def wnd_proc_def message_numbers startable_def click_of_def split: option.splits)

lemma startable_menu_shown:
  "startable (on_window (\<lambda>h. wnd_proc env h wmTrayCallback 0 wmRButtonUp) t) = startable t"
  by (simp add: on_window_def wnd_proc_def message_numbers show_menu_def startable_def click_of_def split: option.splits)

lemma startable_menu_pick:
  "startable (on_window (\<lambda>h. wnd_proc env h wmCommand w 0) t) =
     (t_started t @ (case t_state t of None \<Rightarrow> []
        | Some ts \<Rightarrow> (case menu_action (ts_items ts) (uint (loword w)) of None \<Rightarrow> [] | Some a \<Rightarrow> [a])),
      click_of t, map_option ts_items (t_state t))"
  by (simp add: on_window_def wnd_proc_def message_numbers startable_def click_of_def split: option.splits)

lemma tray_menu_action:
  "menu_action (tray_menu paused) i =
     (if i = 100 then Some ToggleConnection else if i = 102 then Some OpenHiddenBrowser
      else if i = 101 then Some QuitTray else None)"
  by (simp add: menu_action_def tray_menu_def Let_def)

lemma startable_run_setup:
  "t_state t = None \<Longrightarrow> startable (snd (run_setup env items t)) = (t_started t, None, map_option ts_items (t_state (snd (run_setup env items t))))"
  "t_state t = None \<Longrightarrow> t_state (snd (run_setup env items t)) = Some ts \<Longrightarrow> ts_items ts = items"
  using load_icon_frame[where 'a = 'a]
  by (auto simp: run_setup_def register_window_class_def create_message_window_def initial_icon_def Let_def
      startable_def click_of_def shell_notify_def load_icon_from_file_def
      split: option.splits sum.splits prod.splits if_splits)

section \<open>One step of the desktop\<close>

text \<open>The link a notification command carries, when it can be decoded.\<close>

definition notified :: "envelope \<Rightarrow> string set" where
  "notified e =
     (case decode_handler_args decode_notify_args CmdShowNotification e of Inl err \<Rightarrow> {} | Inr a \<Rightarrow> {na_url a})"

lemma run_inventory_refresh_rest:
  "ag_tray (run_inventory_refresh c e s) = ag_tray s" "ag_prompts (run_inventory_refresh c e s) = ag_prompts s"
  by (auto simp: run_inventory_refresh_def send_def Let_def split: sum.splits prod.splits option.splits)

lemma finish_machine_rest:
  "ag_tray (finish c e (on_machine f s)) = ag_tray s" "ag_prompts (finish c e (on_machine f s)) = ag_prompts s"
  by (simp_all add: on_machine_def split: prod.splits)

primrec is_link :: "action \<Rightarrow> bool" where
  "is_link ToggleConnection = False"
| "is_link OpenHiddenBrowser = False"
| "is_link QuitTray = False"
| "is_link (OpenLink u) = True"

definition links :: "action list \<Rightarrow> nat" where
  "links as = length (filter is_link as)"

definition to_list :: "'a option \<Rightarrow> 'a list" where
  "to_list x = (case x of None \<Rightarrow> [] | Some a \<Rightarrow> [a])"

lemma to_list_simps [simp]: "to_list None = []" "to_list (Some a) = [a]"
  by (simp_all add: to_list_def)

lemma links_simps [simp]: "links [] = 0" "links (a # as) = (if is_link a then Suc (links as) else links as)"
    "links (as @ bs) = links as + links bs"
  by (simp_all add: links_def)

definition serves :: "envelope \<Rightarrow> agent \<Rightarrow> agent \<Rightarrow> bool" where
  "serves e s s' \<longleftrightarrow>
     quietly (ag_tray s) (ag_tray s') \<and>
     (\<exists>a. startable (ag_tray s') = (t_started (ag_tray s), a, map_option ts_items (t_state (ag_tray s))) \<and>
        a \<in> {click_of (ag_tray s), None} \<union> Some ` OpenLink ` notified e) \<and>
     set (ag_prompts s') \<subseteq> set (ag_prompts s) \<union> UNIV \<times> UNIV \<times> notified e \<and>
     length (ag_prompts s) \<le> length (ag_prompts s') \<and>
     length (ag_prompts s') + links (to_list (click_of (ag_tray s')))
       \<le> length (ag_prompts s) + links (to_list (click_of (ag_tray s))) + card (notified e)"

lemma serves_rest: "ag_tray s' = ag_tray s \<Longrightarrow> ag_prompts s' = ag_prompts s \<Longrightarrow> serves e s s'"
  by (auto simp: serves_def startable_def intro: quiet)

lemma show_notification_serves: "serves e s (run_show_notification c e s)"
proof (cases "decode_handler_args decode_notify_args CmdShowNotification e")
  case (Inr a)
  let ?click = "if na_url a = [] then None else Some (OpenLink (na_url a))"
  have n: "notified e = {na_url a}" by (simp add: notified_def Inr)
  obtain r t where t: "notify (cx_tray c) (cx_tray_seen c) (na_title a) (na_body a) (severity_from_wire (na_severity a))
      ?click (ag_tray s) = (r, t)" by force
  have q: "quietly (ag_tray s) t"
    using quietly_notify[of "ag_tray s" "cx_tray c" "cx_tray_seen c" "na_title a" "na_body a" _ ?click] t by (metis snd_conv)
  obtain a' where a': "startable t = (t_started (ag_tray s), a', map_option ts_items (t_state (ag_tray s)))"
      "a' \<in> {?click, click_of (ag_tray s)}"
    using startable_notify[of "cx_tray c" "cx_tray_seen c" "na_title a" "na_body a" _ ?click "ag_tray s"] t by (metis snd_conv)
  have "serves e s (finish c e (r, s\<lparr>ag_tray := t\<rparr>))"
    using q a' by (auto simp: serves_def n startable_def split: if_splits)
  moreover have "serves e s (finish c e (None, show_connection_request (na_title a) (na_body a) (na_url a) s))"
    by (auto simp: serves_def n show_connection_request_def startable_def intro: quiet)
  ultimately show ?thesis using t by (auto simp: run_show_notification_def Inr serves_rest)
qed (simp add: run_show_notification_def serves_rest)

lemma dispatch_serves: "serves e s (dispatch_command light_handlers c e s)"
proof (cases "decode_data decode_command_data e")
  case (Inr cmd)
  show ?thesis
  proof (cases "light_handlers (cmd_kind cmd)")
    case None
    then show ?thesis by (simp add: dispatch_command_def Inr send_def Let_def serves_rest)
  next
    case (Some h)
    have run: "dispatch_command light_handlers c e s = h c e s" by (simp add: dispatch_command_def Inr Some)
    from light_handlers_cases[OF Some] consider "h = run_show_notification"
      | "ag_tray (h c e s) = ag_tray s" "ag_prompts (h c e s) = ag_prompts s"
      by (auto simp: run_inventory_refresh_rest run_start_solarbeam_def run_stop_solarbeam_def run_self_update_def
          run_solarbeam_engine_update_def finish_machine_rest split: sum.splits prod.splits)
    then show ?thesis unfolding run by cases (simp_all add: show_notification_serves serves_rest)
  qed
qed (simp add: dispatch_command_def serves_rest)

lemma with_tray_simps [simp]:
  "ag_tray (dk_agent (with_tray f d)) = f (dk_tray d)" "ag_prompts (dk_agent (with_tray f d)) = ag_prompts (dk_agent d)"
  "dk_link (with_tray f d) = dk_link d" "dk_ran (with_tray f d) = dk_ran d" "dk_toggles (with_tray f d) = dk_toggles d"
  "dk_answers (with_tray f d) = dk_answers d" "dk_served (with_tray f d) = dk_served d"
  by (simp_all add: with_tray_def)

lemma show_warnings_tray: "quietly t (show_warnings env cs t) \<and> t_started (show_warnings env cs t) = t_started t \<and>
    click_of (show_warnings env cs t) \<in> {click_of t, None} \<and>
    map_option ts_items (t_state (show_warnings env cs t)) = map_option ts_items (t_state t)"
proof (induction cs arbitrary: t)
  case Nil
  show ?case by (simp add: show_warnings_def quiet)
next
  case (Cons c cs)
  show ?case
  proof (cases "\<exists>title body. c = Warn title body")
    case True
    then obtain title body where c: "c = Warn title body" by blast
    let ?t = "snd (notify env (\<lambda>n. t_state t \<noteq> None) title body NotifyWarning None t)"
    have "show_warnings env (c # cs) t = show_warnings env cs ?t" by (simp add: show_warnings_def c)
    moreover obtain a where "startable ?t = (t_started t, a, map_option ts_items (t_state t))" "a \<in> {None, click_of t}"
      using startable_notify[of env "\<lambda>n. t_state t \<noteq> None" title body NotifyWarning None t] by blast
    ultimately show ?thesis
      using Cons.IH[of ?t] quietly_trans[OF quietly_notify[of t env "\<lambda>n. t_state t \<noteq> None" title body NotifyWarning None]]
      by (auto simp: startable_def)
  next
    case False
    then have "show_warnings env (c # cs) t = show_warnings env cs t"
      by (cases c) (simp_all add: show_warnings_def)
    then show ?thesis using Cons.IH by simp
  qed
qed

section \<open>Links\<close>

definition https_url :: "string \<Rightarrow> bool" where
  "https_url s = (case url_parse s of Inl e \<Rightarrow> False | Inr u \<Rightarrow> pu_scheme u = ''https'')"

definition opens :: "'act tray \<Rightarrow> nat" where
  "opens t = length (filter (\<lambda>c. case c of ShellOpen w \<Rightarrow> True | _ \<Rightarrow> False) (t_calls t))"

definition served_links :: "desktop \<Rightarrow> string set" where
  "served_links d = (\<Union>e \<in> set (dk_served d). notified e)"

definition served_notices :: "desktop \<Rightarrow> nat" where
  "served_notices d = sum_list (map (\<lambda>e. card (notified e)) (dk_served d))"

definition allowed_call :: "string set \<Rightarrow> tray_call \<Rightarrow> bool" where
  "allowed_call us c \<longleftrightarrow> orderly c \<or> (\<exists>u \<in> us. \<exists>w. c = ShellOpen w \<and> https_url u \<and> utf16_from_string u = Inr w)"

definition menus :: "action menu_item list option set" where
  "menus = {None} \<union> Some ` range tray_menu"

definition ran_links :: "desktop \<Rightarrow> nat set" where
  "ran_links d = {k \<in> dk_ran d. is_link (t_started (dk_tray d) ! k)}"

definition links_inv :: "nat \<Rightarrow> desktop \<Rightarrow> bool" where
  "links_inv clicks d \<longleftrightarrow>
     (\<forall>c \<in> set (t_calls (dk_tray d)). allowed_call (served_links d) c) \<and>
     OpenLink -` set (t_started (dk_tray d) @ to_list (click_of (dk_tray d))) \<subseteq> served_links d \<and>
     map_option ts_items (t_state (dk_tray d)) \<in> menus \<and>
     set (ag_prompts (dk_agent d)) \<subseteq> UNIV \<times> UNIV \<times> served_links d \<and>
     dk_ran d \<subseteq> {..<length (t_started (dk_tray d))} \<and>
     distinct (map fst (dk_answers d)) \<and> fst ` set (dk_answers d) \<subseteq> {..<length (ag_prompts (dk_agent d))} \<and>
     links (t_started (dk_tray d)) \<le> clicks \<and>
     links (t_started (dk_tray d)) + links (to_list (click_of (dk_tray d))) + length (ag_prompts (dk_agent d))
       \<le> served_notices d \<and>
     opens (dk_tray d) \<le> card (ran_links d) + length (filter snd (dk_answers d))"

lemma opens_quietly: "quietly t t' \<Longrightarrow> opens t' = opens t"
proof -
  have "list_all orderly cs \<Longrightarrow> filter (\<lambda>c. case c of ShellOpen w \<Rightarrow> True | _ \<Rightarrow> False) cs = []" for cs
    by (induction cs) (auto split: tray_call.splits)
  then show "quietly t t' \<Longrightarrow> opens t' = opens t" by (auto simp: quietly_def opens_def)
qed

lemma allowed_quietly:
  "quietly t t' \<Longrightarrow> \<forall>c \<in> set (t_calls t). allowed_call us c \<Longrightarrow> \<forall>c \<in> set (t_calls t'). allowed_call us c"
  by (auto simp: quietly_def allowed_call_def list_all_iff)

lemma ran_prefix: "k \<in> K \<Longrightarrow> K \<subseteq> {..<length xs} \<Longrightarrow> (xs @ ys) ! k = xs ! k"
  by (auto simp: nth_append)

text \<open>A step that only moves the tray, starting at most the callback a click was waiting for.\<close>

lemma links_inv_tray:
  assumes "links_inv clicks d" "quietly (dk_tray d) t'"
    and "startable t' = (t_started (dk_tray d) @ xs, a, is)" "is \<in> menus"
    and "OpenLink -` set (xs @ to_list a) \<subseteq> OpenLink -` set (to_list (click_of (dk_tray d)))"
    and "links xs + links (to_list a) \<le> links (to_list (click_of (dk_tray d)))" "links xs \<le> extra"
    and "dk_tray d' = t'" "ag_prompts (dk_agent d') = ag_prompts (dk_agent d)" "dk_ran d' = dk_ran d"
    and "dk_answers d' = dk_answers d" "dk_served d' = dk_served d"
  shows "links_inv (clicks + extra) d'"
proof -
  have new: "t_started t' = t_started (dk_tray d) @ xs" "click_of t' = a" "map_option ts_items (t_state t') = is"
    using assms(3) by (auto simp: startable_def)
  have served: "served_links d' = served_links d" "served_notices d' = served_notices d"
    by (simp_all add: served_links_def served_notices_def assms(12))
  have ran: "dk_ran d \<subseteq> {..<length (t_started (dk_tray d))}" using assms(1) by (simp add: links_inv_def)
  then have "ran_links d' = ran_links d"
    using ran_prefix[OF _ ran] by (auto simp: ran_links_def new assms(8,10))
  then show ?thesis
    using assms(1,4-7) ran opens_quietly[OF assms(2)] allowed_quietly[OF assms(2)]
    unfolding links_inv_def new served assms(8-12) by (auto simp: vimage_def)
qed

lemma open_url_opens:
  "opens (snd (open_url env u t)) \<le> Suc (opens t) \<and>
     (\<forall>c \<in> set (t_calls (snd (open_url env u t))). c \<in> set (t_calls t) \<or> allowed_call {u} c)"
proof (cases "\<exists>w p. url_parse u = Inr p \<and> pu_scheme p = ''https'' \<and> utf16_from_string u = Inr w")
  case True
  then obtain w where "https_url u" "utf16_from_string u = Inr w" "snd (open_url env u t) = logged (ShellOpen w) t"
    by (auto simp: open_url_def https_url_def split: prod.splits)
  then show ?thesis by (auto simp: opens_def allowed_call_def)
next
  case False
  then have "snd (open_url env u t) = t" by (auto simp: open_url_def split: sum.splits)
  then show ?thesis by simp
qed

lemma answer_prompt_opens:
  "startable (answer_prompt env b u t) = startable t \<and>
   opens (answer_prompt env b u t) \<le> opens t + (if b then 1 else 0) \<and>
     (\<forall>c \<in> set (t_calls (answer_prompt env b u t)). c \<in> set (t_calls t) \<or> allowed_call {u} c)"
  using open_url_opens[of env u t] by (auto simp: answer_prompt_def startable_open_url)

lemma links_inv_ran:
  assumes "links_inv n d" "k < length (t_started (dk_tray d))" "k \<notin> dk_ran d"
  shows "links_inv n (d\<lparr>dk_ran := insert k (dk_ran d)\<rparr>) \<and>
    card (ran_links (d\<lparr>dk_ran := insert k (dk_ran d)\<rparr>)) =
      card (ran_links d) + (if is_link (t_started (dk_tray d) ! k) then 1 else 0)"
proof -
  let ?d = "d\<lparr>dk_ran := insert k (dk_ran d)\<rparr>"
  have fin: "finite (ran_links d)" "k \<notin> ran_links d"
    using assms by (auto simp: links_inv_def ran_links_def intro: finite_subset)
  have "ran_links ?d = (if is_link (t_started (dk_tray d) ! k) then insert k (ran_links d) else ran_links d)"
    by (auto simp: ran_links_def)
  then have "card (ran_links ?d) = card (ran_links d) + (if is_link (t_started (dk_tray d) ! k) then 1 else 0)"
    using fin by simp
  then show ?thesis using assms by (auto simp: links_inv_def served_links_def served_notices_def)
qed

lemma links_inv_browser:
  assumes "links_inv n d" shows "links_inv n (open_browser env d)"
proof -
  let ?l = "snd (launcher_open (ds_browser env) (dk_launcher d))"
  let ?cs = "drop (length (la_calls (dk_launcher d))) (la_calls ?l)"
  let ?t = "show_warnings (ds_tray env) ?cs (dk_tray d)"
  have w: "quietly (dk_tray d) ?t" "click_of ?t \<in> {click_of (dk_tray d), None}"
      "startable ?t = (t_started (dk_tray d) @ [], click_of ?t, map_option ts_items (t_state (dk_tray d)))"
    using show_warnings_tray[of "dk_tray d" "ds_tray env" ?cs] by (auto simp: startable_def)
  have "map_option ts_items (t_state (dk_tray d)) \<in> menus" using assms by (simp add: links_inv_def)
  from links_inv_tray[OF assms w(1,3) this, of 0 "open_browser env d"] w(2)
  show ?thesis by (auto simp: open_browser_def Let_def)
qed

lemma run_action_links:
  assumes "links_inv n d" "k < length (t_started (dk_tray d))" "k \<notin> dk_ran d"
  shows "links_inv n (run_action env k (t_started (dk_tray d) ! k) (d\<lparr>dk_ran := insert k (dk_ran d)\<rparr>))"
proof -
  let ?d = "d\<lparr>dk_ran := insert k (dk_ran d)\<rparr>"
  note d = links_inv_ran[OF assms]
  show ?thesis
  proof (cases "t_started (dk_tray d) ! k")
    case (OpenLink u)
    have "u \<in> served_links d" using assms(1,2) nth_mem[OF assms(2)] OpenLink by (auto simp: links_inv_def)
    moreover have "opens (dk_tray d) \<le> card (ran_links d) + length (filter snd (dk_answers d))"
      using assms(1) by (simp add: links_inv_def)
    ultimately show ?thesis
      using d OpenLink open_url_opens[of "ds_tray env" u "dk_tray d"] startable_open_url[of "ds_tray env" u "dk_tray d"]
      by (auto simp: links_inv_def ran_links_def served_links_def served_notices_def startable_def allowed_call_def)
  next
    case QuitTray
    have "map_option ts_items (t_state (dk_tray d)) \<in> menus" using assms(1) by (simp add: links_inv_def)
    with links_inv_tray[of n ?d "quit (dk_tray d)" "[]" "click_of (dk_tray d)" _ 0 "with_tray quit ?d"] d QuitTray
    show ?thesis by (simp add: quietly_quit startable_quit) (simp add: startable_def)
  next
    case OpenHiddenBrowser
    then show ?thesis using d links_inv_browser by simp
  next
    case ToggleConnection
    then show ?thesis using d by (simp add: links_inv_def ran_links_def served_links_def served_notices_def)
  qed
qed

lemma run_prompt_links:
  assumes "links_inv n d" "k < length (ag_prompts (dk_agent d))" "k \<notin> fst ` set (dk_answers d)"
  shows "links_inv n (run_prompt env k (ag_prompts (dk_agent d) ! k) d)"
proof -
  obtain title body u where p: "ag_prompts (dk_agent d) ! k = (title, body, u)" by (metis prod.exhaust)
  obtain b cb where b: "wizard_prompt (ds_dialog env) title body (dk_callbacks d) = (b, cb)" by force
  have "u \<in> served_links d" using assms(1) nth_mem[OF assms(2)] p by (auto simp: links_inv_def)
  then show ?thesis
    using assms answer_prompt_opens[of "ds_tray env" b u "dk_tray d"]
    by (auto simp: run_prompt_def p b links_inv_def ran_links_def served_links_def served_notices_def startable_def
        allowed_call_def)
qed

lemma command_links:
  assumes "links_inv n d" shows "links_inv n (desktop_step env (CommandIn e) d)"
proof -
  let ?s = "dk_agent d" and ?d = "desktop_step env (CommandIn e) d"
  have "serves e ?s (dk_agent ?d)" using dispatch_serves by simp
  then obtain a where s: "quietly (dk_tray d) (dk_tray ?d)" "t_started (dk_tray ?d) = t_started (dk_tray d)"
      "click_of (dk_tray ?d) = a" "map_option ts_items (t_state (dk_tray ?d)) = map_option ts_items (t_state (dk_tray d))"
      "a \<in> {click_of (dk_tray d), None} \<union> Some ` OpenLink ` notified e"
      "set (ag_prompts (dk_agent ?d)) \<subseteq> set (ag_prompts ?s) \<union> UNIV \<times> UNIV \<times> notified e"
      "length (ag_prompts ?s) \<le> length (ag_prompts (dk_agent ?d))"
      "length (ag_prompts (dk_agent ?d)) + links (to_list a)
         \<le> length (ag_prompts ?s) + links (to_list (click_of (dk_tray d))) + card (notified e)"
    by (auto simp: serves_def startable_def)
  have served: "served_links ?d = served_links d \<union> notified e" "served_notices ?d = served_notices d + card (notified e)"
    by (auto simp: served_links_def served_notices_def)
  have keep: "dk_ran ?d = dk_ran d" "dk_answers ?d = dk_answers d" by simp_all
  have "\<forall>c \<in> set (t_calls (dk_tray d)). allowed_call (served_links d \<union> notified e) c"
    using assms by (auto simp: links_inv_def allowed_call_def)
  from allowed_quietly[OF s(1) this] show ?thesis
    using assms opens_quietly[OF s(1)] s(4-8) unfolding links_inv_def ran_links_def served keep s(2,3)
    by (auto simp: vimage_def)
qed

lemma links_inv_menus: "links_inv n d \<Longrightarrow> map_option ts_items (t_state (dk_tray d)) \<in> menus"
  by (simp add: links_inv_def)

lemma menus_tray_menu: "map_option (\<lambda>_. tray_menu paused) x \<in> menus"
  by (cases x) (auto simp: menus_def)

lemma menu_pick_starts:
  "map_option ts_items s \<in> menus \<Longrightarrow>
     (case s of None \<Rightarrow> [] | Some ts \<Rightarrow> (case menu_action (ts_items ts) i of None \<Rightarrow> [] | Some a \<Rightarrow> [a])) =
       (if s = None then [] else if i = 100 then [ToggleConnection] else if i = 102 then [OpenHiddenBrowser]
        else if i = 101 then [QuitTray] else [])"
  by (auto simp: menus_def tray_menu_action split: option.splits if_splits)

lemma links_inv_frame:
  "links_inv n d \<Longrightarrow> dk_agent d' = dk_agent d \<Longrightarrow> dk_ran d' = dk_ran d \<Longrightarrow> dk_answers d' = dk_answers d \<Longrightarrow>
     dk_served d' = dk_served d \<Longrightarrow> links_inv n d'"
  by (simp add: links_inv_def ran_links_def served_links_def served_notices_def)

lemma window_quietly [quiet]: "quietly t (on_window (\<lambda>h. wnd_proc env h m w l) t)"
  by (auto simp: on_window_def intro: quiet split: option.splits)

definition clicks_of :: "desktop_event list \<Rightarrow> nat" where
  "clicks_of evs = length (filter (\<lambda>e. e = BalloonClick) evs)"

lemma links_inv_step:
  assumes "links_inv n d"
  shows "links_inv (n + (if ev = BalloonClick then 1 else 0)) (desktop_step env ev d)"
proof (cases ev)
  case (CommandIn e)
  then show ?thesis using command_links[OF assms] by simp
next
  case BalloonClick
  from links_inv_tray[OF assms window_quietly startable_clicked[of "ds_tray env"] links_inv_menus[OF assms],
      where extra = 1 and d' = "desktop_step env ev d"] BalloonClick
  show ?thesis by (cases "click_of (dk_tray d)") (auto split: if_splits)
next
  case (BalloonGone hidden)
  have "startable (dk_tray (desktop_step env ev d)) = (t_started (dk_tray d) @ [], None, map_option ts_items (t_state (dk_tray d)))"
    using startable_gone[of "ds_tray env" hidden "dk_tray d"] BalloonGone by simp
  from links_inv_tray[OF assms _ this links_inv_menus[OF assms], where extra = 0 and d' = "desktop_step env ev d"] BalloonGone
  show ?thesis by (simp add: window_quietly)
next
  case MenuShown
  have "startable (dk_tray (desktop_step env ev d)) =
      (t_started (dk_tray d) @ [], click_of (dk_tray d), map_option ts_items (t_state (dk_tray d)))"
    using startable_menu_shown[of "ds_tray env" "dk_tray d"] MenuShown by (simp add: startable_def)
  from links_inv_tray[OF assms _ this links_inv_menus[OF assms], where extra = 0 and d' = "desktop_step env ev d"] MenuShown
  show ?thesis by (simp add: window_quietly)
next
  case (MenuPick w)
  have none: "OpenLink -` set (if b then [] else if i = 100 then [ToggleConnection] else if i = 102 then [OpenHiddenBrowser]
        else if i = 101 then [QuitTray] else []) = {}"
      "links (if b then [] else if i = 100 then [ToggleConnection] else if i = 102 then [OpenHiddenBrowser]
        else if i = 101 then [QuitTray] else []) = 0" for b and i :: int
    by auto
  from links_inv_tray[OF assms window_quietly startable_menu_pick[of "ds_tray env" w] links_inv_menus[OF assms],
      where extra = 0 and d' = "desktop_step env ev d"] MenuPick menu_pick_starts[OF links_inv_menus[OF assms]]
  show ?thesis by (simp add: none)
next
  case (PollTick sb)
  let ?t = "tray_tick (ds_tray env) (cx_version (ds_context env)) (ds_icons env) (c_stats (snd (dk_link d))) sb
      (fst (dk_link d)) (dk_last d, dk_tray d)"
  have "startable (snd ?t) = (t_started (dk_tray d) @ [], click_of (dk_tray d), map_option (\<lambda>_. tray_menu (fst (dk_link d))) (t_state (dk_tray d)))"
    using startable_tray_tick by simp
  from links_inv_tray[OF assms quietly_tray_tick this menus_tray_menu, where extra = 0 and d' = "desktop_step env ev d"] PollTick
  show ?thesis by (simp split: prod.splits)
next
  case (RunCallback k)
  then show ?thesis using run_action_links[OF assms] assms by simp
next
  case (ToggleStep k)
  have "links_inv n (desktop_step env ev d)"
  proof (cases "map_of (dk_toggles d) k")
    case (Some p)
    then show ?thesis by (cases p) (auto simp: ToggleStep intro!: links_inv_frame[OF assms])
  qed (simp add: ToggleStep assms)
  then show ?thesis using ToggleStep by simp
next
  case (RunPrompt k)
  then show ?thesis using run_prompt_links[OF assms] assms by simp
next
  case (LinkStep e)
  then show ?thesis using assms
    by (auto intro!: links_inv_frame[OF assms] split: client_event.splits option.splits)
qed

lemma links_inv_start: "links_inv 0 (desktop_start env m l)"
proof -
  let ?t = "new_tray (fst (ds_icons env)) :: action tray" and ?u = "dk_tray (desktop_start env m l)"
  have u: "?u = snd (run_setup (ds_tray env) (tray_menu False) ?t)" by (simp add: desktop_start_def)
  have s: "t_state ?t = None" "t_calls ?t = []" "t_started ?t = []" by (simp_all add: new_tray_def)
  have "quietly ?t ?u" unfolding u by (rule quietly_run_setup)
  then have calls: "\<forall>c \<in> set (t_calls ?u). allowed_call us c" "opens ?u = 0" for us
    using allowed_quietly[of ?t ?u] opens_quietly[of ?t ?u] s by (simp_all add: opens_def)
  have st: "t_started ?u = []" "click_of ?u = None"
    using startable_run_setup(1)[OF s(1), of "ds_tray env" "tray_menu False"] s(3) unfolding u startable_def by simp_all
  have "map_option ts_items (t_state ?u) \<in> menus"
    using startable_run_setup(2)[OF s(1), of "ds_tray env" "tray_menu False"] unfolding u menus_def
    by (cases "t_state (snd (run_setup (ds_tray env) (tray_menu False) ?t))") auto
  with calls st show ?thesis unfolding links_inv_def by (simp add: desktop_start_def)
qed

lemma clicks_of_snoc: "clicks_of (evs @ [ev]) = clicks_of evs + (if ev = BalloonClick then 1 else 0)"
  by (simp add: clicks_of_def)

lemma desktop_run_snoc: "desktop_run env (evs @ [ev]) d = desktop_step env ev (desktop_run env evs d)"
  by (simp add: desktop_run_def)

lemma links_inv_run: "links_inv (clicks_of evs) (desktop_run env evs (desktop_start env m l))"
proof (induction evs rule: rev_induct)
  case Nil
  then show ?case using links_inv_start by (simp add: desktop_run_def clicks_of_def)
next
  case (snoc ev evs)
  then show ?case using links_inv_step by (simp add: clicks_of_snoc desktop_run_snoc)
qed

definition commands_of :: "desktop_event list \<Rightarrow> envelope list" where
  "commands_of evs = concat (map (\<lambda>e. case e of CommandIn c \<Rightarrow> [c] | _ \<Rightarrow> []) evs)"

definition notices_of :: "desktop_event list \<Rightarrow> nat" where
  "notices_of evs = sum_list (map (\<lambda>c. card (notified c)) (commands_of evs))"

lemma open_browser_rest:
  "dk_served (open_browser env d) = dk_served d" "dk_link (open_browser env d) = dk_link d"
  "dk_toggles (open_browser env d) = dk_toggles d" "dk_ran (open_browser env d) = dk_ran d"
  by (simp_all add: open_browser_def Let_def)

lemma run_prompt_rest:
  "dk_served (run_prompt env k p d) = dk_served d" "dk_link (run_prompt env k p d) = dk_link d"
  "dk_toggles (run_prompt env k p d) = dk_toggles d" "dk_ran (run_prompt env k p d) = dk_ran d"
  by (simp_all add: run_prompt_def split: prod.splits)

lemma run_action_rest:
  "dk_served (run_action env k a d) = dk_served d" "dk_link (run_action env k a d) = dk_link d"
  "dk_ran (run_action env k a d) = dk_ran d"
  by (cases a; simp add: open_browser_rest)+

lemma toggle_on_rest: "dk_served (toggle_on k p d) = dk_served d" "dk_ran (toggle_on k p d) = dk_ran d"
    "dk_agent (toggle_on k p d) = dk_agent d"
  by (cases p; simp)+

lemma desktop_run_served: "dk_served (desktop_run env evs (desktop_start env m l)) = commands_of evs"
proof (induction evs rule: rev_induct)
  case Nil
  show ?case by (simp add: desktop_run_def commands_of_def desktop_start_def)
next
  case (snoc ev evs)
  then show ?case
    by (cases ev) (auto simp: desktop_run_snoc commands_of_def run_action_rest run_prompt_rest toggle_on_rest
        split: prod.splits option.splits client_event.splits)
qed

lemma links_inv_opens:
  assumes "links_inv n d"
  shows "opens (dk_tray d) \<le> n + length (filter snd (dk_answers d))" "opens (dk_tray d) \<le> served_notices d"
proof -
  have ran: "ran_links d \<subseteq> {k. k < length (t_started (dk_tray d)) \<and> is_link (t_started (dk_tray d) ! k)}"
    using assms by (auto simp: links_inv_def ran_links_def)
  then have a: "card (ran_links d) \<le> links (t_started (dk_tray d))"
    using card_mono[OF _ ran] by (simp add: links_def length_filter_conv_card)
  have "length (dk_answers d) = card (fst ` set (dk_answers d))"
    using assms distinct_card[of "map fst (dk_answers d)"] by (simp add: links_inv_def)
  also have "\<dots> \<le> length (ag_prompts (dk_agent d))"
    using assms card_mono[of "{..<length (ag_prompts (dk_agent d))}" "fst ` set (dk_answers d)"] by (simp add: links_inv_def)
  finally have "length (filter snd (dk_answers d)) \<le> length (ag_prompts (dk_agent d))"
    using length_filter_le le_trans by blast
  then show "opens (dk_tray d) \<le> n + length (filter snd (dk_answers d))" "opens (dk_tray d) \<le> served_notices d"
    using a assms by (auto simp: links_inv_def)
qed

text \<open>
  C9. The agent opens only what the server sent and the mentor agreed to: in every run of the
  desktop, whatever commands, clicks, ticks and goroutines interleave, each text handed to the shell
  is the link of a notification command of that run, parses as a URL and has the scheme \<open>https\<close>; there
  are at most as many as clicks on a balloon and prompts answered with \<open>Continue\<close>, and at most one
  for each such command.
\<close>

theorem links_only_from_server:
  assumes "desktop_run env evs (desktop_start env m l) = d"
  shows "(\<forall>w. ShellOpen w \<in> set (t_calls (dk_tray d)) \<longrightarrow>
      (\<exists>c u. c \<in> set (commands_of evs) \<and> u \<in> notified c \<and> https_url u \<and> utf16_from_string u = Inr w)) \<and>
    opens (dk_tray d) \<le> clicks_of evs + length (filter snd (dk_answers d)) \<and>
    opens (dk_tray d) \<le> notices_of evs"
proof -
  have inv: "links_inv (clicks_of evs) d" and served: "dk_served d = commands_of evs"
    using links_inv_run desktop_run_served assms by auto
  have "\<forall>c \<in> set (t_calls (dk_tray d)). allowed_call (served_links d) c" using inv by (simp add: links_inv_def)
  then show ?thesis
    using links_inv_opens[OF inv] by (fastforce simp: allowed_call_def served_links_def served_notices_def served notices_of_def)
qed

definition sample_desk :: deskenv where
  "sample_desk = \<lparr>ds_context = update_context, ds_icons = (''a.ico'', ''b.ico''),
     ds_dialog = \<lparr>de_text = (\<lambda>u. 1), de_bytes = (\<lambda>b. 1), de_callback = 1, 
       de_dialog = (\<lambda>b. \<lparr>do_ret = 0, do_button = 1, do_error = Msg [], do_window = None\<rparr>)\<rparr>,
     ds_browser = sample_browser, ds_config = sample_client\<rparr>"

definition sample_note :: notify_args where
  "sample_note = \<lparr>na_kind = ''update'', na_title = ''t'', na_body = ''b'', na_severity = [], na_url = ''https://h/p''\<rparr>"

definition sample_start :: desktop where
  "sample_start = desktop_start sample_desk update_machine bare_launcher"

lemma sample_start_tray: "dk_tray sample_start = running_tray" "dk_ran sample_start = {}"
  by (simp_all add: sample_start_def sample_desk_def desktop_start_def update_context_def running_tray_def)

lemma sample_start_state:
  "t_state (dk_tray sample_start) \<noteq> None" "t_started (dk_tray sample_start) = []"
  "map_option ts_items (t_state (dk_tray sample_start)) = Some (tray_menu False)"
  "\<exists>n. NotifyIcon NimAdd n True \<in> set (t_calls (dk_tray sample_start))"
  unfolding sample_start_tray
  by (simp_all add: running_tray_def run_setup_def
      register_window_class_def create_message_window_def initial_icon_def load_icon_from_file_def
      shell_notify_def quiet_tray_def new_tray_def utf16_from_string_def Let_def chr_zero)

lemma sample_note_served:
  "decode_handler_args decode_notify_args CmdShowNotification (bare_command CmdShowNotification (notify_args_json sample_note)) =
     Inr sample_note"
  by (simp add: decode_handler_bare)

lemma sample_note_click:
  assumes "t_state t = Some ts"
  shows "startable (ag_tray (dispatch_command light_handlers update_context
      (bare_command CmdShowNotification (notify_args_json sample_note)) (s\<lparr>ag_tray := t\<rparr>))) =
    (t_started t, Some (OpenLink ''https://h/p''), Some (ts_items ts))"
proof -
  obtain r t' where n: "notify quiet_tray (\<lambda>n. True) ''t'' ''b'' NotifyInfo (Some (OpenLink ''https://h/p'')) t = (r, t')" by force
  have "startable t' = (t_started t, Some (OpenLink ''https://h/p''), Some (ts_items ts))"
  proof -
    have "t' = snd (notify quiet_tray (\<lambda>n. True) ''t'' ''b'' NotifyInfo (Some (OpenLink ''https://h/p'')) t)" using n by simp
    then show ?thesis using assms by (simp add: notify_def wait_for_state_True startable_def click_of_def shell_notify_frame)
  qed
  moreover have "dispatch_command light_handlers c (bare_command CmdShowNotification v) = run_show_notification c (bare_command CmdShowNotification v)" for c v
    by (rule ext) (simp add: dispatch_command_def light_handlers_def command_kinds)
  moreover have "cx_tray update_context = quiet_tray" "cx_tray_seen update_context = (\<lambda>n. True)"
    by (simp_all add: update_context_def)
  moreover have "na_kind sample_note = ''update''" "na_title sample_note = ''t''" "na_body sample_note = ''b''"
      "na_url sample_note = ''https://h/p''" "severity_from_wire (na_severity sample_note) = NotifyInfo"
    by (simp_all add: sample_note_def severity_from_wire_def)
  ultimately show ?thesis using n
    by (simp add: run_show_notification_def sample_note_served connection_request_kind_def)
qed

lemma sample_url_opens:
  "\<exists>w. utf16_from_string ''https://h/p'' = Inr w \<and> open_url quiet_tray ''https://h/p'' t = (None, logged (ShellOpen w) t)"
proof -
  have "url_parse ''https://h/p'' = Inr \<lparr>pu_scheme = ''https'', pu_opaque = [], pu_host = ''h''\<rparr>" by code_simp
  then show ?thesis by (simp add: open_url_def utf16_from_string_def chr_zero quiet_tray_def)
qed

theorem links_only_from_server_witness:
  "\<exists>d w. desktop_run sample_desk [CommandIn (bare_command CmdShowNotification (notify_args_json sample_note)), BalloonClick, RunCallback 0]
       (desktop_start sample_desk update_machine bare_launcher) = d \<and>
     utf16_from_string ''https://h/p'' = Inr w \<and> ShellOpen w \<in> set (t_calls (dk_tray d)) \<and>
     opens (dk_tray d) \<le> 1 + length (filter snd (dk_answers d)) \<and> opens (dk_tray d) \<le> 1"
proof -
  let ?e = "bare_command CmdShowNotification (notify_args_json sample_note)"
  let ?evs = "[CommandIn ?e, BalloonClick, RunCallback 0]"
  let ?d1 = "desktop_step sample_desk (CommandIn ?e) sample_start"
  let ?d2 = "desktop_step sample_desk BalloonClick ?d1"
  let ?d3 = "desktop_step sample_desk (RunCallback 0) ?d2"
  have run: "desktop_run sample_desk ?evs (desktop_start sample_desk update_machine bare_launcher) = ?d3"
    by (simp add: desktop_run_def sample_start_def del: desktop_step.simps)
  obtain ts where ts: "t_state (dk_tray sample_start) = Some ts" using sample_start_state(1) by blast
  have "startable (dk_tray ?d1) = ([], Some (OpenLink ''https://h/p''), Some (ts_items ts))"
    using sample_note_click[OF ts, of "dk_agent sample_start"] sample_start_state(2)
    by (simp add: sample_desk_def)
  then have d1: "t_started (dk_tray ?d1) = []" "click_of (dk_tray ?d1) = Some (OpenLink ''https://h/p'')"
    by (simp_all add: startable_def)
  have "startable (dk_tray ?d2) = ([OpenLink ''https://h/p''], None, map_option ts_items (t_state (dk_tray ?d1)))"
    using startable_clicked[of "ds_tray sample_desk" "dk_tray ?d1"] d1 by simp
  then have d2: "t_started (dk_tray ?d2) = [OpenLink ''https://h/p'']" "dk_ran ?d2 = {}"
    using sample_start_tray(2) by (simp_all add: startable_def)
  have env: "ds_tray sample_desk = quiet_tray" by (simp add: sample_desk_def update_context_def)
  obtain w where w: "utf16_from_string ''https://h/p'' = Inr w"
    using sample_url_opens by blast
  then have opened: "snd (open_url quiet_tray ''https://h/p'' t) = logged (ShellOpen w) t" for t :: "action tray"
    using sample_url_opens[of t] by auto
  have "dk_tray ?d3 = logged (ShellOpen w) (dk_tray ?d2)"
    using d2 opened env by (simp del: desktop_step.simps add: desktop_step.simps(7))
  then have "ShellOpen w \<in> set (t_calls (dk_tray ?d3))" by simp
  moreover have "clicks_of ?evs = 1" "notices_of ?evs = 1"
    by (simp_all add: clicks_of_def notices_of_def commands_of_def notified_def sample_note_served)
  ultimately show ?thesis using links_only_from_server[OF run] run w
    by (intro exI[of _ ?d3] exI[of _ w]) (simp del: desktop_step.simps)
qed

text \<open>
  C33. In every run of the desktop each structure handed to \<open>Shell_NotifyIconW\<close>, whatever texts the
  server's notifications, the connection and the engine put into it, has its three text arrays at
  full size and NUL-terminated within, one of the two flag combinations and a defined severity.
\<close>

theorem tray_structures_well_formed:
  assumes "NotifyIcon msg n ok \<in> set (t_calls (dk_tray (desktop_run env evs (desktop_start env m l))))"
  shows "well_formed_nid n"
  using links_inv_run[of evs env m l] assms by (fastforce simp: links_inv_def allowed_call_def)

theorem tray_structures_well_formed_witness:
  "\<exists>n ok. NotifyIcon NimAdd n ok \<in> set (t_calls (dk_tray (desktop_run sample_desk [] (desktop_start sample_desk update_machine bare_launcher)))) \<and>
     well_formed_nid n"
proof -
  let ?d = "desktop_run sample_desk [] (desktop_start sample_desk update_machine bare_launcher)"
  have "\<exists>n. NotifyIcon NimAdd n True \<in> set (t_calls (dk_tray ?d))"
    using sample_start_state(4) by (simp add: desktop_run_def sample_start_def)
  then show ?thesis using tray_structures_well_formed by blast
qed

section \<open>Disconnect and Reconnect\<close>

definition picks_of :: "desktop_event list \<Rightarrow> nat" where
  "picks_of evs = length (filter (\<lambda>e. case e of MenuPick w \<Rightarrow> uint (loword w) = 100 | _ \<Rightarrow> False) evs)"

definition toggles :: "action list \<Rightarrow> nat" where
  "toggles as = length (filter (\<lambda>a. a = ToggleConnection) as)"

definition toggles_run :: "desktop \<Rightarrow> nat set" where
  "toggles_run d = {k \<in> dk_ran d. t_started (dk_tray d) ! k = ToggleConnection}"

lemma toggles_simps [simp]:
  "toggles [] = 0" "toggles (a # as) = (if a = ToggleConnection then Suc (toggles as) else toggles as)"
  "toggles (as @ bs) = toggles as + toggles bs"
  by (simp_all add: toggles_def)

lemma toggles_pos: "0 < toggles as \<longleftrightarrow> ToggleConnection \<in> set as"
  by (induction as) auto

definition toggles_inv :: "nat \<Rightarrow> desktop \<Rightarrow> bool" where
  "toggles_inv picks d \<longleftrightarrow>
     toggles (t_started (dk_tray d)) \<le> picks \<and>
     (t_state (dk_tray d) \<noteq> None \<longrightarrow> toggles (t_started (dk_tray d)) = picks) \<and>
     click_of (dk_tray d) \<noteq> Some ToggleConnection \<and>
     distinct (map fst (dk_toggles d)) \<and> fst ` set (dk_toggles d) \<subseteq> toggles_run d \<and>
     (fst (dk_link d) \<or> c_paused (snd (dk_link d)) \<longrightarrow> 0 < toggles (t_started (dk_tray d)))"

lemma toggles_run_tray:
  assumes "links_inv n d" "t_started (dk_tray d') = t_started (dk_tray d) @ xs" "dk_ran d' = dk_ran d"
  shows "toggles_run d' = toggles_run d"
proof -
  have ran: "dk_ran d \<subseteq> {..<length (t_started (dk_tray d))}" using assms(1) by (simp add: links_inv_def)
  then show ?thesis using ran_prefix[OF _ ran] by (auto simp: toggles_run_def assms(2,3))
qed

lemma toggles_inv_tray:
  assumes "links_inv n d" "toggles_inv picks d"
    and "startable (dk_tray d') = (t_started (dk_tray d) @ xs, a, is)" "is = None \<longleftrightarrow> t_state (dk_tray d) = None"
    and "a \<noteq> Some ToggleConnection" "toggles xs \<le> extra" "is \<noteq> None \<longrightarrow> toggles xs = extra"
    and "dk_ran d' = dk_ran d" "dk_toggles d' = dk_toggles d" "dk_link d' = dk_link d"
  shows "toggles_inv (picks + extra) d' \<and> toggles_run d' = toggles_run d"
proof -
  have new: "t_started (dk_tray d') = t_started (dk_tray d) @ xs" "click_of (dk_tray d') = a"
      "t_state (dk_tray d') = None \<longleftrightarrow> t_state (dk_tray d) = None"
    using assms(3,4) by (auto simp: startable_def)
  have same: "toggles_run d' = toggles_run d" by (rule toggles_run_tray[OF assms(1) new(1) assms(8)])
  note d = assms(2)[unfolded toggles_inv_def]
  have "t_state (dk_tray d) \<noteq> None \<longrightarrow> toggles (t_started (dk_tray d)) + toggles xs = picks + extra"
    using d assms(4,7) by simp
  moreover have "toggles (t_started (dk_tray d)) + toggles xs \<le> picks + extra" using d assms(6) by linarith
  moreover have "fst (dk_link d) \<or> c_paused (snd (dk_link d)) \<longrightarrow> 0 < toggles (t_started (dk_tray d)) + toggles xs"
    using d by linarith
  moreover have "distinct (map fst (dk_toggles d)) \<and> fst ` set (dk_toggles d) \<subseteq> toggles_run d" using d by blast
  ultimately show ?thesis
    unfolding toggles_inv_def assms(8-10) new toggles_simps(3) same using assms(5) by blast
qed

lemma client_step_paused: "client_step cfg ev c = Some c' \<Longrightarrow> (\<And>b. ev \<noteq> SetPaused b) \<Longrightarrow> c_paused c' = c_paused c"
  using run_step_paused by (cases ev) (auto simp: client_step_def)

definition settled :: "desktop \<Rightarrow> bool" where
  "settled d \<longleftrightarrow> dk_toggles d = [] \<and>
     (\<forall>k < length (t_started (dk_tray d)). t_started (dk_tray d) ! k = ToggleConnection \<longrightarrow> k \<in> dk_ran d)"

text \<open>No toggle starts while another runs.\<close>

primrec serially :: "deskenv \<Rightarrow> desktop_event list \<Rightarrow> desktop \<Rightarrow> bool" where
  "serially env [] d = (length (dk_toggles d) \<le> 1)"
| "serially env (ev # evs) d = (length (dk_toggles d) \<le> 1 \<and> serially env evs (desktop_step env ev d))"

text \<open>The flag and the client with at most one toggle running, after an odd or even number of them.\<close>

definition in_step :: "desktop \<Rightarrow> bool" where
  "in_step d =
     (let n = odd (card (toggles_run d)); f = fst (dk_link d); p = c_paused (snd (dk_link d))
      in case dk_toggles d of
           [] \<Rightarrow> f = n \<and> p = n
         | [(k, FlagRead b)] \<Rightarrow> f = (\<not> n) \<and> p = (\<not> n) \<and> b = n
         | [(k, FlagStored b)] \<Rightarrow> f = n \<and> b = n
         | _ \<Rightarrow> False)"

lemma in_step_frame:
  "in_step d \<Longrightarrow> toggles_run d' = toggles_run d \<Longrightarrow> dk_toggles d' = dk_toggles d \<Longrightarrow>
     fst (dk_link d') = fst (dk_link d) \<Longrightarrow> c_paused (snd (dk_link d')) = c_paused (snd (dk_link d)) \<Longrightarrow> in_step d'"
  by (simp add: in_step_def)

definition picked :: "desktop_event \<Rightarrow> nat" where
  "picked ev = (case ev of MenuPick w \<Rightarrow> if uint (loword w) = 100 then 1 else 0 | _ \<Rightarrow> 0)"

definition toggles_same :: "nat \<Rightarrow> desktop \<Rightarrow> desktop \<Rightarrow> bool" where
  "toggles_same p d d' \<longleftrightarrow> toggles_inv p d' \<and> toggles_run d' = toggles_run d \<and> dk_toggles d' = dk_toggles d \<and>
     fst (dk_link d') = fst (dk_link d) \<and> c_paused (snd (dk_link d')) = c_paused (snd (dk_link d))"

lemma toggles_same_refl: "toggles_inv p d \<Longrightarrow> toggles_same p d d"
  by (simp add: toggles_same_def)

lemma toggles_same_tray:
  assumes "links_inv n d" "toggles_inv p d" "startable (dk_tray d') = (t_started (dk_tray d), a, is)"
    and "is = None \<longleftrightarrow> t_state (dk_tray d) = None" "a \<noteq> Some ToggleConnection"
    and "dk_ran d' = dk_ran d" "dk_toggles d' = dk_toggles d" "dk_link d' = dk_link d"
  shows "toggles_same p d d'"
  using toggles_inv_tray[of n d p d' "[]" a "is" 0] assms by (simp add: toggles_same_def)

lemma command_toggles:
  assumes "links_inv n d" "toggles_inv p d"
  shows "toggles_same p d (desktop_step env (CommandIn e) d)"
proof -
  have "serves e (dk_agent d) (dk_agent (desktop_step env (CommandIn e) d))" using dispatch_serves by simp
  then obtain a where a: "startable (dk_tray (desktop_step env (CommandIn e) d)) =
      (t_started (dk_tray d), a, map_option ts_items (t_state (dk_tray d)))"
      "a \<in> {click_of (dk_tray d), None} \<union> Some ` OpenLink ` notified e"
    by (auto simp: serves_def)
  show ?thesis
    by (rule toggles_same_tray[OF assms a(1)]) (use a(2) assms(2) in \<open>auto simp: toggles_inv_def\<close>)
qed

lemma run_action_toggles:
  assumes "links_inv n d" "toggles_inv p d" "k < length (t_started (dk_tray d))" "k \<notin> dk_ran d"
    and "t_started (dk_tray d) ! k \<noteq> ToggleConnection"
  shows "toggles_same p d (run_action env k (t_started (dk_tray d) ! k) (d\<lparr>dk_ran := insert k (dk_ran d)\<rparr>))"
proof -
  let ?d = "d\<lparr>dk_ran := insert k (dk_ran d)\<rparr>" and ?a = "t_started (dk_tray d) ! k"
  have same: "toggles_run ?d = toggles_run d" using assms(5) by (auto simp: toggles_run_def)
  have d: "links_inv n ?d" "toggles_inv p ?d"
    using links_inv_ran[OF assms(1,3,4)] assms(2) same by (simp_all add: toggles_inv_def)
  let ?e = "run_action env k ?a ?d"
  obtain a where a: "startable (dk_tray ?e) = (t_started (dk_tray ?d), a, map_option ts_items (t_state (dk_tray ?d)))"
      "a \<in> {click_of (dk_tray d), None}"
  proof (cases ?a)
    case OpenHiddenBrowser
    then show ?thesis
      using that[of "click_of (dk_tray ?e)"] show_warnings_tray[of "dk_tray d" "ds_tray env"]
      by (auto simp: open_browser_def Let_def startable_def)
  next
    case QuitTray
    then show ?thesis using that[of "click_of (dk_tray d)"] startable_quit[of "dk_tray d"] by (simp add: startable_def)
  next
    case (OpenLink u)
    then show ?thesis using that[of "click_of (dk_tray d)"] startable_open_url[of "ds_tray env" u "dk_tray d"] by (simp add: startable_def)
  qed (use assms(5) in simp)
  have t: "dk_toggles ?e = dk_toggles ?d" using assms(5) by (cases ?a) (simp_all add: open_browser_rest)
  have "toggles_same p ?d ?e"
    by (rule toggles_same_tray[OF d a(1)])
       (use a(2) assms(2) t in \<open>auto simp: toggles_inv_def run_action_rest\<close>)
  then show ?thesis by (simp add: toggles_same_def same)
qed

lemma run_prompt_toggles:
  assumes "links_inv n d" "toggles_inv p d"
  shows "toggles_same p d (run_prompt env k q d)"
proof -
  obtain title body u where q: "q = (title, body, u)" by (metis prod.exhaust)
  obtain b cb where b: "wizard_prompt (ds_dialog env) title body (dk_callbacks d) = (b, cb)" by force
  have "startable (dk_tray (run_prompt env k q d)) = startable (dk_tray d)"
    using answer_prompt_opens[of "ds_tray env" b u "dk_tray d"] by (simp add: run_prompt_def q b)
  then show ?thesis
    by (intro toggles_same_tray[OF assms]) (use assms(2) in \<open>auto simp: startable_def toggles_inv_def run_prompt_rest\<close>)
qed

lemma pick_toggles:
  assumes "links_inv n d" "toggles_inv p d"
  shows "toggles_inv (p + picked (MenuPick w)) (desktop_step env (MenuPick w) d) \<and>
    toggles_run (desktop_step env (MenuPick w) d) = toggles_run d"
proof (rule toggles_inv_tray[OF assms])
  let ?xs = "if t_state (dk_tray d) = None then [] else if uint (loword w) = 100 then [ToggleConnection]
      else if uint (loword w) = 102 then [OpenHiddenBrowser] else if uint (loword w) = 101 then [QuitTray] else []"
  show "startable (dk_tray (desktop_step env (MenuPick w) d)) =
      (t_started (dk_tray d) @ ?xs, click_of (dk_tray d), map_option ts_items (t_state (dk_tray d)))"
    using startable_menu_pick[of "ds_tray env" w "dk_tray d"] menu_pick_starts[OF links_inv_menus[OF assms(1)]] by simp
qed (use assms(2) in \<open>simp_all add: toggles_inv_def picked_def\<close>)

lemma poll_toggles:
  assumes "links_inv n d" "toggles_inv p d"
  shows "toggles_same p d (desktop_step env (PollTick sb) d)"
proof -
  have "startable (dk_tray (desktop_step env (PollTick sb) d)) =
      (t_started (dk_tray d), click_of (dk_tray d), map_option (\<lambda>_. tray_menu (fst (dk_link d))) (t_state (dk_tray d)))"
    using startable_tray_tick[of "ds_tray env" _ _ _ sb _ _ "dk_tray d"] by (simp add: split: prod.splits) (metis snd_conv)
  then show ?thesis
    by (intro toggles_same_tray[OF assms]) (use assms(2) in \<open>auto simp: toggles_inv_def split: prod.splits\<close>)
qed

lemma click_toggles:
  assumes "links_inv n d" "toggles_inv p d"
  shows "toggles_inv p (desktop_step env BalloonClick d) \<and> toggles_run (desktop_step env BalloonClick d) = toggles_run d"
proof -
  have "startable (dk_tray (desktop_step env BalloonClick d)) =
      (t_started (dk_tray d) @ to_list (click_of (dk_tray d)), None, map_option ts_items (t_state (dk_tray d)))"
    using startable_clicked[of "ds_tray env" "dk_tray d"] by (simp add: to_list_def)
  moreover have "toggles (to_list (click_of (dk_tray d))) = 0"
    using assms(2) by (cases "click_of (dk_tray d)") (auto simp: toggles_inv_def)
  ultimately show ?thesis using toggles_inv_tray[OF assms, where extra = 0] by simp
qed

lemma toggle_begins:
  assumes "links_inv n d" "toggles_inv p d" "k < length (t_started (dk_tray d))" "k \<notin> dk_ran d"
    and "t_started (dk_tray d) ! k = ToggleConnection" "d' = desktop_step env (RunCallback k) d"
  shows "toggles_inv p d' \<and> (in_step d \<and> length (dk_toggles d') \<le> 1 \<longrightarrow> in_step d')"
proof -
  have d': "d' = d\<lparr>dk_ran := insert k (dk_ran d), dk_toggles := dk_toggles d @ [(k, FlagRead (\<not> fst (dk_link d)))]\<rparr>"
    using assms(3-6) by simp
  have run: "toggles_run d' = insert k (toggles_run d)" using assms(5) by (auto simp: d' toggles_run_def)
  have "finite (toggles_run d)" "k \<notin> toggles_run d"
    using assms(1,4) by (auto simp: links_inv_def toggles_run_def intro: finite_subset)
  then have card: "card (toggles_run d') = Suc (card (toggles_run d))" by (simp add: run)
  have "k \<notin> fst ` set (dk_toggles d)" using \<open>k \<notin> toggles_run d\<close> assms(2) by (auto simp: toggles_inv_def)
  then have "toggles_inv p d'" using assms(2) run by (auto simp: toggles_inv_def d')
  moreover have "in_step d'" if "in_step d" "length (dk_toggles d') \<le> 1"
    using that card by (auto simp: in_step_def d' Let_def)
  ultimately show ?thesis by blast
qed

lemma toggle_goes_on:
  assumes "links_inv n d" "toggles_inv p d" "map_of (dk_toggles d) k = Some q"
  shows "toggles_inv p (toggle_on k q d) \<and>
    (in_step d \<and> length (dk_toggles d) \<le> 1 \<longrightarrow> in_step (toggle_on k q d))"
proof -
  let ?d = "toggle_on k q d"
  have run: "toggles_run ?d = toggles_run d" by (simp add: toggles_run_def toggle_on_rest)
  have mem: "(k, q) \<in> set (dk_toggles d)" using assms(3) by (rule map_of_SomeD)
  then have k: "k \<in> toggles_run d" using assms(2) by (force simp: toggles_inv_def)
  then have "0 < toggles (t_started (dk_tray d))"
    using assms(1) unfolding toggles_pos by (auto simp: toggles_run_def links_inv_def) (metis lessThan_iff nth_mem subsetD)
  moreover have "distinct (map fst (dk_toggles ?d)) \<and> fst ` set (dk_toggles ?d) \<subseteq> toggles_run d"
  proof (cases q)
    case (FlagRead b)
    then show ?thesis using assms(2) k by (auto simp: toggles_inv_def AList.distinct_update AList.dom_update)
  next
    case (FlagStored b)
    then show ?thesis
      using assms(2) AList.dom_delete_subset[of k "dk_toggles d"] by (auto simp: toggles_inv_def AList.distinct_delete)
  qed
  ultimately have "toggles_inv p ?d" using assms(2) run by (simp add: toggles_inv_def toggle_on_rest)
  moreover have "in_step ?d" if "in_step d" "length (dk_toggles d) \<le> 1"
  proof -
    have "dk_toggles d = [(k, q)]" using mem that(2) by (cases "dk_toggles d") auto
    then show ?thesis using that(1) run by (cases q) (auto simp: in_step_def Let_def set_paused_def)
  qed
  ultimately show ?thesis by blast
qed

lemma toggles_step:
  assumes "links_inv n d" "toggles_inv p d" "d' = desktop_step env ev d"
  shows "toggles_inv (p + picked ev) d' \<and>
    (in_step d \<and> length (dk_toggles d) \<le> 1 \<and> length (dk_toggles d') \<le> 1 \<longrightarrow> in_step d')"
proof -
  have same: ?thesis if "toggles_same p d d'" "picked ev = 0"
    using that in_step_frame[of d d'] by (auto simp: toggles_same_def)
  have frame: "in_step d \<longrightarrow> in_step d'" if "toggles_run d' = toggles_run d" "dk_toggles d' = dk_toggles d" "dk_link d' = dk_link d"
    using that in_step_frame[of d d'] by simp
  show ?thesis
  proof (cases ev)
    case (CommandIn e)
    then show ?thesis using same command_toggles[OF assms(1,2)] assms(3) by (simp add: picked_def)
  next
    case BalloonClick
    then show ?thesis using frame click_toggles[OF assms(1,2), of env] assms(3) by (simp add: picked_def)
  next
    case (BalloonGone hidden)
    have "toggles_same p d d'"
      by (rule toggles_same_tray[OF assms(1,2)])
         (use startable_gone[of "ds_tray env" hidden "dk_tray d"] BalloonGone assms(3) in \<open>auto simp: startable_def\<close>)
    then show ?thesis using same BalloonGone by (simp add: picked_def)
  next
    case MenuShown
    have "toggles_same p d d'"
      by (rule toggles_same_tray[OF assms(1,2)])
         (use startable_menu_shown[of "ds_tray env" "dk_tray d"] MenuShown assms(2,3) in
          \<open>auto simp: startable_def toggles_inv_def\<close>)
    then show ?thesis using same MenuShown by (simp add: picked_def)
  next
    case (MenuPick w)
    then show ?thesis using frame pick_toggles[OF assms(1,2), of w env] assms(3) by simp
  next
    case (PollTick sb)
    then show ?thesis using same poll_toggles[OF assms(1,2), of env sb] assms(3) by (simp add: picked_def)
  next
    case (RunCallback k)
    show ?thesis
    proof (cases "k < length (t_started (dk_tray d)) \<and> k \<notin> dk_ran d")
      case True
      then show ?thesis
        using same run_action_toggles[OF assms(1,2), of k env] toggle_begins[OF assms(1,2), of k d' env] assms(3) RunCallback
        by (cases "t_started (dk_tray d) ! k = ToggleConnection") (simp_all add: picked_def)
    next
      case False
      then have "d' = d" using assms(3) RunCallback by auto
      then show ?thesis using assms(2) RunCallback by (simp add: picked_def)
    qed
  next
    case (ToggleStep k)
    then show ?thesis
      using toggle_goes_on[OF assms(1,2), of k] assms(2,3) by (auto simp: picked_def split: option.splits)
  next
    case (RunPrompt k)
    have "toggles_same p d d'"
      using run_prompt_toggles[OF assms(1,2)] toggles_same_refl[OF assms(2)] RunPrompt assms(3) by simp
    then show ?thesis using same RunPrompt by (simp add: picked_def)
  next
    case (LinkStep e)
    have "toggles_same p d d'"
      using assms(2,3) LinkStep client_step_paused[of "ds_config env" e "snd (dk_link d)"]
      by (auto simp: toggles_same_def toggles_inv_def toggles_run_def split: client_event.splits option.splits)
    then show ?thesis using same LinkStep by (simp add: picked_def)
  qed
qed

lemma toggles_run_all:
  assumes "links_inv n d" "settled d"
  shows "card (toggles_run d) = toggles (t_started (dk_tray d))"
proof -
  have "toggles_run d = {k. k < length (t_started (dk_tray d)) \<and> t_started (dk_tray d) ! k = ToggleConnection}"
    using assms by (auto simp: toggles_run_def settled_def links_inv_def)
  then show ?thesis by (simp add: toggles_def length_filter_conv_card)
qed

lemma picks_of_Cons: "picks_of (ev # evs) = picked ev + picks_of evs"
  by (cases ev) (simp_all add: picks_of_def picked_def)

lemma toggles_exec:
  "links_inv n d \<Longrightarrow> toggles_inv p d \<Longrightarrow> d' = desktop_run env evs d \<Longrightarrow>
     toggles_inv (p + picks_of evs) d' \<and> (in_step d \<and> serially env evs d \<longrightarrow> in_step d')"
proof (induction evs arbitrary: n d p)
  case Nil
  then show ?case by (simp add: desktop_run_def picks_of_def)
next
  case (Cons ev evs)
  let ?e = "desktop_step env ev d"
  have "links_inv (n + (if ev = BalloonClick then 1 else 0)) ?e" using Cons.prems(1) by (rule links_inv_step)
  moreover note step = toggles_step[OF Cons.prems(1,2) refl, where env = env and ev = ev]
  moreover have "d' = desktop_run env evs ?e" using Cons.prems(3) by (simp add: desktop_run_def)
  ultimately have "toggles_inv (p + picked ev + picks_of evs) d' \<and> (in_step ?e \<and> serially env evs ?e \<longrightarrow> in_step d')"
    using Cons.IH by blast
  moreover have "length (dk_toggles ?e) \<le> 1" if "serially env evs ?e" using that by (cases evs) auto
  ultimately show ?case using step by (auto simp: picks_of_Cons add.assoc)
qed

lemma toggles_inv_start: "toggles_inv 0 (desktop_start env m l) \<and> in_step (desktop_start env m l)"
proof -
  let ?t = "new_tray (fst (ds_icons env)) :: action tray" and ?d = "desktop_start env m l"
  have "t_started (dk_tray ?d) = []" "click_of (dk_tray ?d) = None"
    using startable_run_setup(1)[of ?t "ds_tray env" "tray_menu False"]
    unfolding startable_def by (simp_all add: desktop_start_def new_tray_def)
  then show ?thesis
    by (simp add: toggles_inv_def in_step_def toggles_run_def desktop_start_def run_start_def)
qed

text \<open>
  C27. Only the mentor disconnects: in every run of the desktop, whatever the server, the connection
  and the poller do, the flag of the menu and the client's pause are set only after the item
  \<open>Disconnect\<close>/\<open>Reconnect\<close> was picked; and when no toggle started while another ran, then with all
  of them finished both say paused exactly after an odd number of picks.
\<close>

theorem menu_alone_pauses:
  assumes "desktop_run env evs (desktop_start env m l) = d"
  shows "(fst (dk_link d) \<or> c_paused (snd (dk_link d)) \<longrightarrow> 0 < picks_of evs) \<and>
    (serially env evs (desktop_start env m l) \<and> settled d \<and> t_state (dk_tray d) \<noteq> None \<longrightarrow>
       fst (dk_link d) = odd (picks_of evs) \<and> c_paused (snd (dk_link d)) = odd (picks_of evs))"
proof -
  let ?d = "desktop_start env m l"
  have inv: "toggles_inv (picks_of evs) d" "serially env evs ?d \<longrightarrow> in_step d"
    using toggles_exec[OF links_inv_start[of env m l], of 0 d env evs] toggles_inv_start[of env m l] assms by auto
  have all: "settled d \<longrightarrow> card (toggles_run d) = toggles (t_started (dk_tray d))"
    using toggles_run_all links_inv_run[of evs env m l] assms by blast
  have "fst (dk_link d) \<or> c_paused (snd (dk_link d)) \<longrightarrow> 0 < picks_of evs"
    using inv(1) unfolding toggles_inv_def by linarith
  moreover have "fst (dk_link d) = odd (picks_of evs) \<and> c_paused (snd (dk_link d)) = odd (picks_of evs)"
    if "serially env evs ?d" "settled d" "t_state (dk_tray d) \<noteq> None"
    using inv all that by (simp add: toggles_inv_def in_step_def settled_def Let_def)
  ultimately show ?thesis by blast
qed

lemma sample_picks:
  "map_option ts_items (t_state (dk_tray d)) = Some (tray_menu b) \<Longrightarrow>
     startable (dk_tray (desktop_step env (MenuPick 100) d)) =
       (t_started (dk_tray d) @ [ToggleConnection], click_of (dk_tray d), Some (tray_menu b))"
  using startable_menu_pick[of "ds_tray env" 100 "dk_tray d"]
  by (auto simp: tray_menu_action loword_def split: option.splits)

lemma sample_pick:
  assumes "map_option ts_items (t_state (dk_tray d)) = Some (tray_menu b)"
  shows "t_started (dk_tray (desktop_step env (MenuPick 100) d)) = t_started (dk_tray d) @ [ToggleConnection]"
    "map_option ts_items (t_state (dk_tray (desktop_step env (MenuPick 100) d))) = Some (tray_menu b)"
  using sample_picks[OF assms, of env] by (simp_all only: startable_def prod.inject)

lemma toggle_once:
  assumes "t_started (dk_tray d) = [ToggleConnection]" "dk_ran d = {}" "dk_toggles d = []"
    and "evs = [RunCallback 0, ToggleStep 0, ToggleStep 0]"
  shows "settled (desktop_run env evs d) \<and> serially env evs d \<and> dk_tray (desktop_run env evs d) = dk_tray d"
  using assms by (simp add: desktop_run_def settled_def)

theorem menu_alone_pauses_witness:
  "\<exists>d. desktop_run sample_desk [MenuPick 100, RunCallback 0, ToggleStep 0, ToggleStep 0]
       (desktop_start sample_desk update_machine bare_launcher) = d \<and> fst (dk_link d) \<and> c_paused (snd (dk_link d))"
proof -
  let ?evs = "[RunCallback 0, ToggleStep 0, ToggleStep 0]"
  let ?d1 = "desktop_step sample_desk (MenuPick 100) sample_start"
  let ?d = "desktop_run sample_desk ?evs ?d1"
  have run: "desktop_run sample_desk (MenuPick 100 # ?evs) sample_start = ?d"
    by (simp add: desktop_run_def del: desktop_step.simps)
  have "dk_ran sample_start = {}" and start: "dk_toggles sample_start = []"
    by (simp_all add: sample_start_def desktop_start_def)
  then have d1: "t_started (dk_tray ?d1) = [ToggleConnection]" "dk_ran ?d1 = {}" "dk_toggles ?d1 = []"
      "t_state (dk_tray ?d1) \<noteq> None"
    using sample_pick[OF sample_start_state(3), of sample_desk] sample_start_state(2) by auto
  have "settled ?d" "serially sample_desk ?evs ?d1" "t_state (dk_tray ?d) \<noteq> None"
    using toggle_once[OF d1(1-3) refl, of sample_desk] d1(4) by simp_all
  moreover from this have "serially sample_desk (MenuPick 100 # ?evs) sample_start" using start by simp
  moreover have "odd (picks_of (MenuPick 100 # ?evs))" by (simp add: picks_of_def loword_def)
  ultimately show ?thesis
    using menu_alone_pauses[OF run[unfolded sample_start_def]] run unfolding sample_start_def by blast
qed

text \<open>
  Two toggles that cross leave the menu offering \<open>Disconnect\<close> on a client that is paused: the second
  reads the flag the first stored and tells the client before it.
\<close>

lemma toggles_cross:
  assumes "t_started (dk_tray d) = [ToggleConnection, ToggleConnection]" "dk_ran d = {}" "dk_toggles d = []" "dk_link d = (False, c)"
    and "d' = desktop_run env [RunCallback 0, ToggleStep 0, RunCallback 1, ToggleStep 1, ToggleStep 1, ToggleStep 0] d"
  shows "settled d' \<and> \<not> fst (dk_link d') \<and> c_paused (snd (dk_link d'))"
  using assms by (auto simp: desktop_run_def settled_def set_paused_def less_Suc_eq numeral_2_eq_2)

lemma toggles_cross_reached:
  "\<exists>evs d. desktop_run sample_desk evs sample_start = d \<and> settled d \<and> \<not> fst (dk_link d) \<and> c_paused (snd (dk_link d))"
proof -
  let ?d = "desktop_step sample_desk (MenuPick 100) (desktop_step sample_desk (MenuPick 100) sample_start)"
  note one = sample_pick[OF sample_start_state(3), of sample_desk]
  note two = sample_pick(1)[OF one(2), of sample_desk]
  have "t_started (dk_tray ?d) = [ToggleConnection, ToggleConnection]" using one(1) two sample_start_state(2) by simp
  moreover have "dk_ran ?d = {}" "dk_toggles ?d = []" "dk_link ?d = (False, run_start)"
    by (simp_all add: sample_start_def desktop_start_def)
  moreover have "desktop_run sample_desk ([MenuPick 100, MenuPick 100] @ evs) sample_start = desktop_run sample_desk evs ?d" for evs
    by (simp add: desktop_run_def del: desktop_step.simps)
  ultimately show ?thesis using toggles_cross by metis
qed

text \<open>Run without interruption, the three steps are the callback as one operation.\<close>

lemma toggle_uninterrupted:
  assumes "k < length (t_started (dk_tray d))" "k \<notin> dk_ran d" "t_started (dk_tray d) ! k = ToggleConnection"
    and "k \<notin> fst ` set (dk_toggles d)" "d' = desktop_run env [RunCallback k, ToggleStep k, ToggleStep k] d"
  shows "dk_link d' = toggle_connection (dk_link d) \<and> dk_toggles d' = dk_toggles d"
proof -
  have tail: "map_of (ts @ [(k, q)]) k = Some q \<and> AList.update k r (ts @ [(k, q)]) = ts @ [(k, r)] \<and>
      AList.delete k (ts @ [(k, q)]) = ts" if "k \<notin> fst ` set ts" for ts :: "(nat \<times> toggle_pc) list" and q r
    using that by (induction ts) auto
  show ?thesis
    using assms tail[OF assms(4)] by (simp add: desktop_run_def toggle_connection_def Let_def)
qed

end
