(* ===== verification/Flights.thy ===== *)
theory Flights
  imports Handlers
begin

text \<open>
  Self-updates in flight. Every update command runs \<open>update.Manager.Update\<close> in a goroutine of its
  own, beside the goroutines that start and stop sessions, update the engine and ask for the status.
  \<open>update_next\<close> is the next statement of one call; a call holds no lock between two of them, only the
  flag of its single-flight guard. The operations of the \<open>solarbeam\<close> manager hold its mutex, so each of
  them is one step. \<open>flight_step\<close> interleaves any number of calls with any of these.
\<close>

section \<open>One call, statement by statement\<close>

datatype update_pc =
    AtBegin
  | AtValidate
  | AtSession
  | AtDownload
  | AtStaged path
  | AtRecheck path
  | AtApply path
  | AtEnd "goerr option"
  | Returned "goerr option"

text \<open>\<open>AtEnd\<close> is the deferred \<open>End\<close>, with the value about to be returned. \<open>AtApply\<close> comes only after the
  test that \<open>ApplyFn\<close> is set.\<close>

fun update_next ::
  "hostenv \<Rightarrow> update_config \<Rightarrow> 'a world_scheme apply_fn option \<Rightarrow> ('a world_scheme \<Rightarrow> bool) option \<Rightarrow>
   update_args \<Rightarrow> update_pc \<times> bool \<times> 'a world_scheme \<Rightarrow> update_pc \<times> bool \<times> 'a world_scheme" where
  "update_next env cfg apply_fn session a (AtBegin, fl, w) =
     (case try_begin fl of
        (False, fl1) \<Rightarrow> (Returned (Some update_busy), fl1, w)
      | (True, fl1) \<Rightarrow> (AtValidate, fl1, w))"
| "update_next env cfg apply_fn session a (AtValidate, fl, w) =
     (case update_validate cfg a of
        Some e \<Rightarrow> (AtEnd (Some e), fl, w)
      | None \<Rightarrow> (AtSession, fl, w))"
| "update_next env cfg apply_fn session a (AtSession, fl, w) =
     (if session_says session w then (AtEnd (Some session_error), fl, w) else (AtDownload, fl, w))"
| "update_next env cfg apply_fn session a (AtDownload, fl, w) =
     (case download_verified env (update_download cfg a) w of
        (Inl e, w1) \<Rightarrow> (AtEnd (Some e), fl, w1)
      | (Inr p, w1) \<Rightarrow> (AtStaged p, fl, w1))"
| "update_next env cfg apply_fn session a (AtStaged p, fl, w) =
     (case apply_fn of
        None \<Rightarrow> (AtEnd (Some (Msg ''update: no ApplyFn configured'')), fl, snd (os_remove env p w))
      | Some f \<Rightarrow> (AtRecheck p, fl, w))"
| "update_next env cfg apply_fn session a (AtRecheck p, fl, w) =
     (if session_says session w then (AtEnd (Some session_error), fl, snd (os_remove env p w))
      else (AtApply p, fl, w))"
| "update_next env cfg apply_fn session a (AtApply p, fl, w) =
     (case apply_fn of
        None \<Rightarrow> (AtApply p, fl, w)
      | Some f \<Rightarrow>
          (case f p (ua_version a) (ua_signer_fingerprint a) w of
             (Some e, w1) \<Rightarrow> (AtEnd (Some (wrapf ''apply: '' e)), fl, snd (os_remove env p w1))
           | (None, w1) \<Rightarrow> (AtEnd None, fl, w1)))"
| "update_next env cfg apply_fn session a (AtEnd r, fl, w) = (Returned r, end_flight fl, w)"
| "update_next env cfg apply_fn session a (Returned r, fl, w) = (Returned r, fl, w)"

text \<open>In the body: between a successful \<open>TryBegin\<close> and the end of the deferred \<open>End\<close>.\<close>

fun in_body :: "update_pc \<Rightarrow> bool" where
  "in_body AtBegin = False"
| "in_body (Returned r) = False"
| "in_body pc = True"

text \<open>The file a call has staged and verified, until it applies or removes it.\<close>

fun staged_file :: "update_pc \<Rightarrow> path option" where
  "staged_file (AtStaged p) = Some p"
| "staged_file (AtRecheck p) = Some p"
| "staged_file (AtApply p) = Some p"
| "staged_file pc = None"

lemma staged_in_body: "staged_file pc = Some p \<Longrightarrow> in_body pc"
  by (cases pc) simp_all

lemma update_next_flag:
  "update_next env cfg f session a (pc, fl, w) = (pc1, fl1, w1) \<Longrightarrow> fl \<longleftrightarrow> in_body pc \<or> b \<Longrightarrow>
     \<not> (in_body pc \<and> b) \<Longrightarrow> (fl1 \<longleftrightarrow> in_body pc1 \<or> b) \<and> \<not> (in_body pc1 \<and> b)"
  by (cases pc) (auto simp: try_begin_def end_flight_def split: option.splits if_splits sum.splits prod.splits)

text \<open>Eight statements at most: a call that is left alone has returned after them.\<close>

definition pc_rank :: "update_pc \<Rightarrow> nat" where
  "pc_rank pc = (case pc of AtBegin \<Rightarrow> 8 | AtValidate \<Rightarrow> 7 | AtSession \<Rightarrow> 6 | AtDownload \<Rightarrow> 5 | AtStaged p \<Rightarrow> 4
     | AtRecheck p \<Rightarrow> 3 | AtApply p \<Rightarrow> 2 | AtEnd r \<Rightarrow> 1 | Returned r \<Rightarrow> 0)"

lemma update_next_rank:
  "update_next env cfg f session a (pc, fl, w) = (pc1, fl1, w1) \<Longrightarrow> f \<noteq> None \<Longrightarrow>
     pc_rank pc1 \<le> pc_rank pc - 1"
  by (cases pc) (auto simp: pc_rank_def split: option.splits if_splits sum.splits prod.splits bool.splits)

primrec update_runs ::
  "nat \<Rightarrow> hostenv \<Rightarrow> update_config \<Rightarrow> 'a world_scheme apply_fn option \<Rightarrow> ('a world_scheme \<Rightarrow> bool) option \<Rightarrow>
   update_args \<Rightarrow> update_pc \<times> bool \<times> 'a world_scheme \<Rightarrow> update_pc \<times> bool \<times> 'a world_scheme" where
  "update_runs 0 env cfg f session a s = s"
| "update_runs (Suc n) env cfg f session a s = update_runs n env cfg f session a (update_next env cfg f session a s)"

lemma update_runs_returned [simp]:
  "update_runs n env cfg f session a (Returned r, fl, w) = (Returned r, fl, w)"
  by (induction n) simp_all

lemma body_alone:
  "update_runs 7 env cfg f session a (AtValidate, fl, w) =
     (case update_body env cfg f session a w of (r, w1) \<Rightarrow> (Returned r, end_flight fl, w1))"
  by (auto simp: update_body_def apply_staged_def eval_nat_numeral split: option.splits prod.splits sum.splits)

lemma alone_runs:
  "update_runs 8 env cfg f session a (AtBegin, fl, w) =
     (case manager_update env cfg f session a (fl, w) of (r, fl1, w1) \<Rightarrow> (Returned r, fl1, w1))"
proof -
  have eight: "update_runs 8 env cfg f session a s = update_runs 7 env cfg f session a (update_next env cfg f session a s)" for s
    using update_runs.simps(2)[of 7] by simp
  show ?thesis
    using body_alone[of env cfg f session a True w]
    by (cases fl) (simp_all add: eight manager_update_def try_begin_def eval_nat_numeral split: prod.splits)
qed


text \<open>So the handler of the command, in one piece, is such a call with the result it emits.\<close>

lemma self_update_is_call:
  assumes "decode_handler_args decode_update_args CmdUpdate e = Inr a"
    and "update_runs 8 (host (cx_env c)) (cx_update c)
      (Some (apply_light_update (host (cx_env c)) (cx_trust c) (cx_exe c))) (Some (session_active c)) a
      (AtBegin, ag_updating s, ag_machine s) = (pc, fl, m)"
  shows "\<exists>r. pc = Returned r \<and> run_self_update c e s = finish c e (r, s\<lparr>ag_updating := fl, ag_machine := m\<rparr>)"
  using assms by (auto simp: alone_runs run_self_update_def split: prod.splits)

section \<open>What the neighbours leave alone\<close>

text \<open>The files a session writes: the logs of its children and the environment file of the service.\<close>

definition session_files :: "sbenv \<Rightarrow> path set" where
  "session_files env =
     (\<Union>d\<in>{child_log_dir, child_log_dir_interactive env}. {d, path_join d ''bridge.log'', path_join d ''engine.log''}) \<union>
     {bridge_env_dir, bridge_env_file}"

named_theorems quiet_fs

lemma sys_call_fs [quiet_fs]: "w_fs (snd (sys_call env m)) = w_fs m"
  by (simp add: sys_call_def)

lemma terminate_fs [quiet_fs]: "w_fs (terminate_by_name env n m) = w_fs m"
  using sys_call_fs[of env m] by (auto simp: terminate_by_name_def split: prod.splits option.splits)

lemma start_cmd_fs [quiet_fs]: "w_fs (snd (start_cmd env x d vs m)) = w_fs m"
  using sys_call_fs[of env m] by (auto simp: start_cmd_def split: prod.splits option.splits)

lemma kill_engine_fs [quiet_fs]: "w_fs (kill_engine_proc env m) = w_fs m"
  by (auto simp: kill_engine_proc_def kill_pid_def sys_call_def split: prod.splits option.splits)

lemma child_log_fs:
  "q \<noteq> d \<Longrightarrow> q \<noteq> path_join d n \<Longrightarrow> w_fs (open_child_log env d n m) q = w_fs m q"
  by (auto simp: open_child_log_def sys_call_def split: prod.splits option.splits dest: os_mkdir_all_frame)

lemma stat_fs [quiet_fs]: "w_fs (snd (os_stat env p m)) = w_fs m"
  by (auto simp: os_stat_def split: option.splits)

lemma binary_exists_fs [quiet_fs]: "w_fs (snd (engine_binary_exists env p m)) = w_fs m"
  using stat_fs[of "host env" p m] by (auto simp: engine_binary_exists_def split: prod.splits option.splits)

lemma query_fs [quiet_fs]: "w_fs (snd (query_service env m)) = w_fs m"
  by (simp add: query_service_def)

lemma wait_state_fs [quiet_fs]: "w_fs (snd (wait_for_service_state env want t e m)) = w_fs m"
  using wait_for_service_state_result[of env want t e m] by (metis prod.collapse)

lemma open_service_fs [quiet_fs]: "w_fs (snd (open_service env m)) = w_fs m"
  by (auto simp: open_service_def sys_call_def split: prod.splits option.splits)

lemma ensure_service_fs [quiet_fs]: "w_fs (snd (ensure_engine_service env p m)) = w_fs m"
  by (auto simp: ensure_engine_service_def open_service_def sys_call_def os_stat_def split: prod.splits option.splits)

lemma stop_if_running_fs [quiet_fs]: "w_fs (snd (stop_service_if_running env m)) = w_fs m"
  using wait_state_fs[of env Stopped 15000 0]
  by (auto simp: stop_service_if_running_def query_service_def sys_call_def split: prod.splits option.splits sum.splits)
    (metis snd_conv tick_def world_simps(1,4))+

lemma restart_fs [quiet_fs]: "w_fs (snd (restart_engine_service env m)) = w_fs m"
proof -
  have st: "w_fs m3 = w_fs m2" if "stop_service_if_running env m2 = (r, m3)" for m2 r m3
    using stop_if_running_fs[of env m2] that by simp
  have op: "w_fs m3 = w_fs m2" if "open_service env m2 = (r, m3)" for m2 r m3
    using open_service_fs[of env m2] that by simp
  have wt: "w_fs m3 = w_fs m2" if "wait_for_service_state env Running 15000 0 m2 = (r, m3)" for m2 r m3
    using wait_state_fs[of env Running 15000 0 m2] that by simp
  show ?thesis
    by (auto simp: restart_engine_service_def sys_call_def split: prod.splits option.splits dest!: st op wt)
qed

lemma quiet_fs_eq:
  "start_cmd env x d vs m = (k, m') \<Longrightarrow> w_fs m' = w_fs m"
  "wait_for_listener env t e m = (r, m') \<Longrightarrow> w_fs m' = w_fs m"
  "engine_binary_exists env p m = (r, m') \<Longrightarrow> w_fs m' = w_fs m"
  "ensure_engine_service env p m = (r, m') \<Longrightarrow> w_fs m' = w_fs m"
  "restart_engine_service env m = (r, m') \<Longrightarrow> w_fs m' = w_fs m"
  "stop_service_if_running env m = (r, m') \<Longrightarrow> w_fs m' = w_fs m"
  "open_service env m = (r, m') \<Longrightarrow> w_fs m' = w_fs m"
  "sys_call env m = (r, m') \<Longrightarrow> w_fs m' = w_fs m"
  "query_service env m = (st, m') \<Longrightarrow> w_fs m' = w_fs m"
  using start_cmd_fs[of env x d vs m] wait_for_listener_fs[of env t e m] binary_exists_fs[of env p m]
    ensure_service_fs[of env p m] restart_fs[of env m] stop_if_running_fs[of env m] open_service_fs[of env m]
    sys_call_fs[of env m] query_fs[of env m]
  by simp_all

lemma session_files_simps:
  assumes "q \<notin> session_files env"
  shows "q \<noteq> child_log_dir" "q \<noteq> child_log_dir_interactive env"
    "q \<noteq> path_join child_log_dir ''bridge.log''" "q \<noteq> path_join (child_log_dir_interactive env) ''bridge.log''"
    "q \<noteq> path_join (child_log_dir_interactive env) ''engine.log''" "q \<noteq> bridge_env_dir" "q \<noteq> bridge_env_file"
  using assms by (auto simp: session_files_def)

lemma launch_bridge_fs:
  assumes "q \<notin> session_files env" "launch_bridge env ps a m = (r, m')"
  shows "w_fs m' q = w_fs m q"
proof (cases "sp_bridge ps = []")
  case False
  let ?dir = "if sp_mode ps = ModeInteractive then child_log_dir_interactive env else child_log_dir"
  let ?m2 = "open_child_log env ?dir ''bridge.log'' (terminate_by_name env (path_base (sp_bridge ps)) m)"
  have fs2: "w_fs ?m2 q = w_fs m q"
    using session_files_simps[OF assms(1)] by (subst child_log_fs) (auto simp: quiet_fs)
  obtain k m3 where k: "start_cmd env (sp_bridge ps) [] (bridge_vars a) ?m2 = (k, m3)" by force
  obtain r4 m4 where w: "wait_for_listener env 30000 0 m3 = (r4, m4)" by force
  have "w_fs m' = w_fs ?m2"
    using assms(2) False k w quiet_fs_eq(1)[OF k] quiet_fs_eq(2)[OF w]
    by (auto simp: launch_bridge_def Let_def split: sum.splits option.splits)
  with fs2 show ?thesis by simp
qed (use assms(2) in \<open>simp add: launch_bridge_def\<close>)

lemma start_engine_interactive_fs:
  assumes "q \<notin> session_files env" "start_engine_interactive env ps a m = (r, m')"
  shows "w_fs m' q = w_fs m q"
proof -
  let ?m2 = "open_child_log env (child_log_dir_interactive env) ''engine.log'' (kill_engine_proc env m)"
  have "w_fs ?m2 q = w_fs m q"
    using session_files_simps[OF assms(1)] by (subst child_log_fs) (auto simp: quiet_fs)
  moreover have "w_fs m' = w_fs ?m2"
    using assms(2) by (auto simp: start_engine_interactive_def Let_def split: prod.splits sum.splits dest!: quiet_fs_eq(1))
  ultimately show ?thesis by simp
qed

lemma write_bridge_env_fs:
  assumes "q \<notin> session_files env" "write_bridge_env env a m = (r, m')"
  shows "w_fs m' q = w_fs m q"
  using assms(2) session_files_simps(6,7)[OF assms(1)]
  by (auto simp: write_bridge_env_def split: prod.splits option.splits
      dest!: os_mkdir_all_frame os_write_file_frame)

lemma start_engine_fs:
  assumes "q \<notin> session_files env" "start_engine env ps a m = (r, m')"
  shows "w_fs m' q = w_fs m q"
  using assms(2) write_bridge_env_fs[OF assms(1)]
  by (auto simp: start_engine_def split: prod.splits option.splits dest!: quiet_fs_eq(5))

lemma manager_start_fs:
  assumes "q \<notin> session_files env" "manager_start env ps a m = (r, m')"
  shows "w_fs m' q = w_fs m q"
proof -
  obtain r1 m1 where p: "prepare_fn env ps m = (r1, m1)" by force
  have fs1: "w_fs m1 = w_fs m"
    using p by (auto simp: prepare_fn_def prepare_engine_interactive_def prepare_engine_def
        split: if_splits prod.splits option.splits dest!: quiet_fs_eq(3,4))
  obtain r2 m2 where l: "launch_bridge env ps a m1 = (r2, m2)" by force
  obtain r3 m3 where g: "engine_fn env ps a m2 = (r3, m3)" by force
  have fs3: "w_fs m3 q = w_fs m2 q"
    using g start_engine_interactive_fs[OF assms(1)] start_engine_fs[OF assms(1)]
    by (auto simp: engine_fn_def split: if_splits)
  show ?thesis
    using assms(2) p l g fs1 launch_bridge_fs[OF assms(1) l] fs3
    by (auto simp: manager_start_def split: option.splits)
qed

lemma manager_stop_fs:
  assumes "q \<notin> session_files env" "manager_stop env ps a m = (r, m')"
  shows "w_fs m' q = w_fs m q"
proof -
  obtain r1 m1 where s: "stop_fn env ps m = (r1, m1)" by force
  have es: "w_fs v = w_fs u" if "stop_engine_service env u = (x, v)" for u x v
    using that by (auto simp: stop_engine_service_def split: prod.splits option.splits dest!: quiet_fs_eq(6-8))
  have rm: "w_fs v q = w_fs u q" if "os_remove (host env) bridge_env_file u = (x, v)" for u :: machine and x v
    using os_remove_frame[OF that] session_files_simps(7)[OF assms(1)] by simp
  have "w_fs m1 q = w_fs m q"
  proof (cases "sp_mode ps = ModeInteractive")
    case True
    then show ?thesis using s by (auto simp: stop_fn_def stop_solarbeam_interactive_def Let_def quiet_fs split: if_splits)
  next
    case False
    obtain x u where e: "stop_engine_service env m = (x, u)" by force
    let ?u = "if sp_bridge ps = [] then u else terminate_by_name env (path_base (sp_bridge ps)) u"
    obtain y v where y: "os_remove (host env) bridge_env_file ?u = (y, v)" by force
    have "m1 = u \<or> m1 = v"
      using s False e y by (auto simp: stop_fn_def stop_solarbeam_def Let_def split: option.splits if_splits)
    then show ?thesis using es[OF e] rm[OF y] terminate_fs[of env _ u] by (auto split: if_splits)
  qed
  then show ?thesis using assms(2) s by (auto simp: manager_stop_def split: option.splits)
qed

lemma status_fn_fs: "status_fn env ps m = (r, m') \<Longrightarrow> w_fs m' = w_fs m"
  by (auto simp: status_fn_def engine_process_running_def engine_service_running_def
      split: if_splits prod.splits option.splits dest!: quiet_fs_eq(7-9))

lemma manager_status_fs: "w_fs (snd (manager_status env ps m)) = w_fs m"
  by (cases "status_fn env ps m") (simp add: manager_status_def Let_def status_fn_fs)

text \<open>
  The engine's update writes only below its install directory, and one file of its own it has just
  created.
\<close>

definition elsewhere :: "handler_context \<Rightarrow> path \<Rightarrow> bool" where
  "elsewhere c q \<longleftrightarrow>
     q \<notin> session_files (cx_env c) \<and> q \<noteq> engine_install_dir (cx_paths c) \<and>
     (\<forall>d. cx_abs c (engine_install_dir (cx_paths c)) = Inr d \<longrightarrow>
        (\<exists>v ds. canonical v ds d \<and> ds \<noteq> [] \<and> \<not> may_touch v ds q))"

lemma install_staged_fs:
  assumes "elsewhere c q" "install_staged env tc unzip (cx_abs c) (cx_paths c) a p w = (r, w')"
  shows "w_fs w' q = w_fs w q"
proof -
  let ?d = "engine_install_dir (cx_paths c)"
  obtain r1 w1 where mk: "os_mkdir_all env ?d w = (r1, w1)" by force
  obtain r2 w2 where ex: "extract_zip env unzip (cx_abs c) p ?d w1 = (r2, w2)" by force
  have fs1: "w_fs w1 q = w_fs w q" using os_mkdir_all_frame[OF mk] assms(1) by (simp add: elsewhere_def)
  obtain y w0 where rd: "os_read_file env p w1 = (y, w0)" by force
  have "w_fs w2 q = w_fs w1 q"
  proof (cases "cx_abs c ?d")
    case (Inl e)
    then show ?thesis using ex rd os_read_file_frame[OF rd] by (auto simp: extract_zip_def split: sum.splits)
  next
    case (Inr d)
    then obtain v ds where v: "canonical v ds d" "ds \<noteq> []" "\<not> may_touch v ds q"
      using assms(1) by (auto simp: elsewhere_def)
    show ?thesis
      using ex rd Inr os_read_file_frame[OF rd]
      by (auto simp: extract_zip_def split: sum.splits dest: extract_entries_touches[OF v(1,2) _ v(3)])
  qed
  then show ?thesis
    using assms(2) mk ex fs1 by (auto simp: install_staged_def split: option.splits)
qed

lemma apply_engine_update_fs:
  assumes "elsewhere c q" "w_fs w q \<noteq> None"
    and "apply_engine_update env tc unzip (cx_abs c) (cx_paths c) a w = (r, w')"
  shows "w_fs w' q = w_fs w q"
proof (cases "engine_install_dir (cx_paths c) = []")
  case False
  obtain x w1 where dl: "download_verified env (engine_download a) w = (x, w1)" by force
  have fs1: "w_fs w1 q = w_fs w q" using dl.kept[OF dl assms(2)] .
  show ?thesis
  proof (cases x)
    case (Inr p)
    then have "q \<noteq> p" using dl.fetched[of env "engine_download a" w p w1] dl assms(2) by auto
    obtain r2 w2 where ins: "install_staged env tc unzip (cx_abs c) (cx_paths c) a p w1 = (r2, w2)" by force
    obtain r3 w3 where rm: "os_remove env p w2 = (r3, w3)" by force
    have "w' = w3" using assms(3) False dl Inr ins rm by (simp add: apply_engine_update_def)
    then show ?thesis
      using os_remove_frame[OF rm \<open>q \<noteq> p\<close>] install_staged_fs[OF assms(1) ins] fs1 by simp
  qed (use assms(3) False dl fs1 in \<open>auto simp: apply_engine_update_def\<close>)
qed (use assms(3) in \<open>simp add: apply_engine_update_def\<close>)

lemma engine_manager_update_fs:
  assumes "elsewhere c q" "w_fs m q \<noteq> None"
    and "engine_manager_update (cx_env c) tc unzip (cx_abs c) (cx_paths c) a m = (r, m')"
  shows "w_fs m' q = w_fs m q"
proof (cases "validate_update_args a")
  case None
  obtain run m1 where st: "status_fn (cx_env c) (cx_paths c) m = (run, m1)" by force
  obtain r2 m2 where ap: "apply_engine_update (host (cx_env c)) tc unzip (cx_abs c) (cx_paths c) a m1 = (r2, m2)" by force
  have "w_fs m1 = w_fs m" using status_fn_fs[OF st] .
  then show ?thesis
    using assms(2,3) None st ap apply_engine_update_fs[OF assms(1) _ ap]
    by (auto simp: engine_manager_update_def split: if_splits option.splits bool.splits)
qed (use assms(3) in \<open>simp add: engine_manager_update_def\<close>)

section \<open>Any number of calls among their neighbours\<close>

record flights =
  fl_flag :: bool
  fl_machine :: machine
  fl_calls :: "(update_args \<times> update_pc) list"

definition flights_start :: "machine \<Rightarrow> flights" where
  "flights_start m = \<lparr>fl_flag = False, fl_machine = m, fl_calls = []\<rparr>"

text \<open>The next statement of call \<open>i\<close>, over the guard and the machine all of them share.\<close>

definition advance :: "handler_context \<Rightarrow> nat \<Rightarrow> flights \<Rightarrow> flights" where
  "advance c i s =
     (case fl_calls s ! i of
        (a, pc) \<Rightarrow>
          (case update_next (host (cx_env c)) (cx_update c)
                  (Some (apply_light_update (host (cx_env c)) (cx_trust c) (cx_exe c))) (Some (session_active c))
                  a (pc, fl_flag s, fl_machine s) of
             (pc1, fl1, m1) \<Rightarrow>
               s\<lparr>fl_flag := fl1, fl_machine := m1, fl_calls := (fl_calls s)[i := (a, pc1)]\<rparr>))"

text \<open>\<open>processes\<close>: children exit and other programs start and end, as they like.\<close>

inductive flight_step :: "handler_context \<Rightarrow> flights \<Rightarrow> flights \<Rightarrow> bool" for c where
  update_command: "flight_step c s (s\<lparr>fl_calls := fl_calls s @ [(a, AtBegin)]\<rparr>)"
| statement: "i < length (fl_calls s) \<Longrightarrow> flight_step c s (advance c i s)"
| session_start: "flight_step c s (s\<lparr>fl_machine := snd (manager_start (cx_env c) (cx_paths c) sa (fl_machine s))\<rparr>)"
| session_stop: "flight_step c s (s\<lparr>fl_machine := snd (manager_stop (cx_env c) (cx_paths c) st (fl_machine s))\<rparr>)"
| engine_update: "flight_step c s (s\<lparr>fl_machine := snd (engine_manager_update (cx_env c) (cx_trust c)
      (cx_unzip c) (cx_abs c) (cx_paths c) ea (fl_machine s))\<rparr>)"
| status: "flight_step c s (s\<lparr>fl_machine := snd (manager_status (cx_env c) (cx_paths c) (fl_machine s))\<rparr>)"
| processes: "flight_step c s (s\<lparr>fl_machine := fl_machine s\<lparr>m_procs := ps\<rparr>\<rparr>)"

section \<open>At most one in the body\<close>

definition single_body :: "flights \<Rightarrow> bool" where
  "single_body s \<longleftrightarrow>
     (fl_flag s \<longleftrightarrow> (\<exists>i < length (fl_calls s). in_body (snd (fl_calls s ! i)))) \<and>
     (\<forall>i < length (fl_calls s). \<forall>j < length (fl_calls s).
        in_body (snd (fl_calls s ! i)) \<longrightarrow> in_body (snd (fl_calls s ! j)) \<longrightarrow> i = j)"

lemma advance_eqs:
  assumes "fl_calls s ! i = (a, pc)"
    and "update_next (host (cx_env c)) (cx_update c)
      (Some (apply_light_update (host (cx_env c)) (cx_trust c) (cx_exe c))) (Some (session_active c))
      a (pc, fl_flag s, fl_machine s) = (pc1, fl1, m1)"
  shows "advance c i s = s\<lparr>fl_flag := fl1, fl_machine := m1, fl_calls := (fl_calls s)[i := (a, pc1)]\<rparr>"
  using assms by (simp add: advance_def)

lemma advance_single:
  assumes "single_body s" "i < length (fl_calls s)"
  shows "single_body (advance c i s)"
proof -
  obtain a pc where call: "fl_calls s ! i = (a, pc)" by force
  obtain pc1 fl1 m1 where next1: "update_next (host (cx_env c)) (cx_update c)
      (Some (apply_light_update (host (cx_env c)) (cx_trust c) (cx_exe c))) (Some (session_active c))
      a (pc, fl_flag s, fl_machine s) = (pc1, fl1, m1)" by (metis prod_cases3)
  let ?b = "\<exists>j < length (fl_calls s). j \<noteq> i \<and> in_body (snd (fl_calls s ! j))"
  have "fl_flag s \<longleftrightarrow> in_body pc \<or> ?b" "\<not> (in_body pc \<and> ?b)"
    using assms call unfolding single_body_def by (metis snd_conv)+
  from update_next_flag[OF next1 this]
  have flag: "fl1 \<longleftrightarrow> in_body pc1 \<or> ?b" "\<not> (in_body pc1 \<and> ?b)" by blast+
  have at: "(fl_calls s)[i := (a, pc1)] ! j = (if j = i then (a, pc1) else fl_calls s ! j)"
    if "j < length (fl_calls s)" for j using that by (auto simp: nth_list_update)
  have old: "\<forall>j < length (fl_calls s). \<forall>k < length (fl_calls s).
      in_body (snd (fl_calls s ! j)) \<longrightarrow> in_body (snd (fl_calls s ! k)) \<longrightarrow> j = k"
    using assms(1) by (simp add: single_body_def)
  show ?thesis
    unfolding advance_eqs[OF call next1] single_body_def
    using flag old assms(2) by (auto simp: at split: if_splits)
qed

lemma flight_single:
  assumes "flight_step c s s'" "single_body s"
  shows "single_body s'"
  using assms
proof cases
  case (update_command a)
  then show ?thesis using assms(2) by (auto simp: single_body_def nth_append less_Suc_eq)
next
  case (statement i)
  then show ?thesis using advance_single[OF assms(2)] by simp
qed (use assms(2) in \<open>simp_all add: single_body_def\<close>)

lemma start_single: "single_body (flights_start m)"
  by (simp add: single_body_def flights_start_def)

lemma flights_single: "(flight_step c)\<^sup>*\<^sup>* (flights_start m) s \<Longrightarrow> single_body s"
  by (induction rule: rtranclp_induct) (simp_all add: start_single flight_single)

section \<open>What the executable's file holds\<close>

definition temp_path :: "handler_context \<Rightarrow> nat \<Rightarrow> path" where
  "temp_path c n =
     he_temp_name (host (cx_env c)) n
       (if uc_download_dir (cx_update c) = [] then he_temp_dir (host (cx_env c)) else uc_download_dir (cx_update c))
       ''fleet-agent-update-*.exe''"

text \<open>
  Where things are: the agent's executable and the files updates are staged in are apart, and outside
  what sessions and engine updates write.
\<close>

definition install_layout :: "handler_context \<Rightarrow> path \<Rightarrow> bool" where
  "install_layout c exe \<longleftrightarrow>
     cx_exe c = Inr exe \<and> elsewhere c exe \<and> (\<forall>s. length (he_sha256 (host (cx_env c)) s) = 32) \<and>
     (\<forall>n. elsewhere c (temp_path c n) \<and> temp_path c n \<noteq> exe \<and> temp_path c n \<noteq> old_path exe)"

definition staged_ok :: "handler_context \<Rightarrow> update_args \<Rightarrow> path \<Rightarrow> machine \<Rightarrow> bool" where
  "staged_ok c a p m \<longleftrightarrow>
     (\<exists>n. p = temp_path c n) \<and>
     (\<exists>x. w_fs m p = Some (File x) \<and> hex_encode (he_sha256 (host (cx_env c)) x) = ua_sha256 a)"

text \<open>A binary that a command ordered: its digest, under this agent's policy, and signed by a trusted signer.\<close>

definition certified :: "handler_context \<Rightarrow> update_args \<Rightarrow> string \<Rightarrow> bool" where
  "certified c a x \<longleftrightarrow>
     acceptable_update (cx_update c) a \<and> hex_encode (he_sha256 (host (cx_env c)) x) = ua_sha256 a \<and>
     (\<exists>p info der. tc_find_cert (cx_trust c) p info = Inr der \<and>
        hex_encode (he_sha256 (host (cx_env c)) der) \<in> set (pp_signers (uc_policy (cx_update c))))"

text \<open>
  A call that could not move the new binary into place says so; only then may the executable be
  missing, because the rename back failed as well.
\<close>

definition could_not_move :: "goerr option \<Rightarrow> bool" where
  "could_not_move r \<longleftrightarrow> (\<exists>e. r = Some (wrapf ''apply: '' (wrapf ''move new exe into place: '' e)))"

definition reports_stranded :: "update_pc \<Rightarrow> bool" where
  "reports_stranded pc \<longleftrightarrow> (\<exists>r. (pc = AtEnd r \<or> pc = Returned r) \<and> could_not_move r)"

lemma apply_light_update_keeps:
  assumes "apply_light_update env tc (Inr exe) p ver fp w = (Some e, w')" "\<nexists>e1. e = wrapf ''move new exe into place: '' e1"
  shows "w_fs w' exe = w_fs w exe"
proof (cases "outcome_error (verify_authenticode (he_sha256 env) tc p fp)")
  case None
  obtain r1 w1 where rm: "os_remove env (old_path exe) w = (r1, w1)" by force
  obtain r2 w2 where mv: "os_rename env exe (old_path exe) w1 = (r2, w2)" by force
  have "w' = w2 \<and> r2 \<noteq> None"
    using assms None rm mv by (auto simp: apply_light_update_def split: option.splits prod.splits)
  then have "w_fs w' = w_fs w1" using os_rename_Some[of env exe "old_path exe" w1 _ w2] mv by auto
  then show ?thesis using os_remove_frame[OF rm, of exe] by simp
qed (use assms(1) in \<open>auto simp: apply_light_update_def\<close>)

lemma download_verified_name:
  "download_verified env dp w = (Inr p, w') \<Longrightarrow>
     \<exists>n. p = he_temp_name env n (if dp_dir dp = [] then he_temp_dir env else dp_dir dp) (dp_pattern dp)"
  by (auto simp: download_verified_def discard_def os_create_temp_def Let_def
      split: sum.splits prod.splits if_splits option.splits)

lemma download_temp:
  assumes "download_verified (host (cx_env c)) (update_download (cx_update c) a) m = (Inr p, m1)"
  shows "\<exists>n. p = temp_path c n"
  using download_verified_name[OF assms] by (simp add: temp_path_def update_download_def cong: if_cong)

lemma staged_by_download:
  assumes "download_verified (host (cx_env c)) (update_download (cx_update c) a) m = (Inr p, m1)"
  shows "staged_ok c a p m1"
  using download_temp[OF assms] dl.fetched[OF assms]
  by (auto simp: staged_ok_def download_ok_def update_download_def)

lemma applied_certified:
  assumes "install_layout c exe" "acceptable_update (cx_update c) a" "staged_ok c a p m" "w_fs m exe = Some (File old)"
    and "apply_light_update (host (cx_env c)) (cx_trust c) (cx_exe c) p (ua_version a) (ua_signer_fingerprint a) m = (None, m1)"
  shows "\<exists>x. w_fs m1 exe = Some (File x) \<and> certified c a x"
proof -
  obtain x where x: "w_fs m p = Some (File x)" "hex_encode (he_sha256 (host (cx_env c)) x) = ua_sha256 a"
    using assms(3) by (auto simp: staged_ok_def)
  have apart: "p \<noteq> exe" "p \<noteq> old_path exe" and exe: "cx_exe c = Inr exe"
    and len: "\<forall>s. length (he_sha256 (host (cx_env c)) s) = 32"
    using assms(1,3) by (auto simp: install_layout_def staged_ok_def)
  note res = apply_light_update_result[OF assms(5)[unfolded exe] assms(4) x(1) apart]
  then have "verify_authenticode (he_sha256 (host (cx_env c))) (cx_trust c) p (ua_signer_fingerprint a) = Returns None"
    by blast
  then obtain info der where "tc_find_cert (cx_trust c) p info = Inr der"
      "ua_signer_fingerprint a = hex_encode (he_sha256 (host (cx_env c)) der)"
    using verify_authenticode_pin[OF len] by blast
  moreover have "ua_signer_fingerprint a \<in> set (pp_signers (uc_policy (cx_update c)))"
    using assms(2) by (simp add: acceptable_update_def)
  ultimately have "certified c a x" using assms(2) x(2) by (auto simp: certified_def)
  then show ?thesis using res by blast
qed

section \<open>The invariant\<close>

fun accepted :: "update_pc \<Rightarrow> bool" where
  "accepted AtSession = True"
| "accepted AtDownload = True"
| "accepted pc = (staged_file pc \<noteq> None)"

abbreviation call_next :: "handler_context \<Rightarrow> update_args \<Rightarrow> update_pc \<times> bool \<times> machine \<Rightarrow> update_pc \<times> bool \<times> machine" where
  "call_next c \<equiv> update_next (host (cx_env c)) (cx_update c)
     (Some (apply_light_update (host (cx_env c)) (cx_trust c) (cx_exe c))) (Some (session_active c))"

lemma call_next_idle: "call_next c a (pc, fl, m) = (pc1, fl1, m1) \<Longrightarrow> \<not> in_body pc \<Longrightarrow> m1 = m"
  by (cases pc) (auto simp: try_begin_def split: if_splits)

lemma call_next_validated:
  "call_next c a (pc, fl, m) = (pc1, fl1, m1) \<Longrightarrow> accepted pc1 \<Longrightarrow>
     accepted pc \<or> acceptable_update (cx_update c) a"
  by (cases pc) (auto simp: try_begin_def update_validate_iff[symmetric] split: if_splits option.splits sum.splits prod.splits)

lemma call_next_staged:
  "call_next c a (pc, fl, m) = (pc1, fl1, m1) \<Longrightarrow> staged_file pc1 = Some p \<Longrightarrow>
     (\<And>q. staged_file pc = Some q \<Longrightarrow> staged_ok c a q m) \<Longrightarrow> staged_ok c a p m1"
  by (cases pc) (auto simp: try_begin_def dest: staged_by_download split: if_splits option.splits sum.splits prod.splits)

lemma call_next_exe:
  assumes "install_layout c exe" "call_next c a (pc, fl, m) = (pc1, fl1, m1)" "w_fs m exe = Some (File x)"
    and "accepted pc \<Longrightarrow> acceptable_update (cx_update c) a"
    and "\<And>q. staged_file pc = Some q \<Longrightarrow> staged_ok c a q m"
  shows "reports_stranded pc1 \<or> (\<exists>y. w_fs m1 exe = Some (File y) \<and> (y = x \<or> certified c a y))"
proof -
  have rm: "w_fs (snd (os_remove (host (cx_env c)) p u)) exe = w_fs u exe"
    if "staged_file pc = Some p" for p and u :: machine
  proof -
    have "p \<noteq> exe" using assms(1) assms(5)[OF that] by (auto simp: install_layout_def staged_ok_def)
    then show ?thesis using os_remove_frame[of "host (cx_env c)" p u _ _ exe] by (metis prod.collapse)
  qed
  show ?thesis
  proof (cases pc)
    case AtDownload
    then have "w_fs m1 exe = w_fs m exe"
      using assms(2,3) dl.kept[of "host (cx_env c)" "update_download (cx_update c) a" m _ _ exe]
      by (auto split: sum.splits prod.splits)
    then show ?thesis using assms(3) by simp
  next
    case (AtApply p)
    obtain r m2 where ap: "apply_light_update (host (cx_env c)) (cx_trust c) (cx_exe c) p (ua_version a)
        (ua_signer_fingerprint a) m = (r, m2)" by force
    show ?thesis
    proof (cases r)
      case None
      then show ?thesis
        using applied_certified[OF assms(1) _ _ assms(3)] ap assms(2,4,5) AtApply by auto
    next
      case (Some e)
      have pc1: "pc1 = AtEnd (Some (wrapf ''apply: '' e))" "m1 = snd (os_remove (host (cx_env c)) p m2)"
        using assms(2) AtApply ap Some by simp_all
      show ?thesis
      proof (cases "\<exists>e1. e = wrapf ''move new exe into place: '' e1")
        case False
        have "cx_exe c = Inr exe" using assms(1) by (simp add: install_layout_def)
        then have "w_fs m2 exe = w_fs m exe"
          using apply_light_update_keeps ap Some False by metis
        then show ?thesis using pc1(2) rm AtApply assms(3) by simp
      qed (use pc1(1) in \<open>auto simp: reports_stranded_def could_not_move_def\<close>)
    qed
  qed (use assms(2,3) rm in \<open>auto simp: try_begin_def split: if_splits option.splits\<close>)
qed

definition exe_intact :: "handler_context \<Rightarrow> path \<Rightarrow> string \<Rightarrow> flights \<Rightarrow> bool" where
  "exe_intact c exe old s \<longleftrightarrow>
     (\<exists>x. w_fs (fl_machine s) exe = Some (File x) \<and>
        (x = old \<or> (\<exists>call \<in> set (fl_calls s). certified c (fst call) x)))"

definition flights_ok :: "handler_context \<Rightarrow> path \<Rightarrow> string \<Rightarrow> flights \<Rightarrow> bool" where
  "flights_ok c exe old s \<longleftrightarrow> single_body s \<and>
     (\<forall>(a, pc) \<in> set (fl_calls s). accepted pc \<longrightarrow> acceptable_update (cx_update c) a) \<and>
     (\<forall>(a, pc) \<in> set (fl_calls s). \<forall>p. staged_file pc = Some p \<longrightarrow> staged_ok c a p (fl_machine s)) \<and>
     ((\<exists>call \<in> set (fl_calls s). reports_stranded (snd call)) \<or> exe_intact c exe old s)"

text \<open>
  What the updates rely on of a neighbour: a file elsewhere that exists stays as it is. That is enough
  for the whole invariant, and each operation of the manager gives it.
\<close>

locale neighbour =
  fixes c :: handler_context
    and act :: "machine \<Rightarrow> machine"
  assumes keeps: "elsewhere c q \<Longrightarrow> w_fs m q \<noteq> None \<Longrightarrow> w_fs (act m) q = w_fs m q"
begin

lemma keeps_staged:
  assumes "install_layout c exe" "staged_ok c a p m"
  shows "staged_ok c a p (act m)"
  using assms keeps by (auto simp: staged_ok_def install_layout_def)

lemma keeps_exe:
  assumes "install_layout c exe" "exe_intact c exe old s"
  shows "exe_intact c exe old (s\<lparr>fl_machine := act (fl_machine s)\<rparr>)"
  using assms keeps by (auto simp: exe_intact_def install_layout_def)

lemma keeps_flights:
  assumes "install_layout c exe" "flights_ok c exe old s"
  shows "flights_ok c exe old (s\<lparr>fl_machine := act (fl_machine s)\<rparr>)"
proof -
  have "single_body (s\<lparr>fl_machine := act (fl_machine s)\<rparr>)" using assms(2) by (simp add: flights_ok_def single_body_def)
  moreover have "\<forall>(a, pc) \<in> set (fl_calls s). \<forall>p. staged_file pc = Some p \<longrightarrow> staged_ok c a p (act (fl_machine s))"
    using keeps_staged[OF assms(1)] assms(2) by (auto simp: flights_ok_def)
  ultimately show ?thesis using keeps_exe[OF assms(1)] assms(2) by (simp add: flights_ok_def) blast
qed

end

lemma elsewhere_session: "elsewhere c q \<Longrightarrow> q \<notin> session_files (cx_env c)"
  by (simp add: elsewhere_def)

interpretation starting: neighbour c "\<lambda>m. snd (manager_start (cx_env c) (cx_paths c) sa m)" for c sa
  by unfold_locales (metis elsewhere_session manager_start_fs prod.collapse)

interpretation stopping: neighbour c "\<lambda>m. snd (manager_stop (cx_env c) (cx_paths c) st m)" for c st
  by unfold_locales (metis elsewhere_session manager_stop_fs prod.collapse)

interpretation engine_updating: neighbour c
  "\<lambda>m. snd (engine_manager_update (cx_env c) (cx_trust c) (cx_unzip c) (cx_abs c) (cx_paths c) ea m)" for c ea
  by unfold_locales (metis engine_manager_update_fs prod.collapse)

interpretation asking: neighbour c "\<lambda>m. snd (manager_status (cx_env c) (cx_paths c) m)" for c
  by unfold_locales (simp add: manager_status_fs)

interpretation processes_changing: neighbour c "\<lambda>m. m\<lparr>m_procs := ps\<rparr>" for c ps
  by unfold_locales simp

lemmas neighbours_keep = starting.keeps_flights stopping.keeps_flights engine_updating.keeps_flights
  asking.keeps_flights processes_changing.keeps_flights

lemma command_ok:
  assumes "flights_ok c exe old s" "single_body (s\<lparr>fl_calls := fl_calls s @ [(a, AtBegin)]\<rparr>)"
  shows "flights_ok c exe old (s\<lparr>fl_calls := fl_calls s @ [(a, AtBegin)]\<rparr>)"
  using assms by (auto simp: flights_ok_def exe_intact_def)

lemma update_in_set:
  assumes "call \<in> set (xs[i := y])" "i < length xs"
  shows "call = y \<or> (\<exists>j < length xs. j \<noteq> i \<and> call = xs ! j)"
proof -
  obtain j where "j < length (xs[i := y])" "xs[i := y] ! j = call" using assms(1) by (meson in_set_conv_nth)
  then show ?thesis by (cases "j = i") auto
qed

lemma same_args:
  assumes "xs ! i = (a, pc)" "i < length xs"
  shows "fst ` set (xs[i := (a, pc1)]) = fst ` set xs"
proof -
  have "map fst (xs[i := (a, pc1)]) = map fst xs"
    using assms by (simp add: map_update) (metis fst_conv list_update_id nth_map)
  then show ?thesis by (metis list.set_map)
qed

lemma stranded_stays:
  assumes "fl_calls s ! i = (a, pc)" "i < length (fl_calls s)" "call_next c a (pc, fl, m) = (pc1, fl1, m1)"
    and "\<exists>call \<in> set (fl_calls s). reports_stranded (snd call)"
  shows "\<exists>call \<in> set ((fl_calls s)[i := (a, pc1)]). reports_stranded (snd call)"
proof -
  obtain k where k: "k < length (fl_calls s)" "reports_stranded (snd (fl_calls s ! k))"
    using assms(4) by (metis in_set_conv_nth)
  have "reports_stranded pc1" if "k = i"
    using k(2) that assms(1,3) by (auto simp: reports_stranded_def)
  then have "reports_stranded (snd ((fl_calls s)[i := (a, pc1)] ! k))"
    using k by (cases "k = i") auto
  then show ?thesis using k(1) by (metis length_list_update nth_mem)
qed

lemma advance_ok:
  assumes "install_layout c exe" "flights_ok c exe old s" "i < length (fl_calls s)"
  shows "flights_ok c exe old (advance c i s)"
proof -
  obtain a pc where call: "fl_calls s ! i = (a, pc)" by force
  obtain pc1 fl1 m1 where nx: "call_next c a (pc, fl_flag s, fl_machine s) = (pc1, fl1, m1)"
    by (metis prod_cases3)
  let ?calls = "(fl_calls s)[i := (a, pc1)]"
  note adv = advance_eqs[OF call nx]
  have "(a, pc) \<in> set (fl_calls s)" using call assms(3) by (metis nth_mem)
  then have acc: "accepted pc \<Longrightarrow> acceptable_update (cx_update c) a"
    and stg: "\<And>q. staged_file pc = Some q \<Longrightarrow> staged_ok c a q (fl_machine s)"
    using assms(2) by (auto simp: flights_ok_def)
  have single: "single_body s" using assms(2) by (simp add: flights_ok_def)
  have rest: "staged_ok c a2 p m1" if "j < length (fl_calls s)" "j \<noteq> i" "fl_calls s ! j = (a2, pc2)" "staged_file pc2 = Some p" for j a2 pc2 p
  proof -
    have "in_body (snd (fl_calls s ! j))" using that staged_in_body by simp
    then have "\<not> in_body pc" using single that(1,2) assms(3) call unfolding single_body_def by (metis snd_conv)
    moreover have "(a2, pc2) \<in> set (fl_calls s)" using that(1,3) by (metis nth_mem)
    ultimately show ?thesis
      using call_next_idle[OF nx] assms(2) that(4) by (auto simp: flights_ok_def)
  qed
  have "\<forall>(b, pc2) \<in> set ?calls. accepted pc2 \<longrightarrow> acceptable_update (cx_update c) b"
  proof -
    have "\<forall>(b, pc2) \<in> set (fl_calls s). accepted pc2 \<longrightarrow> acceptable_update (cx_update c) b"
      using assms(2) by (simp add: flights_ok_def)
    moreover have "accepted pc1 \<Longrightarrow> acceptable_update (cx_update c) a"
      using call_next_validated[OF nx] acc by blast
    ultimately show ?thesis using set_update_subset_insert[of "fl_calls s" i "(a, pc1)"] by blast
  qed
  moreover have "\<forall>(b, pc2) \<in> set ?calls. \<forall>p. staged_file pc2 = Some p \<longrightarrow> staged_ok c b p m1"
    using call_next_staged[OF nx _ stg] rest
    by (auto dest!: update_in_set[OF _ assms(3)]) (metis (no_types, lifting))
  moreover have "(\<exists>call \<in> set ?calls. reports_stranded (snd call)) \<or> exe_intact c exe old (advance c i s)"
  proof (cases "\<exists>call \<in> set (fl_calls s). reports_stranded (snd call)")
    case True
    then show ?thesis using stranded_stays[OF call assms(3) nx] by blast
  next
    case False
    then obtain x where x: "w_fs (fl_machine s) exe = Some (File x)"
        "x = old \<or> (\<exists>b \<in> fst ` set (fl_calls s). certified c b x)"
      using assms(2) by (auto simp: flights_ok_def exe_intact_def)
    have "(a, pc1) \<in> set ?calls" using assms(3) by (simp add: set_update_memI)
    then have "a \<in> fst ` set ?calls" by force
    with call_next_exe[OF assms(1) nx x(1) acc stg] x(2) \<open>(a, pc1) \<in> set ?calls\<close> show ?thesis
      unfolding adv exe_intact_def same_args[OF call assms(3), of pc1, symmetric] by fastforce
  qed
  ultimately show ?thesis
    using advance_single[OF single assms(3), of c] by (simp add: flights_ok_def adv)
qed

lemma flight_ok:
  assumes "flight_step c s s'" "install_layout c exe" "flights_ok c exe old s"
  shows "flights_ok c exe old s'"
  using assms(1)
proof cases
  case (update_command a)
  then show ?thesis
    using command_ok[OF assms(3)] flight_single[OF assms(1)] assms(3) by (simp add: flights_ok_def)
next
  case (statement i)
  then show ?thesis using advance_ok[OF assms(2,3)] by simp
qed (use neighbours_keep[OF assms(2,3)] in \<open>simp_all\<close>)

lemma flights_keep:
  assumes "install_layout c exe" "w_fs m exe = Some (File old)" "(flight_step c)\<^sup>*\<^sup>* (flights_start m) s"
  shows "flights_ok c exe old s"
  using assms(3)
proof (induction rule: rtranclp_induct)
  case base
  then show ?case using assms(2) start_single[of m] by (simp add: flights_ok_def exe_intact_def flights_start_def)
next
  case (step s s')
  then show ?case using flight_ok[OF _ assms(1)] by blast
qed

section \<open>One update at a time\<close>


definition two_commands :: flights where
  "two_commands = advance update_context 0
     \<lparr>fl_flag = False, fl_machine = update_machine, fl_calls = [(swap_args, AtBegin), (swap_args, AtBegin)]\<rparr>"

lemma two_commands_reached: "(flight_step update_context)\<^sup>*\<^sup>* (flights_start update_machine) two_commands"
proof -
  let ?s1 = "flights_start update_machine\<lparr>fl_calls := [(swap_args, AtBegin)]\<rparr>"
  let ?s2 = "\<lparr>fl_flag = False, fl_machine = update_machine, fl_calls = [(swap_args, AtBegin), (swap_args, AtBegin)]\<rparr>"
  have "flight_step update_context (flights_start update_machine) ?s1"
    using flight_step.update_command[of update_context "flights_start update_machine" swap_args]
    by (simp add: flights_start_def)
  moreover have "flight_step update_context ?s1 ?s2"
    using flight_step.update_command[of update_context ?s1 swap_args] by (simp add: flights_start_def)
  moreover have "flight_step update_context ?s2 two_commands"
    using flight_step.statement[of 0 ?s2 update_context] by (simp add: two_commands_def)
  ultimately show ?thesis by (meson rtranclp.rtrancl_into_rtrancl rtranclp.rtrancl_refl)
qed


section \<open>The agent on disk\<close>


lemma not_on_drive: "canonical v ds p \<Longrightarrow> p = v @ CHR 0x5C # join_elems ds \<and> length v = 2"
  by (simp add: canonical_def)

lemma outside_install_dir:
  assumes "length q \<noteq> 2" "take 2 q \<noteq> ''C:''"
  shows "\<not> may_touch ''C:'' ds q"
proof -
  have "take 2 p = ''C:''" if "canonical ''C:'' es p" for es p using not_on_drive[OF that] by simp
  moreover have "2 \<le> length p" if "canonical ''C:'' es p" for es p using not_on_drive[OF that] by simp
  ultimately show ?thesis using assms by (auto simp: may_touch_def inside_def tmp_path_def)
qed

lemma update_context_files:
  "session_files (cx_env update_context) =
     (\<Union>d\<in>{child_log_dir, ''lightagent-data'' @ CHR 0x5C # ''ReadyFleet Light'' @ CHR 0x5C # ''logs''}.
        {d, path_join d ''bridge.log'', path_join d ''engine.log''}) \<union> {bridge_env_dir, bridge_env_file}"
proof -
  have "he_getenv (cx_env update_context) = (\<lambda>k. [])"
    by (simp add: update_context_def hostenv.defs sample_net_def quiet_env_def)
  moreover have "path_join (path_join ''lightagent-data'' ''ReadyFleet Light'') ''logs'' =
      ''lightagent-data'' @ CHR 0x5C # ''ReadyFleet Light'' @ CHR 0x5C # ''logs''" by code_simp
  ultimately have "child_log_dir_interactive (cx_env update_context) =
      ''lightagent-data'' @ CHR 0x5C # ''ReadyFleet Light'' @ CHR 0x5C # ''logs''"
    by (simp add: child_log_dir_interactive_def)
  then show ?thesis by (simp add: session_files_def)
qed

lemma session_file_initials:
  "f \<in> session_files (cx_env update_context) \<Longrightarrow> hd f \<in> {CHR ''C'', CHR ''l''}"
proof -
  let ?l = "''lightagent-data'' @ CHR 0x5C # ''ReadyFleet Light'' @ CHR 0x5C # ''logs''"
  have "hd (path_join child_log_dir ''bridge.log'') = CHR ''C''" "hd (path_join child_log_dir ''engine.log'') = CHR ''C''"
    "hd (path_join ?l ''bridge.log'') = CHR ''l''" "hd (path_join ?l ''engine.log'') = CHR ''l''"
    "hd bridge_env_dir = CHR ''C''" "hd bridge_env_file = CHR ''C''" "hd child_log_dir = CHR ''C''"
    by code_simp+
  then show "f \<in> session_files (cx_env update_context) \<Longrightarrow> hd f \<in> {CHR ''C'', CHR ''l''}"
    by (auto simp: update_context_files)
qed

lemma update_context_elsewhere:
  assumes "hd q \<notin> {CHR ''C'', CHR ''l''}" "length q \<noteq> 2" "q \<noteq> []"
  shows "elsewhere update_context q"
proof -
  have dir: "engine_install_dir (cx_paths update_context) = install_path"
    using engine_extract_entry(2) by (simp add: engine_install_dir_def update_context_def session_paths_def engine_path_def)
  have "take 2 q \<noteq> ''C:''" using assms(1,3) by (cases q) auto
  then have "\<not> may_touch ''C:'' [''d''] q" using outside_install_dir assms(2) by blast
  moreover have "q \<noteq> install_path" using assms(1) by (auto simp: install_path_def)
  moreover have "q \<notin> session_files (cx_env update_context)" using session_file_initials assms(1) by blast
  moreover have "cx_abs update_context = Inr" by (simp add: update_context_def)
  ultimately show ?thesis using install_canonical by (auto simp: elsewhere_def dir)
qed

lemma update_context_layout: "install_layout update_context ''a.exe''"
proof -
  have "temp_path update_context n = ''D'' @ [CHR 0x5C] @ ''fleet-agent-update-*.exe''" for n
    unfolding temp_path_def update_context_host
    by (simp add: update_context_def sample_net_def quiet_env_def swap_cfg_def sample_update_cfg_def)
  moreover have "elsewhere update_context (''D'' @ [CHR 0x5C] @ ''fleet-agent-update-*.exe'')"
    "elsewhere update_context ''a.exe''"
    by (rule update_context_elsewhere; simp)+
  moreover have "\<forall>s. length (he_sha256 (host (cx_env update_context)) s) = 32"
    by (simp add: update_context_host) (simp add: sample_net_def)
  moreover have "cx_exe update_context = Inr ''a.exe''" by (simp add: update_context_def)
  ultimately show ?thesis by (simp add: install_layout_def old_path_def)
qed

lemma runs_reached:
  "(flight_step c)\<^sup>*\<^sup>* \<lparr>fl_flag = fl, fl_machine = m, fl_calls = [(a, pc)]\<rparr>
     (case update_runs n (host (cx_env c)) (cx_update c)
        (Some (apply_light_update (host (cx_env c)) (cx_trust c) (cx_exe c))) (Some (session_active c)) a (pc, fl, m) of
      (pc1, fl1, m1) \<Rightarrow> \<lparr>fl_flag = fl1, fl_machine = m1, fl_calls = [(a, pc1)]\<rparr>)"
proof (induction n arbitrary: pc fl m)
  case (Suc n)
  obtain pc1 fl1 m1 where nx: "call_next c a (pc, fl, m) = (pc1, fl1, m1)" by (metis prod_cases3)
  let ?s = "\<lparr>fl_flag = fl, fl_machine = m, fl_calls = [(a, pc)]\<rparr>"
  have "flight_step c ?s (advance c 0 ?s)" by (rule flight_step.statement) simp
  then have "flight_step c ?s \<lparr>fl_flag = fl1, fl_machine = m1, fl_calls = [(a, pc1)]\<rparr>"
    using nx by (simp add: advance_def)
  then show ?case using Suc.IH[where pc = pc1 and fl = fl1 and m = m1] nx by (simp add: converse_rtranclp_into_rtranclp)
qed simp


section \<open>The window after the last check\<close>

text \<open>
  Nothing holds a session off once the second check has passed, neither the swap nor the two seconds
  before the exit: below, a session starts there, and is running with the exit of its process scheduled.
\<close>

definition late_machine :: machine where
  "late_machine = update_machine\<lparr>w_fs := [''a.exe'' \<mapsto> File ''v1'', engine_path \<mapsto> File ''E'']\<rparr>"

definition late_staged :: path where
  "late_staged = ''D'' @ [CHR 0x5C] @ ''fleet-agent-update-*.exe''"

definition late_downloaded :: machine where
  "late_downloaded = late_machine\<lparr>w_fs := (w_fs late_machine)(late_staged \<mapsto> File ''MZ''), w_tick := 5\<rparr>"

lemma start_cmd_tracked:
  "start_cmd env x d vs m = (Inr pid, m') \<Longrightarrow> pid \<in> fst ` set (m_procs m')"
  by (auto simp: start_cmd_def log_effect_def split: prod.splits option.splits)

lemma started_session_runs:
  assumes "manager_start env ps a m = (None, m')" "sp_mode ps = ModeInteractive"
  shows "\<exists>pid. m_engine_proc m' = Some pid \<and> pid \<in> fst ` set (m_procs m')"
  using assms
  by (auto simp: manager_start_def engine_fn_def start_engine_interactive_def Let_def
      split: prod.splits option.splits sum.splits dest: start_cmd_tracked)

lemma apply_quiet:
  fixes m :: machine
  assumes "\<And>n. he_fault env n = None" "w_fs m exe = Some (File old)" "w_fs m p = Some (File new)"
    and "w_fs m (old_path exe) = None" "p \<noteq> exe" "p \<noteq> old_path exe"
    and "verify_authenticode (he_sha256 env) tc p fp = Returns None"
  shows "\<exists>m'. apply_light_update env tc (Inr exe) p ver fp m = (None, m') \<and>
    m_engine_proc m' = m_engine_proc m \<and> m_procs m' = m_procs m \<and> ExitScheduled \<in> set (w_log m')"
  using assms
  by (simp add: apply_light_update_def outcome_error_def host_calls tick_def put_def drop_path_def log_effect_def)

lemma tracked_session_active:
  assumes "m_engine_proc m = Some pid" "pid \<in> fst ` set (m_procs m)" "sp_mode (cx_paths c) = ModeInteractive"
    and "\<And>n. he_fault (host (cx_env c)) n = None"
  shows "session_active c m"
  using assms
  by (simp add: session_active_def manager_status_def status_fn_def engine_process_running_def sys_call_def
      tick_def Let_def)

lemma late_facts:
  "late_staged \<noteq> ''a.exe''" "late_staged \<noteq> old_path ''a.exe''" "engine_path \<noteq> ''a.exe''"
  "engine_path \<noteq> old_path ''a.exe''" "engine_path \<noteq> late_staged" "old_path ''a.exe'' \<noteq> ''a.exe''"
  by (simp_all add: late_staged_def old_path_def engine_path_def install_path_def)

lemma late_download:
  "download_verified sample_net (update_download swap_cfg swap_args) late_machine = (Inr late_staged, late_downloaded)"
  using late_facts(5)[symmetric]
  by (simp add: download_verified_def http_get_def update_download_def swap_cfg_def swap_args_def
      sample_update_cfg_def sample_update_args_def sample_url sample_net_def quiet_env_def late_downloaded_def
      late_machine_def update_machine_def session_machine_def world.defs engine_world_def host_calls Let_def
      verify_sha256_def tick_def put_def toy_sha_def max_download_bytes_def late_staged_def)

lemma late_reaches_apply:
  "(flight_step update_context)\<^sup>*\<^sup>* (flights_start late_machine)
     \<lparr>fl_flag = True, fl_machine = late_downloaded, fl_calls = [(swap_args, AtApply late_staged)]\<rparr>"
proof -
  let ?c = update_context
  have start: "flight_step ?c (flights_start late_machine)
      \<lparr>fl_flag = False, fl_machine = late_machine, fl_calls = [(swap_args, AtBegin)]\<rparr>"
    using flight_step.update_command[of ?c "flights_start late_machine" swap_args] by (simp add: flights_start_def)
  have "update_validate swap_cfg swap_args = None" using swap_acceptable by (simp add: update_validate_iff)
  moreover have "\<not> session_active ?c late_machine" "\<not> session_active ?c late_downloaded"
    by (rule update_idle; simp add: late_downloaded_def late_machine_def update_machine_def session_machine_def world.defs)+
  ultimately have six: "update_runs 6 sample_net swap_cfg f (Some (session_active ?c)) swap_args (AtBegin, False, late_machine) =
      (AtApply late_staged, True, late_downloaded)" if "f \<noteq> None" for f
    using that by (auto simp: eval_nat_numeral try_begin_def session_says_def late_download)
  have "cx_update ?c = swap_cfg" by (simp add: update_context_def)
  then have "(flight_step ?c)\<^sup>*\<^sup>* \<lparr>fl_flag = False, fl_machine = late_machine, fl_calls = [(swap_args, AtBegin)]\<rparr>
      \<lparr>fl_flag = True, fl_machine = late_downloaded, fl_calls = [(swap_args, AtApply late_staged)]\<rparr>"
    using runs_reached[of ?c False late_machine swap_args AtBegin 6] six by (simp add: update_context_host)
  then show ?thesis using start by (rule converse_rtranclp_into_rtranclp[rotated])
qed

theorem session_started_before_exit:
  "\<exists>s. (flight_step update_context)\<^sup>*\<^sup>* (flights_start late_machine) s \<and>
     fl_calls s = [(swap_args, AtEnd None)] \<and> ExitScheduled \<in> set (w_log (fl_machine s)) \<and>
     session_active update_context (fl_machine s)"
proof -
  let ?c = update_context
  have env: "he_fault (cx_env ?c) = (\<lambda>n. None)" "se_dial (cx_env ?c) = (\<lambda>n. None)"
      "\<And>n. he_fault sample_net n = None" "he_sha256 sample_net = toy_sha"
    by (simp_all add: update_context_def sample_net_def quiet_env_def hostenv.defs)
  have ctx: "cx_paths ?c = session_paths" "cx_trust ?c = sample_trust None" "cx_exe ?c = Inr ''a.exe''"
    by (simp_all add: update_context_def)
  have ps: "sp_mode session_paths = ModeInteractive" "sp_bridge session_paths \<noteq> []" "sp_engine session_paths = engine_path" "engine_path \<noteq> []"
    by (simp_all add: session_paths_def engine_path_def)
  have "w_fs late_downloaded engine_path = Some (File ''E'')"
    using late_facts by (simp add: late_downloaded_def late_machine_def)
  then have "fst (manager_start (cx_env ?c) session_paths session_args late_downloaded) = None"
    by (intro start_interactive_succeeds[OF env(1,2) ps(2,1)]) (simp_all add: ps)
  then obtain m2 where start: "manager_start (cx_env ?c) session_paths session_args late_downloaded = (None, m2)"
    by (cases "manager_start (cx_env ?c) session_paths session_args late_downloaded") simp
  then obtain pid where pid: "m_engine_proc m2 = Some pid" "pid \<in> fst ` set (m_procs m2)"
    using started_session_runs[OF start ps(1)] by (elim exE conjE)
  have kept: "w_fs m2 q = w_fs late_downloaded q" if "elsewhere ?c q" for q
    using manager_start_fs[OF _ start, of q] that by (simp add: elsewhere_def)
  have "elsewhere ?c ''a.exe''" "elsewhere ?c late_staged" "elsewhere ?c (old_path ''a.exe'')"
    by (rule update_context_elsewhere; simp add: late_staged_def old_path_def)+
  then have fs: "w_fs m2 ''a.exe'' = Some (File ''v1'')" "w_fs m2 late_staged = Some (File ''MZ'')"
      "w_fs m2 (old_path ''a.exe'') = None"
    using kept late_facts by (simp_all add: late_downloaded_def late_machine_def)
  have "verify_authenticode toy_sha (sample_trust None) late_staged (hex_encode (toy_sha ''der'')) = Returns None"
    by (rule sample_authenticode) (simp add: late_staged_def)
  moreover have fp: "ua_signer_fingerprint swap_args = hex_encode (toy_sha ''der'')" by (simp add: swap_args_def)
  ultimately obtain m3 where ap: "apply_light_update sample_net (sample_trust None) (Inr ''a.exe'') late_staged
        (ua_version swap_args) (ua_signer_fingerprint swap_args) m2 = (None, m3)"
      and m3: "m_engine_proc m3 = m_engine_proc m2" "m_procs m3 = m_procs m2" "ExitScheduled \<in> set (w_log m3)"
    using apply_quiet[OF env(3) fs late_facts(1,2), of "sample_trust None" "ua_signer_fingerprint swap_args" "ua_version swap_args"]
      env(4) fp by metis
  let ?s = "\<lambda>m pc. \<lparr>fl_flag = True, fl_machine = m, fl_calls = [(swap_args, pc)]\<rparr>"
  have "flight_step ?c (?s late_downloaded (AtApply late_staged)) (?s m2 (AtApply late_staged))"
    using flight_step.session_start[of ?c "?s late_downloaded (AtApply late_staged)" session_args] start ctx by simp
  moreover have "flight_step ?c (?s m2 (AtApply late_staged)) (?s m3 (AtEnd None))"
    using flight_step.statement[of 0 "?s m2 (AtApply late_staged)" ?c] ap ctx
    by (simp add: advance_def update_context_host)
  ultimately have "(flight_step ?c)\<^sup>*\<^sup>* (flights_start late_machine) (?s m3 (AtEnd None))"
    using late_reaches_apply by (meson rtranclp.rtrancl_into_rtrancl)
  moreover have "session_active ?c m3"
    by (rule tracked_session_active) (use pid m3 ctx ps env(3) in \<open>simp_all add: update_context_host\<close>)
  ultimately show ?thesis using m3(3) by force
qed

end
