(* ===== verification/Serving.thy ===== *)
theory Serving
  imports Agent "HOL-Library.Multiset"
begin

text \<open>
  One connection serving the agent, from the frames read to the frames written: the read loop hands
  each envelope to \<open>dispatch\<close> of \<open>transport/client.go\<close>, which starts a goroutine for a command or an
  asked inventory; the goroutines run the handlers of \<open>runLightAgent\<close> and call \<open>Send\<close>, and the writer
  empties the queue. All of them interleave: any started goroutine may be next, and between two
  messages of one handler others may send.
\<close>

section \<open>The steps\<close>

text \<open>
  \<open>sv_tasks\<close> are the goroutines started, \<open>sv_outbox\<close> the messages of the handlers that ran, each with
  the outcome its \<open>Send\<close> will have, \<open>sv_lost\<close> those whose \<open>Send\<close> failed, \<open>sv_heard\<close> the envelopes read.
\<close>

record serving =
  sv_delivery :: delivery
  sv_agent :: agent
  sv_heard :: "envelope list"
  sv_tasks :: "task list"
  sv_outbox :: "(envelope \<times> goerr option) list list"
  sv_lost :: "envelope list"

abbreviation sv_conn :: "serving \<Rightarrow> pconn" where
  "sv_conn s \<equiv> d_conn (sv_delivery s)"

definition accept :: "pconn \<Rightarrow> envelope list \<Rightarrow> serving \<Rightarrow> serving" where
  "accept p ms s = s\<lparr>sv_delivery := (sv_delivery s)\<lparr>d_conn := p, d_accepted := d_accepted (sv_delivery s) @ ms\<rparr>\<rparr>"

definition pong_for :: "uuid \<Rightarrow> string \<Rightarrow> envelope \<Rightarrow> envelope" where
  "pong_for fresh ts e = new_envelope fresh ts MsgPong uuid_nil (Some (env_id e)) None"

text \<open>The inventory provider of \<open>runLightAgent\<close> returns an empty \<open>InventoryData\<close>.\<close>

definition asked_inventory :: "uuid \<Rightarrow> string \<Rightarrow> envelope" where
  "asked_inventory fresh ts = new_envelope fresh ts MsgInventory uuid_nil None (Some (inventory_json zero_inventory))"

text \<open>What a handler sent, with the outcomes it saw.\<close>

definition handler_sends :: "handler_context \<Rightarrow> agent \<Rightarrow> agent \<Rightarrow> (envelope \<times> goerr option) list" where
  "handler_sends c s s' =
     (let n = length (ag_sent s); ms = drop n (ag_sent s')
      in zip ms (map (cx_send c) [n..<n + length ms]))"

inductive serving_step :: "agent_setup \<Rightarrow> (string \<Rightarrow> uuid option) \<Rightarrow> serving \<Rightarrow> serving \<Rightarrow> bool" for g parse where
  hear: "unmarshal_envelope parse raw = Some e \<Longrightarrow>
    (r, t, p) \<in> set (dispatch (gs_client g) fresh ts ctx e (sv_conn s)) \<Longrightarrow>
    serving_step g parse s
      ((accept p (if env_type e = MsgPing \<and> r = None then [pong_for fresh ts e] else []) s)
         \<lparr>sv_heard := sv_heard s @ [e], sv_tasks := sv_tasks s @ (case t of None \<Rightarrow> [] | Some x \<Rightarrow> [x])\<rparr>)"
| handle: "RunCommand e \<in> set (sv_tasks s) \<Longrightarrow> a = gs_dispatch g c e (sv_agent s) \<Longrightarrow>
    serving_step g parse s
      (s\<lparr>sv_agent := a, sv_tasks := remove1 (RunCommand e) (sv_tasks s),
         sv_outbox := sv_outbox s @ [handler_sends c (sv_agent s) a]\<rparr>)"
| inventory: "SendInventory \<in> set (sv_tasks s) \<Longrightarrow>
    serving_step g parse s
      (s\<lparr>sv_tasks := remove1 SendInventory (sv_tasks s),
         sv_outbox := sv_outbox s @ [[(asked_inventory fresh ts, r)]]\<rparr>)"
| sends: "i < length (sv_outbox s) \<Longrightarrow> sv_outbox s ! i = (m, r) # rest \<Longrightarrow>
    (r, p) \<in> set (send_outcomes ctx m (sv_conn s)) \<Longrightarrow>
    serving_step g parse s
      ((accept p (if r = None then [m] else []) s)
         \<lparr>sv_outbox := (sv_outbox s)[i := rest], sv_lost := sv_lost s @ (if r = None then [] else [m])\<rparr>)"
| writes: "delivery_step (sv_delivery s) d \<Longrightarrow> d_accepted d = d_accepted (sv_delivery s) \<Longrightarrow>
    serving_step g parse s (s\<lparr>sv_delivery := d\<rparr>)"

inductive_cases serving_stepE: "serving_step g parse s s'"

definition serving_start :: "envelope \<Rightarrow> agent \<Rightarrow> serving" where
  "serving_start hello a =
     \<lparr>sv_delivery = delivery_start\<lparr>d_conn := new_persistent_conn\<lparr>pc_send := [marshal hello]\<rparr>, d_accepted := [hello]\<rparr>,
      sv_agent = a, sv_heard = [], sv_tasks = [], sv_outbox = [], sv_lost = []\<rparr>"

text \<open>A connection of the light agent, at any moment.\<close>

definition serves_as :: "agentenv \<Rightarrow> bool \<Rightarrow> config \<Rightarrow> envelope \<Rightarrow> (string \<Rightarrow> uuid option) \<Rightarrow> serving \<Rightarrow> bool" where
  "serves_as env insecure cfg hello parse s \<longleftrightarrow>
     (\<exists>fresh ts a. hello = hello_envelope fresh ts (gs_client (light_setup env insecure cfg)) \<and>
        (serving_step (light_setup env insecure cfg) parse)\<^sup>*\<^sup>* (serving_start hello a) s)"

section \<open>What a handler sends\<close>

lemma finish_once:
  "ag_sent (snd rs) = ag_sent s \<Longrightarrow> \<exists>r. ag_sent (finish c e rs) = ag_sent s @ [r] \<and> answers e r"
  using finish_sent[of c e "fst rs" "snd rs"] by (cases rs) fastforce

definition replies_of :: "envelope \<Rightarrow> envelope list \<Rightarrow> bool" where
  "replies_of e ms \<longleftrightarrow>
     (if decodable e
      then \<exists>pre r. ms = pre @ [r] \<and> answers e r \<and> list_all (\<lambda>m. is_inventory m \<and> env_reply m = Some (env_id e)) pre
      else ms = [])"

lemma replies_of_one: "decodable e \<Longrightarrow> answers e r \<Longrightarrow> replies_of e [r]"
  by (auto simp: replies_of_def intro: exI[of _ "[]"])

lemma dispatch_replies:
  "\<exists>ms. ag_sent (dispatch_command light_handlers c e s) = ag_sent s @ ms \<and> replies_of e ms"
proof (cases "decode_data decode_command_data e")
  case (Inl err)
  then show ?thesis by (intro exI[of _ "[]"]) (auto simp: replies_of_def dispatch_command_def decodable_def)
next
  case (Inr cmd)
  then have dec: "decodable e" by (simp add: decodable_def)
  show ?thesis
  proof (cases "light_handlers (cmd_kind cmd)")
    case None
    then show ?thesis
      using unsupported_answers dec by (auto simp: dispatch_command_def Inr send_def Let_def intro!: replies_of_one)
  next
    case (Some h)
    have run: "dispatch_command light_handlers c e s = h c e s" by (simp add: dispatch_command_def Inr Some)
    have "\<exists>ms. ag_sent (h c e s) = ag_sent s @ ms \<and> replies_of e ms" if "h = run_inventory_refresh"
      using inventory_refresh_sent[of c e s] dec that by (force simp: replies_of_def)
    moreover have "\<exists>r. ag_sent (h c e s) = ag_sent s @ [r] \<and> answers e r" if "h \<noteq> run_inventory_refresh"
      using light_handlers_cases[OF Some] that
      by (auto simp: run_start_solarbeam_def run_stop_solarbeam_def run_self_update_def show_connection_request_def
          run_solarbeam_engine_update_def run_show_notification_def intro!: finish_once split: sum.splits prod.splits)
    ultimately show ?thesis unfolding run using replies_of_one[OF dec] by metis
  qed
qed

section \<open>What the connection says\<close>

definition pending :: "serving \<Rightarrow> envelope list" where
  "pending s = concat (map (map fst) (sv_outbox s))"

text \<open>Every message but the hello has its cause among the envelopes heard.\<close>

definition caused :: "envelope list \<Rightarrow> envelope \<Rightarrow> bool" where
  "caused es m \<longleftrightarrow>
     (\<exists>e \<in> set es.
        (env_type e = MsgPing \<and> (\<exists>fresh ts. m = pong_for fresh ts e)) \<or>
        (env_type e = MsgHelloAck \<and> (\<exists>fresh ts. m = asked_inventory fresh ts)) \<or>
        (env_type e = MsgCommand \<and> env_reply m = Some (env_id e) \<and> (is_inventory m \<or> answers e m)))"

definition commands :: "envelope list \<Rightarrow> envelope list" where
  "commands es = filter (\<lambda>e. env_type e = MsgCommand \<and> decodable e) es"

primrec task_commands :: "task list \<Rightarrow> envelope list" where
  "task_commands [] = []"
| "task_commands (t # ts) = (case t of RunCommand e \<Rightarrow> (if decodable e then [e] else []) | _ \<Rightarrow> []) @ task_commands ts"

text \<open>The identifiers replied to by results, and those of commands.\<close>

definition answered :: "envelope list \<Rightarrow> uuid option multiset" where
  "answered ms = image_mset env_reply (mset (filter is_result ms))"

definition asked :: "envelope list \<Rightarrow> uuid option multiset" where
  "asked es = image_mset (Some \<circ> env_id) (mset es)"

lemma answered_simps [simp]:
  "answered [] = {#}" "answered (ms @ ms') = answered ms + answered ms'"
  "answered (m # ms) = (if is_result m then {#env_reply m#} else {#}) + answered ms"
  by (simp_all add: answered_def)

lemma asked_simps [simp]:
  "asked [] = {#}" "asked (es @ es') = asked es + asked es'" "asked (e # es) = {#Some (env_id e)#} + asked es"
  by (simp_all add: asked_def)

lemma caused_mono: "caused es m \<Longrightarrow> set es \<subseteq> set es' \<Longrightarrow> caused es' m"
  unfolding caused_def by blast

lemma not_results [simp]: "\<not> is_result (pong_for fresh ts e)" "\<not> is_result (asked_inventory fresh ts)"
  by (simp_all add: is_result_def pong_for_def asked_inventory_def message_types)

lemma replies_of_answered:
  assumes "replies_of e ms"
  shows "answered ms = (if decodable e then {#Some (env_id e)#} else {#})"
proof (cases "decodable e")
  case True
  then obtain pre r where ms: "ms = pre @ [r]" "answers e r" "list_all (\<lambda>m. is_inventory m \<and> env_reply m = Some (env_id e)) pre"
    using assms by (auto simp: replies_of_def)
  then have "filter is_result pre = []" using inventory_not_result by (auto simp: filter_empty_conv list_all_iff)
  then have "answered pre = {#}" by (simp add: answered_def)
  then show ?thesis using ms(1,2) True by (simp add: answers_def is_result_def)
qed (use assms in \<open>simp add: replies_of_def\<close>)

lemma replies_of_caused:
  "replies_of e ms \<Longrightarrow> e \<in> set es \<Longrightarrow> env_type e = MsgCommand \<Longrightarrow> m \<in> set ms \<Longrightarrow> caused es m"
  unfolding caused_def by (rule bexI[of _ e]) (auto simp: replies_of_def list_all_iff answers_def split: if_splits)

lemma handler_sends_fst:
  assumes "ag_sent s' = ag_sent s @ ms"
  shows "map fst (handler_sends c s s') = ms"
  using assms by (simp add: handler_sends_def Let_def)

lemma task_commands_append [simp]: "task_commands (ts @ ts') = task_commands ts @ task_commands ts'"
  by (induction ts) auto

lemma task_commands_remove1:
  "RunCommand e \<in> set ts \<Longrightarrow>
     asked (task_commands ts) = (if decodable e then {#Some (env_id e)#} else {#}) + asked (task_commands (remove1 (RunCommand e) ts))"
  "asked (task_commands (remove1 SendInventory ts)) = asked (task_commands ts)"
  by (induction ts) (auto split: task.splits)

definition serving_inv :: "envelope \<Rightarrow> serving \<Rightarrow> bool" where
  "serving_inv hello s \<longleftrightarrow>
     delivery_ok (sv_delivery s) \<and>
     (\<forall>m \<in> set (d_accepted (sv_delivery s) @ sv_lost s @ pending s). m = hello \<or> caused (sv_heard s) m) \<and>
     (\<forall>t \<in> set (sv_tasks s). (\<exists>e \<in> set (sv_heard s). t = RunCommand e \<and> env_type e = MsgCommand) \<or>
        (t = SendInventory \<and> (\<exists>e \<in> set (sv_heard s). env_type e = MsgHelloAck))) \<and>
     answered (d_accepted (sv_delivery s)) + answered (sv_lost s) + answered (pending s) + asked (task_commands (sv_tasks s))
       = asked (commands (sv_heard s))"

lemma pending_append: "pending (s\<lparr>sv_outbox := sv_outbox s @ [xs]\<rparr>) = pending s @ map fst xs"
  by (simp add: pending_def)

lemma pending_Nil: "pending s = [] \<longleftrightarrow> (\<forall>i < length (sv_outbox s). sv_outbox s ! i = [])"
  by (auto simp: pending_def all_set_conv_all_nth)

lemma pending_send:
  assumes "i < length (sv_outbox s)" "sv_outbox s ! i = (m, r) # rest"
  shows "set (pending s) = insert m (set (pending (s\<lparr>sv_outbox := (sv_outbox s)[i := rest]\<rparr>)))"
    "answered (pending s) = answered [m] + answered (pending (s\<lparr>sv_outbox := (sv_outbox s)[i := rest]\<rparr>))"
    "length (pending s) = Suc (length (pending (s\<lparr>sv_outbox := (sv_outbox s)[i := rest]\<rparr>)))"
proof -
  let ?o = "sv_outbox s"
  have o: "?o = take i ?o @ ((m, r) # rest) # drop (Suc i) ?o" using assms id_take_nth_drop by metis
  have u: "?o[i := rest] = take i ?o @ rest # drop (Suc i) ?o" using assms(1) by (simp add: upd_conv_take_nth_drop)
  show "set (pending s) = insert m (set (pending (s\<lparr>sv_outbox := ?o[i := rest]\<rparr>)))"
    unfolding pending_def by (subst o) (simp add: u)
  show "answered (pending s) = answered [m] + answered (pending (s\<lparr>sv_outbox := ?o[i := rest]\<rparr>))"
    unfolding pending_def by (subst o) (simp add: u)
  show "length (pending s) = Suc (length (pending (s\<lparr>sv_outbox := ?o[i := rest]\<rparr>)))"
    unfolding pending_def by (subst o) (simp add: u)
qed

lemma dispatch_accepts:
  assumes "(r, t, p) \<in> set (dispatch cfg fresh ts ctx e q)"
  shows "p = (if env_type e = MsgPing \<and> r = None then q\<lparr>pc_send := pc_send q @ [marshal (pong_for fresh ts e)]\<rparr> else q)"
    "length (pc_send q) \<le> send_capacity \<Longrightarrow> length (pc_send p) \<le> send_capacity"
  using assms
  by (auto simp: dispatch_def pong_for_def message_types send_outcomes_def split: sum.splits option.splits if_splits)

lemma dispatch_starts:
  assumes "(r, t, p) \<in> set (dispatch (gs_client (light_setup env insecure cfg)) fresh ts ctx e q)"
  shows "t = None \<and> env_type e \<noteq> MsgCommand \<or> t = Some SendInventory \<and> env_type e = MsgHelloAck \<or>
    t = Some (RunCommand e) \<and> env_type e = MsgCommand"
  using assms
  by (auto simp: dispatch_def light_setup_def light_runtime_config_def new_client_def message_types send_outcomes_def
      split: sum.splits option.splits if_splits)

lemma light_setup_dispatch: "gs_dispatch (light_setup env insecure cfg) = dispatch_command light_handlers"
  by (simp add: light_setup_def light_runtime_config_def new_client_def)

lemma delivery_ok_accept:
  assumes "delivery_ok d" "pc_send p = pc_send (d_conn d) @ map marshal ms" "length (pc_send p) \<le> send_capacity"
  shows "delivery_ok (d\<lparr>d_conn := p, d_accepted := d_accepted d @ ms\<rparr>)"
  using assms by (auto simp: delivery_ok_def)

lemma delivery_capacity: "delivery_ok d \<Longrightarrow> length (pc_send (d_conn d)) \<le> send_capacity"
  by (simp add: delivery_ok_def)

lemma books_balance:
  fixes h :: "'a multiset"
  assumes "a + l + p + t = h" "t' + h = t + h'"
  shows "a + l + p + t' = h'"
proof -
  have "(a + l + p + t') + h = (a + l + p) + (t + h')" using assms(2) by (metis add.assoc)
  also have "\<dots> = h' + h" using assms(1) by (metis add.assoc add.commute)
  finally show ?thesis by (rule add_right_imp_eq)
qed

lemma serving_inv_hear:
  assumes "serving_inv hello s" "(r, t, p) \<in> set (dispatch (gs_client (light_setup env insecure cfg)) fresh ts ctx e (sv_conn s))"
    and "s' = (accept p (if env_type e = MsgPing \<and> r = None then [pong_for fresh ts e] else []) s)
         \<lparr>sv_heard := sv_heard s @ [e], sv_tasks := sv_tasks s @ (case t of None \<Rightarrow> [] | Some x \<Rightarrow> [x])\<rparr>"
  shows "serving_inv hello s'"
proof -
  let ?ms = "if env_type e = MsgPing \<and> r = None then [pong_for fresh ts e] else []"
  note p = dispatch_accepts[OF assms(2)]
  have d: "delivery_ok (sv_delivery s)" using assms(1) by (simp add: serving_inv_def)
  have fields: "sv_delivery s' = (sv_delivery s)\<lparr>d_conn := p, d_accepted := d_accepted (sv_delivery s) @ ?ms\<rparr>"
      "sv_lost s' = sv_lost s" "pending s' = pending s" "sv_heard s' = sv_heard s @ [e]"
      "sv_tasks s' = sv_tasks s @ (case t of None \<Rightarrow> [] | Some x \<Rightarrow> [x])"
    by (simp_all add: assms(3) accept_def pending_def)
  have acc: "d_accepted (sv_delivery s') = d_accepted (sv_delivery s) @ ?ms" by (simp add: fields(1))
  have ok: "delivery_ok (sv_delivery s')"
    unfolding fields(1) by (rule delivery_ok_accept[OF d]) (use p d in \<open>auto simp: delivery_capacity\<close>)
  have new: "caused (sv_heard s') m" if "m \<in> set ?ms" for m
    using that by (auto simp: caused_def fields split: if_splits)
  have eq: "asked (task_commands (sv_tasks s')) + asked (commands (sv_heard s)) =
      asked (task_commands (sv_tasks s)) + asked (commands (sv_heard s'))"
    using dispatch_starts[OF assms(2)] by (auto simp: fields commands_def message_types)
  have same: "answered (d_accepted (sv_delivery s')) = answered (d_accepted (sv_delivery s))" by (simp add: acc)
  have books: "answered (d_accepted (sv_delivery s')) + answered (sv_lost s') + answered (pending s') +
      asked (task_commands (sv_tasks s')) = asked (commands (sv_heard s'))"
    unfolding same fields(2,3) by (rule books_balance[OF _ eq]) (use assms(1) in \<open>simp add: serving_inv_def\<close>)
  have old: "m = hello \<or> caused (sv_heard s') m" if "m \<in> set (d_accepted (sv_delivery s) @ sv_lost s @ pending s)" for m
    using that assms(1) caused_mono[of "sv_heard s" m "sv_heard s'"] unfolding serving_inv_def fields(4) by auto
  have tasks: "(\<exists>e \<in> set (sv_heard s'). x = RunCommand e \<and> env_type e = MsgCommand) \<or>
      (x = SendInventory \<and> (\<exists>e \<in> set (sv_heard s'). env_type e = MsgHelloAck))" if "x \<in> set (sv_tasks s')" for x
    using that assms(1) dispatch_starts[OF assms(2)] unfolding serving_inv_def fields(4,5) by auto
  show ?thesis unfolding serving_inv_def
  proof (intro conjI ballI)
    fix m assume "m \<in> set (d_accepted (sv_delivery s') @ sv_lost s' @ pending s')"
    then show "m = hello \<or> caused (sv_heard s') m" using old new unfolding acc fields(2,3) by auto
  qed (fact ok books tasks)+
qed

lemma serving_inv_handle:
  assumes "serving_inv hello s" "RunCommand e \<in> set (sv_tasks s)" "a = dispatch_command light_handlers c e (sv_agent s)"
    and "s' = s\<lparr>sv_agent := a, sv_tasks := remove1 (RunCommand e) (sv_tasks s),
         sv_outbox := sv_outbox s @ [handler_sends c (sv_agent s) a]\<rparr>"
  shows "serving_inv hello s'"
proof -
  obtain ms where ms: "ag_sent a = ag_sent (sv_agent s) @ ms" "replies_of e ms"
    using dispatch_replies assms(3) by blast
  have e: "e \<in> set (sv_heard s)" "env_type e = MsgCommand" using assms(1,2) by (auto simp: serving_inv_def)
  have fields: "sv_delivery s' = sv_delivery s" "sv_lost s' = sv_lost s" "sv_heard s' = sv_heard s"
      "pending s' = pending s @ ms" "sv_tasks s' = remove1 (RunCommand e) (sv_tasks s)"
    using handler_sends_fst[OF ms(1)] by (simp_all add: assms(4) pending_def)
  have "answered (d_accepted (sv_delivery s)) + answered (sv_lost s) + answered (pending s @ ms) +
      asked (task_commands (remove1 (RunCommand e) (sv_tasks s))) =
      answered (d_accepted (sv_delivery s)) + answered (sv_lost s) + answered (pending s) + asked (task_commands (sv_tasks s))"
    using task_commands_remove1(1)[OF assms(2)] replies_of_answered[OF ms(2)] by (simp add: ac_simps)
  then show ?thesis
    using assms(1) replies_of_caused[OF ms(2) e] unfolding serving_inv_def fields
    by (auto dest: notin_set_remove1 set_remove1_subset[THEN subsetD])
qed

lemma serving_inv_inventory:
  assumes "serving_inv hello s" "SendInventory \<in> set (sv_tasks s)"
    and "s' = s\<lparr>sv_tasks := remove1 SendInventory (sv_tasks s),
         sv_outbox := sv_outbox s @ [[(asked_inventory fresh ts, r)]]\<rparr>"
  shows "serving_inv hello s'"
proof -
  have fields: "sv_delivery s' = sv_delivery s" "sv_lost s' = sv_lost s" "sv_heard s' = sv_heard s"
      "pending s' = pending s @ [asked_inventory fresh ts]" "sv_tasks s' = remove1 SendInventory (sv_tasks s)"
    by (simp_all add: assms(3) pending_def)
  have "caused (sv_heard s) (asked_inventory fresh ts)"
  proof -
    obtain e where "e \<in> set (sv_heard s)" "env_type e = MsgHelloAck" using assms(1,2) by (auto simp: serving_inv_def)
    then show ?thesis unfolding caused_def by blast
  qed
  then show ?thesis
    using assms(1) task_commands_remove1(2)[of "sv_tasks s"] unfolding serving_inv_def fields
    by (auto dest: set_remove1_subset[THEN subsetD])
qed

lemma serving_inv_sends:
  assumes "serving_inv hello s" "i < length (sv_outbox s)" "sv_outbox s ! i = (m, r) # rest"
    and "(r, p) \<in> set (send_outcomes ctx m (sv_conn s))"
    and "s' = (accept p (if r = None then [m] else []) s)
         \<lparr>sv_outbox := (sv_outbox s)[i := rest], sv_lost := sv_lost s @ (if r = None then [] else [m])\<rparr>"
  shows "serving_inv hello s'"
proof -
  let ?ms = "if r = None then [m] else []" and ?ls = "if r = None then [] else [m]"
  note pend = pending_send[OF assms(2,3)]
  have fields: "sv_delivery s' = (sv_delivery s)\<lparr>d_conn := p, d_accepted := d_accepted (sv_delivery s) @ ?ms\<rparr>"
      "sv_lost s' = sv_lost s @ ?ls" "sv_heard s' = sv_heard s" "sv_tasks s' = sv_tasks s"
      "pending s' = pending (s\<lparr>sv_outbox := (sv_outbox s)[i := rest]\<rparr>)"
    by (simp_all add: assms(5) accept_def pending_def)
  have d: "delivery_ok (sv_delivery s)" using assms(1) by (simp add: serving_inv_def)
  have ok: "delivery_ok (sv_delivery s')" unfolding fields(1)
    by (rule delivery_ok_accept[OF d])
       (use send_outcomes_frame[OF assms(4)] delivery_capacity[OF d] in auto)
  have "answered (pending s) = answered ?ms + answered ?ls + answered (pending s')"
    using pend(2) by (simp add: fields(5))
  then have "answered (d_accepted (sv_delivery s')) + answered (sv_lost s') + answered (pending s') + asked (task_commands (sv_tasks s')) =
      answered (d_accepted (sv_delivery s)) + answered (sv_lost s) + answered (pending s) + asked (task_commands (sv_tasks s))"
    unfolding fields(2,4) by (simp add: fields(1) ac_simps)
  moreover have "set (d_accepted (sv_delivery s') @ sv_lost s' @ pending s') \<subseteq>
      set (d_accepted (sv_delivery s) @ sv_lost s @ pending s)"
    using pend(1) by (auto simp: fields)
  ultimately show ?thesis using assms(1) ok unfolding serving_inv_def fields(3,4) by (auto simp: subset_iff)
qed

lemma serving_inv_step:
  assumes "serving_inv hello s" "serving_step (light_setup env insecure cfg) parse s s'"
  shows "serving_inv hello s'"
  using assms(2)
proof cases
  case (hear raw e r t p fresh ts ctx)
  then show ?thesis using serving_inv_hear[OF assms(1)] by blast
next
  case (handle e a c)
  then show ?thesis using serving_inv_handle[OF assms(1)] light_setup_dispatch by metis
next
  case (inventory fresh ts r)
  then show ?thesis using serving_inv_inventory[OF assms(1)] by blast
next
  case (sends i m r rest p ctx)
  then show ?thesis using serving_inv_sends[OF assms(1)] by blast
next
  case (writes d)
  then show ?thesis
    using assms(1) delivery_ok_step[of "sv_delivery s" d] by (auto simp: serving_inv_def pending_def)
qed

lemma serving_inv_start: "serving_inv hello (serving_start hello a)"
  if "\<not> is_result hello"
  using that by (simp add: serving_inv_def serving_start_def delivery_ok_def delivery_start_def pending_def commands_def
      new_persistent_conn_def send_capacity_def)

lemma serves_as_inv:
  assumes "serves_as env insecure cfg hello parse s"
  shows "serving_inv hello s \<and> env_type hello = MsgHello"
proof -
  obtain fresh ts a where h: "hello = hello_envelope fresh ts (gs_client (light_setup env insecure cfg))"
      and steps: "(serving_step (light_setup env insecure cfg) parse)\<^sup>*\<^sup>* (serving_start hello a) s"
    using assms by (auto simp: serves_as_def)
  have t: "env_type hello = MsgHello" by (simp add: h hello_envelope_def)
  from steps have "serving_inv hello s"
    by induction (use serving_inv_start[of hello a] serving_inv_step t in \<open>auto simp: is_result_def message_types\<close>)
  then show ?thesis using t by blast
qed

section \<open>On the wire\<close>

text \<open>
  C6. The agent speaks only when spoken to: at every moment of a connection, under every interleaving
  of reader, handlers, senders and writer, what is on the wire are the frames of the hello, of a pong
  to a ping heard, of an empty inventory after a handshake, and of the messages of handlers replying
  to a command heard, and no command is answered by more than one result. Of what was accepted for
  sending at most 33 frames are not on the wire yet.
\<close>

theorem wire_only_answers:
  assumes "serves_as env insecure cfg hello parse s"
  shows "\<exists>sent rest. d_accepted (sv_delivery s) = sent @ rest \<and> d_wire (sv_delivery s) = map marshal sent \<and>
    length rest \<le> 33 \<and> set sent \<subseteq> {hello} \<union> {m. caused (sv_heard s) m} \<and>
    answered sent \<subseteq># asked (commands (sv_heard s))"
proof -
  let ?d = "sv_delivery s" and ?n = "length (d_wire (sv_delivery s))"
  have inv: "serving_inv hello s" using serves_as_inv[OF assms] by blast
  have ok: "delivery_ok ?d" using inv by (simp add: serving_inv_def)
  let ?sent = "take ?n (d_accepted ?d)" and ?rest = "drop ?n (d_accepted ?d)"
  have map: "map marshal (d_accepted ?d) = d_wire ?d @ d_failed ?d @ pc_send (d_conn ?d)"
    using ok by (simp add: delivery_ok_def)
  have wire: "d_wire ?d = map marshal ?sent" by (simp add: map take_map[symmetric])
  have "length (d_accepted ?d) = ?n + length (d_failed ?d) + length (pc_send (d_conn ?d))"
    using arg_cong[OF map, of length] by simp
  then have rest: "length ?rest \<le> 33" using ok by (simp add: delivery_ok_def send_capacity_def)
  have sub: "set ?sent \<subseteq> set (d_accepted ?d)" by (rule set_take_subset)
  have split: "answered (d_accepted ?d) = answered ?sent + answered ?rest"
    using answered_simps(2)[of ?sent ?rest] by simp
  have "asked (commands (sv_heard s)) =
      answered ?sent + (answered ?rest + answered (sv_lost s) + answered (pending s) + asked (task_commands (sv_tasks s)))"
    using inv unfolding serving_inv_def split by (simp only: add.assoc)
  then have "answered ?sent \<subseteq># asked (commands (sv_heard s))" by (simp only: mset_subset_eq_add_left)
  moreover have "set ?sent \<subseteq> {hello} \<union> {m. caused (sv_heard s) m}"
    using sub inv by (auto simp: serving_inv_def)
  ultimately show ?thesis using wire rest by (intro exI[of _ ?sent] exI[of _ ?rest]) simp
qed

definition at_rest :: "serving \<Rightarrow> bool" where
  "at_rest s \<longleftrightarrow> sv_tasks s = [] \<and> pending s = [] \<and> pc_send (sv_conn s) = []"

lemma at_rest_answered:
  assumes "serves_as env insecure cfg hello parse s" "at_rest s"
  shows "answered (d_accepted (sv_delivery s)) + answered (sv_lost s) = asked (commands (sv_heard s))"
  using serves_as_inv[OF assms(1)] assms(2) by (simp add: serving_inv_def at_rest_def)

lemma queue_drains:
  "d_writer (sv_delivery s) = None \<Longrightarrow>
     \<exists>d. (serving_step g parse)\<^sup>*\<^sup>* s (s\<lparr>sv_delivery := d\<rparr>) \<and> pc_send (d_conn d) = [] \<and> d_writer d = None \<and>
       d_failed d = d_failed (sv_delivery s)"
proof (induction "pc_send (sv_conn s)" arbitrary: s)
  case Nil
  then show ?case by (intro exI[of _ "sv_delivery s"]) simp
next
  case (Cons b q)
  let ?d = "sv_delivery s"
  let ?d1 = "?d\<lparr>d_conn := (d_conn ?d)\<lparr>pc_send := q\<rparr>, d_wire := d_wire ?d @ [b]\<rparr>"
  have "(Inr (), (d_conn ?d)\<lparr>pc_send := q\<rparr>, Some b) \<in> set (write_turn None (\<lambda>b. None) (d_conn ?d))"
    using Cons.hyps(2)[symmetric] by (auto simp: write_turn_def)
  from delivery_step.write_takes[OF Cons.prems this]
  have step: "serving_step g parse s (s\<lparr>sv_delivery := ?d1\<rparr>)" by (rule serving_step.writes) simp
  have "\<exists>d. (serving_step g parse)\<^sup>*\<^sup>* (s\<lparr>sv_delivery := ?d1\<rparr>) (s\<lparr>sv_delivery := ?d1\<rparr>\<lparr>sv_delivery := d\<rparr>) \<and>
      pc_send (d_conn d) = [] \<and> d_writer d = None \<and> d_failed d = d_failed (sv_delivery (s\<lparr>sv_delivery := ?d1\<rparr>))"
    by (rule Cons.hyps(1)) (use Cons.prems in simp_all)
  then show ?case using step by (auto intro: converse_rtranclp_into_rtranclp)
qed

lemma outbox_empties:
  "d_writer (sv_delivery s) = None \<Longrightarrow>
     \<exists>s'. (serving_step g parse)\<^sup>*\<^sup>* s s' \<and> pending s' = [] \<and> sv_tasks s' = sv_tasks s \<and> sv_heard s' = sv_heard s \<and>
       d_writer (sv_delivery s') = None"
proof (induction "length (pending s)" arbitrary: s)
  case 0
  then show ?case by auto
next
  case (Suc n)
  then have "pending s \<noteq> []" by auto
  then obtain i where i: "i < length (sv_outbox s)" "sv_outbox s ! i \<noteq> []" using pending_Nil by blast
  then obtain m r rest where m: "sv_outbox s ! i = (m, r) # rest" by (metis list.exhaust prod.exhaust)
  obtain d where d: "(serving_step g parse)\<^sup>*\<^sup>* s (s\<lparr>sv_delivery := d\<rparr>)" "pc_send (d_conn d) = []" "d_writer d = None"
    using queue_drains[OF Suc.prems] by blast
  let ?s1 = "s\<lparr>sv_delivery := d\<rparr>"
  obtain p ctx where p: "(r, p) \<in> set (send_outcomes ctx m (d_conn d))"
  proof (cases r)
    case None
    then show ?thesis using that[of _ None] d(2) by (auto simp: send_outcomes_def send_capacity_def)
  next
    case (Some e)
    then show ?thesis using that[of "d_conn d" "Some e"] by (auto simp: send_outcomes_def)
  qed
  let ?s2 = "(accept p (if r = None then [m] else []) ?s1)
      \<lparr>sv_outbox := (sv_outbox ?s1)[i := rest], sv_lost := sv_lost ?s1 @ (if r = None then [] else [m])\<rparr>"
  have step: "serving_step g parse ?s1 ?s2"
    by (rule serving_step.sends[of i ?s1 m r rest p ctx]) (use i(1) m p in simp_all)
  have "n = length (pending ?s2)"
    using Suc.hyps(2) pending_send(3)[OF i(1) m] by (simp add: pending_def)
  moreover have "d_writer (sv_delivery ?s2) = None" using d(3) by (simp add: accept_def)
  ultimately obtain s' where s': "(serving_step g parse)\<^sup>*\<^sup>* ?s2 s'" "pending s' = []"
      "sv_tasks s' = sv_tasks ?s2" "sv_heard s' = sv_heard ?s2" "d_writer (sv_delivery s') = None"
    using Suc.hyps(1) by blast
  have "(serving_step g parse)\<^sup>*\<^sup>* s s'"
    using d(1) step s'(1) by (meson rtranclp.rtrancl_into_rtrancl rtranclp_trans)
  then show ?case using s'(2-5) by (intro exI[of _ s']) (simp add: accept_def)
qed

lemma tasks_run:
  "serving_inv hello s \<Longrightarrow> d_writer (sv_delivery s) = None \<Longrightarrow>
     \<exists>s'. (serving_step (light_setup env insecure cfg) parse)\<^sup>*\<^sup>* s s' \<and> sv_tasks s' = [] \<and> sv_heard s' = sv_heard s \<and>
       d_writer (sv_delivery s') = None"
proof (induction "length (sv_tasks s)" arbitrary: s)
  case 0
  then show ?case by auto
next
  case (Suc n)
  let ?g = "light_setup env insecure cfg"
  obtain t ts where t: "sv_tasks s = t # ts" using Suc.hyps(2) by (cases "sv_tasks s") auto
  then have "(\<exists>e. t = RunCommand e) \<or> t = SendInventory" using Suc.prems(1) by (auto simp: serving_inv_def)
  then obtain s1 where s1: "serving_step ?g parse s s1" "sv_tasks s1 = ts" "sv_heard s1 = sv_heard s" "sv_delivery s1 = sv_delivery s"
  proof
    assume "\<exists>e. t = RunCommand e"
    then obtain e where e: "RunCommand e \<in> set (sv_tasks s)" "t = RunCommand e" using t by auto
    show ?thesis
      by (rule that[OF serving_step.handle[OF e(1) refl, where c = update_context]]) (simp_all add: t e(2))
  next
    assume i: "t = SendInventory"
    then have "SendInventory \<in> set (sv_tasks s)" by (simp add: t)
    from serving_step.inventory[OF this] show ?thesis by (rule that) (simp_all add: t i)
  qed
  have "serving_inv hello s1" using serving_inv_step[OF Suc.prems(1) s1(1)] .
  moreover have "n = length (sv_tasks s1)" using Suc.hyps(2) t s1(2) by simp
  ultimately obtain s' where "(serving_step ?g parse)\<^sup>*\<^sup>* s1 s'" "sv_tasks s' = []" "sv_heard s' = sv_heard s1"
      "d_writer (sv_delivery s') = None"
    using Suc.hyps(1)[of s1] Suc.prems(2) s1(4) by auto
  then show ?case using s1(1,3) by (metis converse_rtranclp_into_rtranclp)
qed

lemma serves_as_steps:
  "serves_as env insecure cfg hello parse s \<Longrightarrow> (serving_step (light_setup env insecure cfg) parse)\<^sup>*\<^sup>* s s' \<Longrightarrow>
     serves_as env insecure cfg hello parse s'"
  unfolding serves_as_def by (blast intro: rtranclp_trans)

definition all_answered :: "serving \<Rightarrow> bool" where
  "all_answered s \<longleftrightarrow> d_wire (sv_delivery s) = map marshal (d_accepted (sv_delivery s)) \<and>
     answered (d_accepted (sv_delivery s)) + answered (sv_lost s) = asked (commands (sv_heard s))"

lemma at_rest_all_answered:
  assumes "serves_as env insecure cfg hello parse s" "d_writer (sv_delivery s) = None" "at_rest s"
  shows "all_answered s"
proof -
  have ok: "delivery_ok (sv_delivery s)" using serves_as_inv[OF assms(1)] by (simp add: serving_inv_def)
  then have "d_failed (sv_delivery s) = []" using assms(2) by (auto simp: delivery_ok_def)
  then show ?thesis
    using ok at_rest_answered[OF assms(1,3)] assms(3) by (simp add: all_answered_def delivery_ok_def at_rest_def)
qed


section \<open>A command of unknown kind\<close>

definition sample_order :: envelope where
  "sample_order = (bare_command ''shell'' JNull)\<lparr>env_ts := zero_time\<rparr>"

definition sample_hello :: envelope where
  "sample_hello = hello_envelope ''h'' zero_time (gs_client (light_setup sample_agentenv False fresh_config))"

definition sample_serving :: serving where
  "sample_serving = (serving_start sample_hello update_agent)\<lparr>sv_heard := [sample_order], sv_tasks := [RunCommand sample_order]\<rparr>"

lemma sample_order_simps:
  "env_type sample_order = MsgCommand" "env_id sample_order = ''c1''" "decodable sample_order"
  by (simp_all add: sample_order_def bare_command_def decodable_def decode_data_def)

lemma sample_order_read: "unmarshal_envelope Some (marshal sample_order) = Some sample_order"
proof -
  have "rfc3339_ok zero_time" by code_simp
  then have "decode_envelope Some (envelope_json sample_order) = Some sample_order"
    by (intro envelope_roundtrip) (simp_all add: sample_order_def)
  moreover have "json_wf (envelope_json sample_order)"
    by (simp add: envelope_json_wf sample_order_def bare_command_def command_json_def str_member_def)
  ultimately show ?thesis by (simp add: unmarshal_envelope_def marshal_def json_parse_print)
qed

lemma sample_serving_serves: "serves_as sample_agentenv False fresh_config sample_hello Some sample_serving"
proof -
  let ?g = "light_setup sample_agentenv False fresh_config" and ?s = "serving_start sample_hello update_agent"
  have "(None, Some (RunCommand sample_order), sv_conn ?s) \<in> set (dispatch (gs_client ?g) [] [] None sample_order (sv_conn ?s))"
    by (simp add: dispatch_def sample_order_simps message_types light_setup_def light_runtime_config_def new_client_def)
  from serving_step.hear[OF sample_order_read this]
  have "serving_step ?g Some ?s sample_serving"
    by (simp add: sample_serving_def accept_def sample_order_simps message_types serving_start_def)
  then show ?thesis by (auto simp: serves_as_def sample_hello_def)
qed

lemma sample_commands: "asked (commands (sv_heard sample_serving)) = {#Some ''c1''#}"
  by (simp add: sample_serving_def commands_def sample_order_simps)

theorem wire_only_answers_witness:
  "\<exists>sent rest. d_accepted (sv_delivery sample_serving) = sent @ rest \<and> d_wire (sv_delivery sample_serving) = map marshal sent \<and>
     answered sent \<subseteq># {#Some ''c1''#}"
  using wire_only_answers[OF sample_serving_serves] sample_commands by metis


end
