(* ===== verification/Telemetry.thy ===== *)
theory Telemetry
  imports Client
begin

text \<open>
  The telemetry samples of the protocol: \<open>TelemetryData\<close>, \<open>DiskUsage\<close>, \<open>NetworkUsage\<close>, \<open>GPUInfo\<close> and
  \<open>ThermalInfo\<close> of \<open>proto/messages.go\<close>, as \<open>json.Marshal\<close> writes them, and what the loop of the client
  makes of a sample it cannot marshal. A \<open>float64\<close> is of an arbitrary type \<open>'f\<close>; \<open>lit\<close> is the
  formatting of \<open>encoding/json\<close>, which fails for the values that JSON cannot express, NaN and the
  infinities.
\<close>

section \<open>The samples\<close>

record disk_usage =
  du_mount :: string
  du_used :: int
  du_total :: int
  du_read_sec :: int
  du_write_sec :: int

record network_usage =
  nu_rx_sec :: int
  nu_tx_sec :: int

record 'f gpu_info =
  gi_name :: string
  gi_util :: "'f option"
  gi_mem_used :: "int option"
  gi_mem_total :: "int option"
  gi_temp :: "'f option"

record 'f thermal_info =
  ti_cpu :: "'f option"
  ti_board :: "'f option"

record 'f telemetry_data =
  td_collected_at :: string
  td_cpu_percent :: 'f
  td_ram_used :: int
  td_ram_total :: int
  td_disks :: "disk_usage list"
  td_network :: network_usage
  td_gpus :: "'f gpu_info list"
  td_thermal :: "'f thermal_info"

section \<open>Marshalling\<close>

definition int_member :: "string \<Rightarrow> int \<Rightarrow> members" where
  "int_member k i = [(k, JNum (show_int i))]"

text \<open>\<open>omitempty\<close>: of an integer, left out at zero; of a pointer, left out when nil.\<close>

definition int_member_omit :: "string \<Rightarrow> int \<Rightarrow> members" where
  "int_member_omit k i = (if i = 0 then [] else int_member k i)"

definition int_pointer :: "string \<Rightarrow> int option \<Rightarrow> members" where
  "int_pointer k p = (case p of None \<Rightarrow> [] | Some i \<Rightarrow> int_member k i)"

definition float_member :: "('f \<Rightarrow> string res) \<Rightarrow> string \<Rightarrow> 'f \<Rightarrow> members res" where
  "float_member lit k x = (case lit x of Inl e \<Rightarrow> Inl e | Inr l \<Rightarrow> Inr [(k, JNum l)])"

definition float_pointer :: "('f \<Rightarrow> string res) \<Rightarrow> string \<Rightarrow> 'f option \<Rightarrow> members res" where
  "float_pointer lit k p = (case p of None \<Rightarrow> Inr [] | Some x \<Rightarrow> float_member lit k x)"

text \<open>Members in the order of the fields; the first that fails ends the marshalling.\<close>

fun all_members :: "members res list \<Rightarrow> members res" where
  "all_members [] = Inr []"
| "all_members (Inl e # ms) = Inl e"
| "all_members (Inr m # ms) = (case all_members ms of Inl e \<Rightarrow> Inl e | Inr rest \<Rightarrow> Inr (m @ rest))"

fun all_elements :: "json res list \<Rightarrow> json list res" where
  "all_elements [] = Inr []"
| "all_elements (Inl e # vs) = Inl e"
| "all_elements (Inr v # vs) = (case all_elements vs of Inl e \<Rightarrow> Inl e | Inr rest \<Rightarrow> Inr (v # rest))"

definition obj :: "members res \<Rightarrow> json res" where
  "obj r = (case r of Inl e \<Rightarrow> Inl e | Inr ms \<Rightarrow> Inr (JObj ms))"

definition disk_usage_json :: "disk_usage \<Rightarrow> json" where
  "disk_usage_json d = JObj
     (str_member ''mount'' (du_mount d) @ int_member ''used_bytes'' (du_used d) @
      int_member ''total_bytes'' (du_total d) @ int_member_omit ''read_bytes_sec'' (du_read_sec d) @
      int_member_omit ''write_bytes_sec'' (du_write_sec d))"

definition network_usage_json :: "network_usage \<Rightarrow> json" where
  "network_usage_json n = JObj (int_member ''rx_bytes_sec'' (nu_rx_sec n) @ int_member ''tx_bytes_sec'' (nu_tx_sec n))"

definition gpu_info_json :: "('f \<Rightarrow> string res) \<Rightarrow> 'f gpu_info \<Rightarrow> json res" where
  "gpu_info_json lit g = obj (all_members
     [Inr (str_member ''name'' (gi_name g)), float_pointer lit ''util_percent'' (gi_util g),
      Inr (int_pointer ''mem_used_bytes'' (gi_mem_used g)), Inr (int_pointer ''mem_total_bytes'' (gi_mem_total g)),
      float_pointer lit ''temp_c'' (gi_temp g)])"

definition thermal_info_json :: "('f \<Rightarrow> string res) \<Rightarrow> 'f thermal_info \<Rightarrow> json res" where
  "thermal_info_json lit t = obj (all_members
     [float_pointer lit ''cpu_temp_c'' (ti_cpu t), float_pointer lit ''motherboard_temp_c'' (ti_board t)])"

text \<open>A slice is left out when empty (\<open>omitempty\<close>), the thermal sample when both its pointers are nil (\<open>omitzero\<close>).\<close>

definition gpus_member :: "('f \<Rightarrow> string res) \<Rightarrow> 'f gpu_info list \<Rightarrow> members res" where
  "gpus_member lit gs =
     (if gs = [] then Inr []
      else (case all_elements (map (gpu_info_json lit) gs) of
              Inl e \<Rightarrow> Inl e
            | Inr vs \<Rightarrow> Inr [(''gpus'', JArr vs)]))"

definition thermal_member :: "('f \<Rightarrow> string res) \<Rightarrow> 'f thermal_info \<Rightarrow> members res" where
  "thermal_member lit t =
     (if ti_cpu t = None \<and> ti_board t = None then Inr []
      else (case thermal_info_json lit t of
              Inl e \<Rightarrow> Inl e
            | Inr v \<Rightarrow> Inr [(''thermal'', v)]))"

definition telemetry_json :: "('f \<Rightarrow> string res) \<Rightarrow> 'f telemetry_data \<Rightarrow> json res" where
  "telemetry_json lit d = obj (all_members
     [Inr (str_member ''collected_at'' (td_collected_at d)), float_member lit ''cpu_percent'' (td_cpu_percent d),
      Inr (int_member ''ram_used_bytes'' (td_ram_used d)), Inr (int_member ''ram_total_bytes'' (td_ram_total d)),
      Inr (if td_disks d = [] then [] else [(''disks'', JArr (map disk_usage_json (td_disks d)))]),
      Inr [(''network'', network_usage_json (td_network d))],
      gpus_member lit (td_gpus d), thermal_member lit (td_thermal d)])"

text \<open>
  What a tick of \<open>telemetryLoop\<close> has to send: the provider's error and that of \<open>NewEnvelope\<close>, which
  marshals the sample, are both logged and the tick skipped.
\<close>

definition telemetry_sample :: "('f \<Rightarrow> string res) \<Rightarrow> 'f telemetry_data res \<Rightarrow> json res" where
  "telemetry_sample lit r =
     (case r of
        Inl e \<Rightarrow> Inl e
      | Inr d \<Rightarrow>
          (case telemetry_json lit d of
             Inl e \<Rightarrow> Inl (wrapf (''proto: marshal data for '' @ MsgTelemetry @ '': '') e)
           | Inr v \<Rightarrow> Inr v))"

section \<open>What a sample says\<close>

text \<open>The floating-point values a sample carries: the load, and every sensor that was read.\<close>

definition sample_floats :: "'f telemetry_data \<Rightarrow> 'f set" where
  "sample_floats d =
     {td_cpu_percent d} \<union> (\<Union>g\<in>set (td_gpus d). set_option (gi_util g) \<union> set_option (gi_temp g)) \<union>
     set_option (ti_cpu (td_thermal d)) \<union> set_option (ti_board (td_thermal d))"

definition printable :: "('f \<Rightarrow> string res) \<Rightarrow> 'f \<Rightarrow> bool" where
  "printable lit x \<longleftrightarrow> (\<exists>l. lit x = Inr l)"

lemma all_members_ok: "(\<exists>ms. all_members rs = Inr ms) \<longleftrightarrow> (\<forall>r \<in> set rs. \<exists>m. r = Inr m)"
  by (induction rs rule: all_members.induct) (auto split: sum.splits)

lemma all_elements_ok: "(\<exists>vs. all_elements rs = Inr vs) \<longleftrightarrow> (\<forall>r \<in> set rs. \<exists>v. r = Inr v)"
  by (induction rs rule: all_elements.induct) (auto split: sum.splits)

lemma obj_ok: "(\<exists>v. obj r = Inr v) \<longleftrightarrow> (\<exists>ms. r = Inr ms)"
  by (simp add: obj_def split: sum.splits)

lemma float_pointer_ok: "(\<exists>m. float_pointer lit k p = Inr m) \<longleftrightarrow> (\<forall>x \<in> set_option p. printable lit x)"
  by (auto simp: float_pointer_def float_member_def printable_def split: option.splits sum.splits)

lemma float_member_ok: "(\<exists>m. float_member lit k x = Inr m) \<longleftrightarrow> printable lit x"
  by (simp add: float_member_def printable_def split: sum.splits)

lemma gpu_info_ok:
  "(\<exists>v. gpu_info_json lit g = Inr v) \<longleftrightarrow> (\<forall>x \<in> set_option (gi_util g) \<union> set_option (gi_temp g). printable lit x)"
  using float_pointer_ok[of lit "''util_percent''" "gi_util g"] float_pointer_ok[of lit "''temp_c''" "gi_temp g"]
  unfolding gpu_info_json_def obj_ok all_members_ok by (simp add: ball_Un)

lemma thermal_info_ok:
  "(\<exists>v. thermal_info_json lit t = Inr v) \<longleftrightarrow> (\<forall>x \<in> set_option (ti_cpu t) \<union> set_option (ti_board t). printable lit x)"
  using float_pointer_ok[of lit "''cpu_temp_c''" "ti_cpu t"] float_pointer_ok[of lit "''motherboard_temp_c''" "ti_board t"]
  unfolding thermal_info_json_def obj_ok all_members_ok by (simp add: ball_Un)

text \<open>
  A sample is sent exactly if all its floating-point values can be printed: one NaN of one sensor
  drops the whole tick, although the sensors are meant to be best effort one by one.
\<close>

lemma gpus_member_ok:
  "(\<exists>m. gpus_member lit gs = Inr m) \<longleftrightarrow>
     (\<forall>g \<in> set gs. \<forall>x \<in> set_option (gi_util g) \<union> set_option (gi_temp g). printable lit x)"
proof -
  have "(\<exists>vs. all_elements (map (gpu_info_json lit) gs) = Inr vs) \<longleftrightarrow>
      (\<forall>g \<in> set gs. \<forall>x \<in> set_option (gi_util g) \<union> set_option (gi_temp g). printable lit x)"
    unfolding all_elements_ok by (simp add: gpu_info_ok)
  then show ?thesis by (cases "gs = []") (auto simp: gpus_member_def split: sum.splits)
qed

lemma thermal_member_ok:
  "(\<exists>m. thermal_member lit t = Inr m) \<longleftrightarrow> (\<forall>x \<in> set_option (ti_cpu t) \<union> set_option (ti_board t). printable lit x)"
  using thermal_info_ok[of lit t] by (auto simp: thermal_member_def split: sum.splits)

lemma telemetry_json_ok: "(\<exists>v. telemetry_json lit d = Inr v) \<longleftrightarrow> (\<forall>x \<in> sample_floats d. printable lit x)"
  unfolding telemetry_json_def obj_ok all_members_ok
  by (simp add: float_member_ok gpus_member_ok thermal_member_ok sample_floats_def ball_Un)

lemma unprintable_sample_skipped:
  assumes "x \<in> sample_floats d" "\<not> printable lit x"
  shows "telemetry_turn cfg fresh ts None True (telemetry_sample lit (Inr d)) p =
    (if cc_telemetry_provider cfg then [(Inr (), p)] else [])"
proof -
  obtain e where "telemetry_json lit d = Inl e"
    using telemetry_json_ok[of lit d] assms by (cases "telemetry_json lit d") auto
  then show ?thesis by (simp add: telemetry_turn_def telemetry_sample_def)
qed

text \<open>
  A sensor that was not read is not sent, in particular never as zero; one that was read is sent as
  it prints, zero included.
\<close>

lemma gpu_sensors_exact:
  assumes "gpu_info_json lit g = Inr (JObj ms)"
  shows "map_of ms ''temp_c'' = map_option (\<lambda>x. JNum (projr (lit x))) (gi_temp g)"
    "map_of ms ''util_percent'' = map_option (\<lambda>x. JNum (projr (lit x))) (gi_util g)"
    "map_of ms ''mem_used_bytes'' = map_option (\<lambda>i. JNum (show_int i)) (gi_mem_used g)"
  using assms
  by (auto simp: gpu_info_json_def obj_def float_pointer_def float_member_def int_pointer_def int_member_def
      str_member_def split: option.splits sum.splits)

lemma disk_rates_zero_omitted:
  "disk_usage_json d = JObj ms \<Longrightarrow>
     map_of ms ''read_bytes_sec'' = (if du_read_sec d = 0 then None else Some (JNum (show_int (du_read_sec d))))"
  by (auto simp: disk_usage_json_def int_member_def int_member_omit_def str_member_def)

text \<open>Every sample that is sent is well-formed JSON, so the frame reads back.\<close>

definition wf_members :: "members \<Rightarrow> bool" where
  "wf_members ms \<longleftrightarrow> list_all (\<lambda>(k, v). json_wf v) ms"

lemma wf_members_simps [simp]:
  "wf_members []" "wf_members (str_member k s)" "wf_members (int_member k i)" "wf_members (int_member_omit k i)"
  "wf_members (int_pointer k p)" "wf_members [(k, v)] \<longleftrightarrow> json_wf v"
  "wf_members (a @ b) \<longleftrightarrow> wf_members a \<and> wf_members b"
  by (auto simp: wf_members_def int_member_def int_member_omit_def int_pointer_def split: option.splits)

lemma all_members_wf:
  "all_members rs = Inr ms \<Longrightarrow> \<forall>m. Inr m \<in> set rs \<longrightarrow> wf_members m \<Longrightarrow> wf_members ms"
  by (induction rs arbitrary: ms rule: all_members.induct) (auto split: sum.splits)

lemma all_elements_wf:
  "all_elements rs = Inr vs \<Longrightarrow> \<forall>v. Inr v \<in> set rs \<longrightarrow> json_wf v \<Longrightarrow> list_all json_wf vs"
  by (induction rs arbitrary: vs rule: all_elements.induct) (auto split: sum.splits)

lemma obj_wf: "obj r = Inr v \<Longrightarrow> \<forall>ms. r = Inr ms \<longrightarrow> wf_members ms \<Longrightarrow> json_wf v"
  by (auto simp: obj_def wf_members_def split: sum.splits)

lemma float_members_wf:
  assumes "\<forall>x l. lit x = Inr l \<longrightarrow> valid_num l"
  shows "Inr m = float_pointer lit k p \<Longrightarrow> wf_members m" "Inr m = float_member lit k y \<Longrightarrow> wf_members m"
  using assms by (auto simp: float_pointer_def float_member_def split: option.splits sum.splits)

lemma obj_members_wf:
  assumes "obj (all_members rs) = Inr v" "\<And>m. Inr m \<in> set rs \<Longrightarrow> wf_members m"
  shows "json_wf v"
  using obj_wf[OF assms(1)] all_members_wf assms(2) by blast

lemma gpu_info_wf:
  assumes "\<forall>x l. lit x = Inr l \<longrightarrow> valid_num l" "gpu_info_json lit g = Inr v"
  shows "json_wf v"
  by (rule obj_members_wf[OF assms(2)[unfolded gpu_info_json_def]]) (auto dest: float_members_wf[OF assms(1)])

lemma thermal_info_wf:
  assumes "\<forall>x l. lit x = Inr l \<longrightarrow> valid_num l" "thermal_info_json lit t = Inr v"
  shows "json_wf v"
  by (rule obj_members_wf[OF assms(2)[unfolded thermal_info_json_def]]) (auto dest: float_members_wf[OF assms(1)])

lemma disk_usage_wf: "json_wf (disk_usage_json d)"
  using wf_members_simps unfolding disk_usage_json_def wf_members_def by simp

lemma network_usage_wf: "json_wf (network_usage_json n)"
  using wf_members_simps unfolding network_usage_json_def wf_members_def by simp

lemma gpus_member_wf:
  assumes "\<forall>x l. lit x = Inr l \<longrightarrow> valid_num l" "Inr m = gpus_member lit gs"
  shows "wf_members m"
proof (cases "gs = []")
  case False
  then obtain vs where vs: "all_elements (map (gpu_info_json lit) gs) = Inr vs" "m = [(''gpus'', JArr vs)]"
    using assms(2) by (auto simp: gpus_member_def split: sum.splits)
  have "json_wf v" if "Inr v \<in> set (map (gpu_info_json lit) gs)" for v
    using that gpu_info_wf[OF assms(1)] by (auto simp: eq_commute[of "Inr v"])
  then have "list_all json_wf vs" using all_elements_wf[OF vs(1)] by blast
  then show ?thesis by (simp add: vs(2))
qed (use assms(2) in \<open>simp add: gpus_member_def\<close>)

lemma thermal_member_wf:
  assumes "\<forall>x l. lit x = Inr l \<longrightarrow> valid_num l" "Inr m = thermal_member lit t"
  shows "wf_members m"
  using assms(2) thermal_info_wf[OF assms(1), of t] by (auto simp: thermal_member_def split: if_splits sum.splits)

lemma telemetry_json_wf:
  assumes lit: "\<forall>x l. lit x = Inr l \<longrightarrow> valid_num l" and "telemetry_json lit d = Inr v"
  shows "json_wf v"
proof (rule obj_members_wf[OF assms(2)[unfolded telemetry_json_def]])
  fix m
  assume "Inr m \<in> set
     [Inr (str_member ''collected_at'' (td_collected_at d)), float_member lit ''cpu_percent'' (td_cpu_percent d),
      Inr (int_member ''ram_used_bytes'' (td_ram_used d)), Inr (int_member ''ram_total_bytes'' (td_ram_total d)),
      Inr (if td_disks d = [] then [] else [(''disks'', JArr (map disk_usage_json (td_disks d)))]),
      Inr [(''network'', network_usage_json (td_network d))],
      gpus_member lit (td_gpus d), thermal_member lit (td_thermal d)]"
  then show "wf_members m"
    using float_members_wf(2)[OF lit] gpus_member_wf[OF lit] thermal_member_wf[OF lit]
    by (auto simp: network_usage_wf disk_usage_wf list_all_iff)
qed

text \<open>So a frame with a sample reads back on the other side.\<close>

lemma telemetry_reads_back:
  "\<forall>x l. lit x = Inr l \<longrightarrow> valid_num l \<Longrightarrow> telemetry_json lit d = Inr v \<Longrightarrow> json_parse (json_print v) = Some v"
  by (rule json_parse_print) (rule telemetry_json_wf)

end
