(* ===== verification/Spec2Isabelle.thy ===== *)
theory Spec2Isabelle
  imports Desktop Flights Payload Service Serving Solarbeam Telemetry
begin

text \<open>
  Verification of the ReadyFleet light agent, the Go program under \<open>src/agent\<close> and \<open>src/proto\<close>.

  The program. \<open>lightagent.exe\<close> runs on a mentor's own Windows PC. It enrols once with a single-use
  secret, keeps a WebSocket connection to a server, executes six kinds of command (inventory, start
  and stop a SolarBeam session, update the engine, update itself, show a notification), and shows a
  tray icon from which the user can pause the connection, open a hidden browser window or quit. The
  packages around it install and remove it and draw the dialogs.

  Theories and what they model.
  \<^item> \<open>Prelude\<close>, \<open>GoText\<close>, \<open>GoJson\<close>, \<open>GoUrl\<close>, \<open>GoPath\<close>: Go errors as values, results as sums (\<open>'a res\<close>), and the
    functions of Go's standard library the code calls: byte strings, hexadecimal, \<open>encoding/json\<close> in both
    directions, \<open>url.Parse\<close>, \<open>filepath\<close> on Windows.
  \<^item> \<open>Host\<close>: the file system, the clock of fallible calls and the log of effects (\<open>world\<close>); each \<open>os\<close> call
    with its partial failures; the locale \<open>atomic_writer\<close> of writers that never tear a file.
  \<^item> \<open>Proto\<close>, \<open>Telemetry\<close>: \<open>proto/messages.go\<close>, the envelope and its payloads, encoded and decoded; the
    telemetry samples over any type of floating-point numbers.
  \<^item> \<open>Backoff\<close>, \<open>Conn\<close>, \<open>Liveness\<close>, \<open>Client\<close>, \<open>ClientRun\<close>: \<open>internal/transport/client.go\<close>. One connection with its
    queue and pumps, the read deadline, TLS and dispatch, and the reconnect loop \<open>Run\<close> with \<open>SetPaused\<close>
    as a step relation in which the goroutines interleave at their critical sections.
  \<^item> \<open>Verify\<close>, \<open>Update\<close>, \<open>EngineUpdate\<close>: \<open>internal/verify\<close>, \<open>internal/update\<close>, \<open>update_apply_windows.go\<close> and
    \<open>internal/solarbeam/update_windows.go\<close>: digests, Authenticode, the verified download, the policy,
    the swap of the running binary, the extraction of the engine's archive.
  \<^item> \<open>Solarbeam\<close>: \<open>internal/solarbeam/manager.go\<close> and \<open>manager_windows.go\<close>, in both launch modes.
  \<^item> \<open>Inventory\<close>, \<open>TrayIcon\<close>, \<open>Handlers\<close>: \<open>internal/lightinventory\<close>, \<open>internal/trayicon\<close>, and the six
    handlers with \<open>runtime.Dispatch\<close> (\<open>cmd/lightagent/handlers.go\<close>, \<open>prompt.go\<close>, \<open>internal/runtime\<close>).
  \<^item> \<open>Config\<close>, \<open>Enroll\<close>, \<open>Payload\<close>, \<open>Install\<close>: \<open>internal/config\<close>, \<open>internal/enroll\<close>, \<open>internal/lightinstall\<close>.
  \<^item> \<open>Dialog\<close>, \<open>Browser\<close>, \<open>Service\<close>: \<open>internal/installerui\<close>, \<open>internal/hiddenbrowser\<close>, \<open>internal/svc\<close>.
  \<^item> \<open>Agent\<close>: \<open>cmd/lightagent/main.go\<close> and \<open>tray.go\<close>, which put the parts together.
  \<^item> \<open>Serving\<close>: one connection of the agent from the frames read to the frames written, with the goroutine
    of every command interleaved with the reader, the senders and the writer.
  \<^item> \<open>Desktop\<close>: the running agent as one system, in which the server's commands, the user's clicks, the
    poller, the connection and the goroutines a click starts interleave over the shared tray and client.
  \<^item> \<open>Flights\<close>: the update commands as goroutines, \<open>Manager.Update\<close> statement by statement, interleaved with
    the operations of the \<open>solarbeam\<close> manager over one machine.

  State and operations. A Go struct is a record, an operation that changes it returns it updated, a
  pair of result and error is a sum or an optional error beside the new state. \<open>world\<close> is extended by
  the components that own more: \<open>machine\<close> (processes, service, engine) in \<open>Solarbeam\<close>, \<open>installer\<close> (logon
  entry, access lists) in \<open>Install\<close>. Everything the code cannot decide is an argument: each system
  call asks the environment for its fate at its own tick, so the theorems hold for every pattern of
  failures, and a write that fails leaves any part of its data.

  What the lemmas show. Beside the lemmas on single operations there are: safety of the update paths
  from the command to the file (\<open>Update\<close>, \<open>EngineUpdate\<close>, \<open>Handlers\<close>, \<open>Flights\<close>) and of installing and enrolling
  (\<open>Install\<close>, \<open>Enroll\<close>, \<open>Agent\<close>); invariants of the interleavings by induction over the steps (\<open>Conn\<close>,
  \<open>ClientRun\<close>, \<open>TrayIcon\<close>, \<open>Browser\<close>, \<open>Serving\<close>, \<open>Desktop\<close>, \<open>Flights\<close>); refinement of abstract specifications (the link seen by \<open>Stats\<close>, the
  icon handles); termination and liveness of the loops; round trips of the wire, the configuration
  and the packed structures; and the behaviour on every refusal. Locales state what clients rely on
  of a writer, a single-flight guard, a downloader, a launch mode, a command handler and a neighbour of the self-updates; each is
  interpreted on the definitions that provide it.

  Bounds. The JSON scanner \<open>jval\<close> takes a bound on its depth and \<open>json_parse\<close> one above the length of the
  text; each level and element uses a byte, and the round trips prove that it suffices for what the
  code prints. Loops that poll (\<open>wait_for_listener\<close>, \<open>wait_for_service_state\<close>, \<open>wait_for_agent_connected\<close>,
  \<open>wait_for_state\<close>) are functions proved to end by the time left. \<open>Run\<close> is a relation: it may go on for
  ever, and \<open>run_ends_iff_cancelled\<close> bounds its steps after a cancellation.

  Not modelled. The cryptography (key generation, certificate requests, PEM, TLS, SHA-256) and the
  Win32, WebSocket, WebView2 and registry calls are arguments with their documented outcomes. Text is
  taken to be valid UTF-8. The formatting of \<open>float64\<close> is an argument of the telemetry samples, which
  no part of this agent collects. Log lines carry no state and are left out, except the one the
  installer waits for; the rotation of the service's log is the logging library's.
\<close>

end
